theory Spec2Isabelle
  imports Main "HOL-Library.AList"
begin

section \<open>Values carried by a row\<close>

text \<open>
  A row handed to a formatter is a JavaScript object keyed by source field name.  Its
  values are the ones the data model lists (null, string, number, boolean, timestamp,
  nested structure) plus \<open>undefined\<close>, which is what reading a missing property
  yields.

  \<^item> Numbers: the three non-finite doubles are kept apart.  A finite number is given by
    the decimal that \<open>Number::toString\<close> writes from: its sign, the digits \<open>s\<close> (the
    shortest ones that read back as the same double) and the position \<open>n\<close> of the
    decimal point, the value being \<open>0.s \<times> 10^n\<close>; \<open>s = 0\<close> is zero.  So \<open>2^60\<close> is
    \<open>Finite False 1152921504606847 19\<close> and one tenth is \<open>Finite False 1 0\<close>.  Finding
    the digits from the bits of a double is the built-in's work and is not modelled.
  \<^item> A \<open>Date\<close> carries its time value in milliseconds since the epoch, or
    \<open>None\<close> for an invalid date (time value NaN).
  \<^item> Objects and arrays are given by the unfolding that a depth-first traversal sees:
    the properties in traversal order, and \<open>JCycle\<close> where a property refers back
    to an object that is still being traversed (a circular structure).
  \<^item> Strings are lists of 8-bit characters.

  A row is the list of its own properties, each key once.  Its prototype is
  \<open>Object.prototype\<close>, whose members are read when the row has no own property of the
  name.  Nested objects and arrays are plain data, as a JSON column parses to: they hold
  no functions and their prototypes are the built-in ones.
\<close>

datatype jsnum = NaN | PosInfinity | NegInfinity | Finite bool nat int

datatype jsval =
    JUndefined
  | JNull
  | JBool bool
  | JNum jsnum
  | JStr string
  | JDate "int option"
  | JArray "jsval list"
  | JObject "(string \<times> jsval) list"
  | JCycle

text \<open>
  What reading a property gives: a data value, or a built-in function (one of the
  methods of \<open>Object.prototype\<close>), given by its name.
\<close>

datatype field = Data jsval | Builtin string

datatype error = RangeError | TypeError | Error string

type_synonym row = "(string \<times> jsval) list"

record column =
  source :: string
  target :: string

abbreviation DQ :: char where "DQ \<equiv> CHR 0x22"
abbreviation BSL :: char where "BSL \<equiv> CHR 0x5C"
abbreviation NL :: char where "NL \<equiv> CHR 0x0A"

section \<open>Built-in operations the formatters call\<close>

text \<open>\<open>Array.prototype.join\<close> on an array of strings.\<close>

fun join_str :: "string \<Rightarrow> string list \<Rightarrow> string" where
  "join_str sep [] = []"
| "join_str sep [x] = x"
| "join_str sep (x # y # ys) = x @ sep @ join_str sep (y # ys)"

text \<open>\<open>s.replace(/c/g, r)\<close> for a single character \<open>c\<close>: every occurrence, left to right.\<close>

definition replace_all :: "char \<Rightarrow> string \<Rightarrow> string \<Rightarrow> string" where
  "replace_all c r s = concat (map (\<lambda>x. if x = c then r else [x]) s)"

text \<open>\<open>s.includes(c)\<close> for a single character.\<close>

definition str_includes :: "string \<Rightarrow> char \<Rightarrow> bool" where
  "str_includes s c = (c \<in> set s)"

text \<open>
  Reading a property of a row, \<open>chunk[k]\<close>: the own property if there is one, else
  the member of \<open>Object.prototype\<close> of that name, else \<open>undefined\<close>.  The members
  of \<open>Object.prototype\<close> are its methods, \<open>constructor\<close> (the function
  \<open>Object\<close>) and the accessor \<open>__proto__\<close>, which reads as \<open>Object.prototype\<close>
  itself, an object without enumerable properties.
\<close>

definition inherited :: "string \<Rightarrow> field option" where
  "inherited k =
     (if k = ''__proto__'' then Some (Data (JObject []))
      else if k = ''constructor'' then Some (Builtin ''Object'')
      else if k \<in> set [''toString'', ''toLocaleString'', ''valueOf'', ''hasOwnProperty'',
                         ''isPrototypeOf'', ''propertyIsEnumerable'', ''__defineGetter__'',
                         ''__defineSetter__'', ''__lookupGetter__'', ''__lookupSetter__'']
        then Some (Builtin k)
      else None)"

definition row_get :: "row \<Rightarrow> string \<Rightarrow> field" where
  "row_get chunk k =
     (case map_of chunk k of
        Some v \<Rightarrow> Data v
      | None \<Rightarrow> (case inherited k of Some f \<Rightarrow> f | None \<Rightarrow> Data JUndefined))"

subsection \<open>Decimal digits\<close>

definition digit_char :: "nat \<Rightarrow> char" where
  "digit_char d = ''0123456789'' ! (d mod 10)"

fun dec_nat :: "nat \<Rightarrow> string" where
  "dec_nat n = (if n < 10 then [digit_char n] else dec_nat (n div 10) @ [digit_char n])"

declare dec_nat.simps [simp del]

definition pad2 :: "nat \<Rightarrow> string" where
  "pad2 n = [digit_char (n div 10), digit_char n]"

definition pad3 :: "nat \<Rightarrow> string" where
  "pad3 n = [digit_char (n div 100), digit_char (n div 10), digit_char n]"

definition pad4 :: "nat \<Rightarrow> string" where
  "pad4 n = [digit_char (n div 1000), digit_char (n div 100), digit_char (n div 10), digit_char n]"

definition pad6 :: "nat \<Rightarrow> string" where
  "pad6 n = [digit_char (n div 100000), digit_char (n div 10000), digit_char (n div 1000),
             digit_char (n div 100), digit_char (n div 10), digit_char n]"

subsection \<open>\<open>String(number)\<close>\<close>

text \<open>
  \<open>Number::toString\<close>.  With \<open>k\<close> digits and the decimal point at \<open>n\<close>: the
  digits followed by zeros when \<open>k \<le> n \<le> 21\<close>; the digits with a point inside when
  \<open>0 < n \<le> 21\<close>; \<open>0.\<close>, zeros and the digits when \<open>-6 < n \<le> 0\<close>; and the
  exponent form with exponent \<open>n - 1\<close> otherwise.  Trailing zeros of the digits do
  not change the number and are dropped first.
\<close>

fun strip_zeros :: "nat \<Rightarrow> nat" where
  "strip_zeros s = (if s \<noteq> 0 \<and> s mod 10 = 0 then strip_zeros (s div 10) else s)"

declare strip_zeros.simps [simp del]

definition decimal_text :: "string \<Rightarrow> int \<Rightarrow> string" where
  "decimal_text ds n =
     (if int (length ds) \<le> n \<and> n \<le> 21 then ds @ replicate (nat (n - int (length ds))) (CHR ''0'')
      else if 0 < n \<and> n \<le> 21 then take (nat n) ds @ ''.'' @ drop (nat n) ds
      else if - 6 < n \<and> n \<le> 0 then ''0.'' @ replicate (nat (- n)) (CHR ''0'') @ ds
      else (if length ds = 1 then ds else hd ds # ''.'' @ tl ds) @ ''e'' @
           (if n - 1 < 0 then ''-'' else ''+'') @ dec_nat (nat \<bar>n - 1\<bar>))"

fun number_to_string :: "jsnum \<Rightarrow> string" where
  "number_to_string NaN = ''NaN''"
| "number_to_string PosInfinity = ''Infinity''"
| "number_to_string NegInfinity = ''-Infinity''"
| "number_to_string (Finite neg s n) =
     (if s = 0 then ''0''
      else (if neg then ''-'' else []) @ decimal_text (dec_nat (strip_zeros s)) n)"

text \<open>The number with an integral value.\<close>

definition int_number :: "int \<Rightarrow> jsnum" where
  "int_number i = Finite (i < 0) (nat \<bar>i\<bar>) (int (length (dec_nat (nat \<bar>i\<bar>))))"

subsection \<open>\<open>Date.prototype.toISOString\<close>\<close>

text \<open>
  The civil date of a day number (days since 1970-01-01, proleptic Gregorian calendar),
  as (year, month, day).
\<close>

definition civil_of_month :: "int \<Rightarrow> int \<Rightarrow> int \<Rightarrow> int \<times> nat \<times> nat" where
  "civil_of_month y doy mp =
     (if mp < 10 then y else y + 1,
      nat (if mp < 10 then mp + 3 else mp - 9),
      nat (doy - (153 * mp + 2) div 5 + 1))"

definition civil_of_year :: "int \<Rightarrow> int \<Rightarrow> int \<Rightarrow> int \<times> nat \<times> nat" where
  "civil_of_year era doe yoe =
     civil_of_month (yoe + era * 400)
       (doe - (365 * yoe + yoe div 4 - yoe div 100))
       ((5 * (doe - (365 * yoe + yoe div 4 - yoe div 100)) + 2) div 153)"

definition civil_of_era :: "int \<Rightarrow> int \<Rightarrow> int \<times> nat \<times> nat" where
  "civil_of_era era doe =
     civil_of_year era doe ((doe - doe div 1460 + doe div 36524 - doe div 146096) div 365)"

definition civil_from_days :: "int \<Rightarrow> int \<times> nat \<times> nat" where
  "civil_from_days days =
     civil_of_era ((days + 719468) div 146097) ((days + 719468) mod 146097)"

definition iso_year :: "int \<Rightarrow> string" where
  "iso_year y =
     (if 0 \<le> y \<and> y \<le> 9999 then pad4 (nat y)
      else if y < 0 then CHR ''-'' # pad6 (nat (- y))
      else CHR ''+'' # pad6 (nat y))"

fun iso_date :: "int \<times> nat \<times> nat \<Rightarrow> string" where
  "iso_date (y, m, d) = iso_year y @ ''-'' @ pad2 m @ ''-'' @ pad2 d"

definition iso_time :: "nat \<Rightarrow> string" where
  "iso_time ms =
     pad2 (ms div 3600000) @ '':'' @ pad2 (ms div 60000 mod 60) @ '':'' @
     pad2 (ms div 1000 mod 60) @ ''.'' @ pad3 (ms mod 1000)"

definition iso_string :: "int \<Rightarrow> string" where
  "iso_string t =
     iso_date (civil_from_days (t div 86400000)) @ ''T'' @
     iso_time (nat (t mod 86400000)) @ ''Z''"

text \<open>\<open>toISOString\<close> throws a RangeError on an invalid date.\<close>

definition toISOString :: "int option \<Rightarrow> error + string" where
  "toISOString tv = (case tv of None \<Rightarrow> Inl RangeError | Some t \<Rightarrow> Inr (iso_string t))"

subsection \<open>\<open>JSON.stringify\<close>\<close>

definition hex_char :: "nat \<Rightarrow> char" where
  "hex_char d = ''0123456789abcdef'' ! (d mod 16)"

definition quote_char :: "char \<Rightarrow> string" where
  "quote_char c =
     (if c = DQ then [BSL, DQ]
      else if c = BSL then [BSL, BSL]
      else if c = CHR 0x08 then [BSL, CHR ''b'']
      else if c = CHR 0x09 then [BSL, CHR ''t'']
      else if c = CHR 0x0A then [BSL, CHR ''n'']
      else if c = CHR 0x0C then [BSL, CHR ''f'']
      else if c = CHR 0x0D then [BSL, CHR ''r'']
      else if (of_char c :: nat) < 32
        then [BSL, CHR ''u'', CHR ''0'', CHR ''0'',
              hex_char (of_char c div 16), hex_char (of_char c)]
      else [c])"

definition quote_json :: "string \<Rightarrow> string" where
  "quote_json s = DQ # concat (map quote_char s) @ [DQ]"

text \<open>
  Serialisation of a property value: \<open>Inr None\<close> is JavaScript's \<open>undefined\<close> (the
  property is left out of an object and written \<open>null\<close> in an array), \<open>Inl\<close> is the
  TypeError thrown on a circular structure.  A non-finite number and an invalid date are
  written \<open>null\<close>; a valid date is written as its quoted ISO string.
\<close>

fun serialize_property :: "jsval \<Rightarrow> error + string option"
  and serialize_elements :: "jsval list \<Rightarrow> error + string list"
  and serialize_members :: "(string \<times> jsval) list \<Rightarrow> error + string list"
where
  "serialize_property JUndefined = Inr None"
| "serialize_property JNull = Inr (Some ''null'')"
| "serialize_property (JBool b) = Inr (Some (if b then ''true'' else ''false''))"
| "serialize_property (JNum n) =
     Inr (Some (case n of Finite neg s e \<Rightarrow> number_to_string n | _ \<Rightarrow> ''null''))"
| "serialize_property (JStr s) = Inr (Some (quote_json s))"
| "serialize_property (JDate tv) =
     Inr (Some (case tv of None \<Rightarrow> ''null'' | Some t \<Rightarrow> quote_json (iso_string t)))"
| "serialize_property (JArray xs) =
     (case serialize_elements xs of
        Inl e \<Rightarrow> Inl e
      | Inr ss \<Rightarrow> Inr (Some (''['' @ join_str '','' ss @ '']'')))"
| "serialize_property (JObject kvs) =
     (case serialize_members kvs of
        Inl e \<Rightarrow> Inl e
      | Inr ms \<Rightarrow> Inr (Some (''{'' @ join_str '','' ms @ ''}'')))"
| "serialize_property JCycle = Inl TypeError"
| "serialize_elements [] = Inr []"
| "serialize_elements (x # xs) =
     (case serialize_property x of
        Inl e \<Rightarrow> Inl e
      | Inr r \<Rightarrow>
          (case serialize_elements xs of
             Inl e \<Rightarrow> Inl e
           | Inr ss \<Rightarrow> Inr ((case r of None \<Rightarrow> ''null'' | Some s \<Rightarrow> s) # ss)))"
| "serialize_members [] = Inr []"
| "serialize_members ((k, v) # kvs) =
     (case serialize_property v of
        Inl e \<Rightarrow> Inl e
      | Inr r \<Rightarrow>
          (case serialize_members kvs of
             Inl e \<Rightarrow> Inl e
           | Inr ms \<Rightarrow>
               Inr ((case r of None \<Rightarrow> [] | Some s \<Rightarrow> [quote_json k @ '':'' @ s]) @ ms)))"

definition JSON_stringify :: "jsval \<Rightarrow> error + string option" where
  "JSON_stringify v = serialize_property v"

section \<open>The value normalizer\<close>

text \<open>
  \<open>prepareValue\<close>, one equation per kind of value, in the order of its tests: null or
  undefined; \<open>instanceof Date\<close>; \<open>typeof val === 'object'\<close>, which is what remains
  of arrays, objects and references back into an object; and \<open>String(val)\<close> for the
  strings, booleans, numbers and functions that are left.  \<open>String\<close> of a built-in
  function is its source text, which the runtime (V8) writes as
  \<open>function name() { [native code] }\<close>.

  For a value of type object \<open>JSON.stringify\<close> either throws or returns a string: it
  returns \<open>undefined\<close> for no such value (lemma \<open>serialize_undefined\<close>), so the
  \<open>None\<close> branch of \<open>stringify_object\<close> is never taken.
\<close>

definition stringify_object :: "jsval \<Rightarrow> error + string" where
  "stringify_object val =
     (case JSON_stringify val of
        Inl e \<Rightarrow> Inl e
      | Inr None \<Rightarrow> Inl TypeError
      | Inr (Some s) \<Rightarrow> Inr s)"

definition function_text :: "string \<Rightarrow> string" where
  "function_text name = ''function '' @ name @ ''() { [native code] }''"

fun prepareValue :: "field \<Rightarrow> error + string" where
  "prepareValue (Data JNull) = Inr []"
| "prepareValue (Data JUndefined) = Inr []"
| "prepareValue (Data (JDate tv)) = toISOString tv"
| "prepareValue (Data (JArray xs)) = stringify_object (JArray xs)"
| "prepareValue (Data (JObject kvs)) = stringify_object (JObject kvs)"
| "prepareValue (Data JCycle) = stringify_object JCycle"
| "prepareValue (Data (JStr s)) = Inr s"
| "prepareValue (Data (JBool b)) = Inr (if b then ''true'' else ''false'')"
| "prepareValue (Data (JNum n)) = Inr (number_to_string n)"
| "prepareValue (Builtin name) = Inr (function_text name)"

section \<open>Objects built by the formatters\<close>

text \<open>
  An object that a formatter creates as \<open>{}\<close> and fills by assignment: its own
  properties in creation order, and the value that an assignment to \<open>__proto__\<close> has
  installed as its prototype (\<open>None\<close> while the prototype is \<open>Object.prototype\<close>).
\<close>

record object =
  own :: "(string \<times> field) list"
  prototype :: "field option"

definition empty_object :: object where
  "empty_object = \<lparr>own = [], prototype = None\<rparr>"

text \<open>
  \<open>obj[k] = v\<close>.  An existing own property keeps its place and takes the new value, a
  new one goes last.  The name \<open>__proto__\<close> is the exception: as long as the object
  has no own property of that name and inherits the accessor of \<open>Object.prototype\<close>,
  the assignment goes to the setter, which installs \<open>v\<close> as the prototype when it is an
  object or null and does nothing otherwise; no own property is created.  The accessor is
  inherited unless the installed prototype is null, or an object with a property
  \<open>__proto__\<close> of its own.

  Of what an installed prototype changes later, this and the inherited \<open>toJSON\<close> of
  \<open>JSON_stringify_output\<close> are followed.  Not followed: the assignment to a name that
  an installed function makes read-only (\<open>name\<close>, \<open>length\<close>), which throws.
\<close>

fun object_or_null :: "field \<Rightarrow> bool" where
  "object_or_null (Data JNull) = True"
| "object_or_null (Data (JDate tv)) = True"
| "object_or_null (Data (JArray xs)) = True"
| "object_or_null (Data (JObject kvs)) = True"
| "object_or_null (Data JCycle) = True"
| "object_or_null (Data JUndefined) = False"
| "object_or_null (Data (JBool b)) = False"
| "object_or_null (Data (JNum n)) = False"
| "object_or_null (Data (JStr s)) = False"
| "object_or_null (Builtin name) = True"

fun has_proto_accessor :: "field option \<Rightarrow> bool" where
  "has_proto_accessor None = True"
| "has_proto_accessor (Some (Data JNull)) = False"
| "has_proto_accessor (Some (Data (JObject kvs))) = (map_of kvs ''__proto__'' = None)"
| "has_proto_accessor (Some f) = True"

definition js_set :: "object \<Rightarrow> string \<Rightarrow> field \<Rightarrow> object" where
  "js_set obj k v =
     (if k = ''__proto__'' \<and> map_of (own obj) k = None \<and> has_proto_accessor (prototype obj)
      then (if object_or_null v then obj\<lparr>prototype := Some v\<rparr> else obj)
      else obj\<lparr>own := AList.update k v (own obj)\<rparr>)"

text \<open>
  The order in which the properties of an object are enumerated: array-index keys
  (canonical decimal strings below \<open>2^32 - 1\<close>) first, ascending, then the other keys in
  creation order.
\<close>

definition is_digit :: "char \<Rightarrow> bool" where
  "is_digit c = (c \<in> set ''0123456789'')"

definition dec_value :: "string \<Rightarrow> int" where
  "dec_value s = foldl (\<lambda>n c. 10 * n + (of_char c - 48)) 0 s"

definition is_array_index :: "string \<Rightarrow> bool" where
  "is_array_index s =
     (s \<noteq> [] \<and> list_all is_digit s \<and> (s = ''0'' \<or> hd s \<noteq> CHR ''0'') \<and>
      dec_value s < 4294967295)"

definition own_entries :: "(string \<times> 'a) list \<Rightarrow> (string \<times> 'a) list" where
  "own_entries obj =
     sort_key (\<lambda>kv. dec_value (fst kv)) (filter (\<lambda>kv. is_array_index (fst kv)) obj) @
     filter (\<lambda>kv. \<not> is_array_index (fst kv)) obj"

text \<open>
  \<open>xs.map(f)\<close> and \<open>xs.forEach(f)\<close> with a callback that may throw: elements are
  visited left to right and the first exception ends the loop.
\<close>

fun map_result :: "('a \<Rightarrow> error + 'b) \<Rightarrow> 'a list \<Rightarrow> error + 'b list" where
  "map_result f [] = Inr []"
| "map_result f (x # xs) =
     (case f x of
        Inl e \<Rightarrow> Inl e
      | Inr y \<Rightarrow> (case map_result f xs of Inl e \<Rightarrow> Inl e | Inr ys \<Rightarrow> Inr (y # ys)))"

fun forEach_result :: "('a \<Rightarrow> 's \<Rightarrow> error + 's) \<Rightarrow> 'a list \<Rightarrow> 's \<Rightarrow> error + 's" where
  "forEach_result f [] s = Inr s"
| "forEach_result f (x # xs) s =
     (case f x s of Inl e \<Rightarrow> Inl e | Inr s' \<Rightarrow> forEach_result f xs s')"

section \<open>The formatters\<close>

text \<open>
  Each formatter is a \<open>Transform\<close> stream: its constructor returns the object together
  with the chunks it pushes at once; \<open>_transform\<close> takes the object and a row and
  returns either the error it raises or the updated object with the chunks pushed for
  that row; \<open>_flush\<close> returns the chunks pushed at the end of the input.  The
  structured-document formatter catches an exception and hands it to the callback; the
  delimited-text and markup formatters have no handler, and an exception of the
  normalizer leaves \<open>_transform\<close>.  Both are the \<open>Inl\<close> result; what becomes of
  the export in each case is told by \<open>pipeline\<close> below.
\<close>

record formatter =
  columns :: "column list"

record JSONStreamFormatter = formatter +
  isFirst :: bool

subsection \<open>JSONStreamFormatter\<close>

definition JSON_new :: "column list \<Rightarrow> JSONStreamFormatter \<times> string list" where
  "JSON_new cols = (\<lparr>columns = cols, isFirst = True\<rparr>, [''[''])"

text \<open>The object \<open>output\<close> of \<open>_transform\<close>: native values under the target names.\<close>

definition JSON_output :: "column list \<Rightarrow> row \<Rightarrow> object" where
  "JSON_output cols chunk =
     fold (\<lambda>col output. js_set output (target col) (row_get chunk (source col))) cols empty_object"

text \<open>
  \<open>JSON.stringify(output)\<close>.  It first looks up \<open>toJSON\<close> on the object.  When
  \<open>output\<close> has no such property of its own and a timestamp was installed as its
  prototype, the method found is that of \<open>Date.prototype\<close>, which throws a TypeError
  on an object that is no \<open>Date\<close>.  Otherwise the own properties are written in
  enumeration order, a property whose value is a function or \<open>undefined\<close> being left
  out.  (An own property \<open>toJSON\<close> holding a function would be called instead; the
  model does not follow that call.)  An exception of \<open>JSON.stringify\<close> is caught and
  handed to the callback.
\<close>

definition inherits_toJSON :: "object \<Rightarrow> bool" where
  "inherits_toJSON output =
     (map_of (own output) ''toJSON'' = None \<and>
      (case prototype output of Some (Data (JDate tv)) \<Rightarrow> True | _ \<Rightarrow> False))"

fun serialize_output :: "(string \<times> field) list \<Rightarrow> error + string list" where
  "serialize_output [] = Inr []"
| "serialize_output ((k, Builtin name) # kvs) = serialize_output kvs"
| "serialize_output ((k, Data v) # kvs) =
     (case serialize_property v of
        Inl e \<Rightarrow> Inl e
      | Inr r \<Rightarrow>
          (case serialize_output kvs of
             Inl e \<Rightarrow> Inl e
           | Inr ms \<Rightarrow>
               Inr ((case r of None \<Rightarrow> [] | Some s \<Rightarrow> [quote_json k @ '':'' @ s]) @ ms)))"

definition JSON_stringify_output :: "object \<Rightarrow> error + string" where
  "JSON_stringify_output output =
     (if inherits_toJSON output then Inl TypeError
      else case serialize_output (own_entries (own output)) of
             Inl e \<Rightarrow> Inl e
           | Inr ms \<Rightarrow> Inr (''{'' @ join_str '','' ms @ ''}''))"

definition JSON_transform ::
  "JSONStreamFormatter \<Rightarrow> row \<Rightarrow> error + JSONStreamFormatter \<times> string list" where
  "JSON_transform this chunk =
     (let output = JSON_output (columns this) chunk;
          prefix = (if isFirst this then [] else '','')
      in case JSON_stringify_output output of
           Inl err \<Rightarrow> Inl err
         | Inr s \<Rightarrow> Inr (this\<lparr>isFirst := False\<rparr>, [prefix @ s]))"

definition JSON_flush :: "JSONStreamFormatter \<Rightarrow> string list" where
  "JSON_flush this = ['']'']"

subsection \<open>CSVStreamFormatter\<close>

definition CSV_new :: "column list \<Rightarrow> formatter \<times> string list" where
  "CSV_new cols = (\<lparr>columns = cols\<rparr>, [join_str '','' (map target cols) @ [NL]])"

definition CSV_field :: "string \<Rightarrow> string" where
  "CSV_field val =
     (let val' = (if str_includes val DQ then replace_all DQ [DQ, DQ] val else val)
      in [DQ] @ val' @ [DQ])"

definition CSV_transform :: "formatter \<Rightarrow> row \<Rightarrow> error + formatter \<times> string list" where
  "CSV_transform this chunk =
     (case map_result
             (\<lambda>col. case prepareValue (row_get chunk (source col)) of
                       Inl e \<Rightarrow> Inl e
                     | Inr val \<Rightarrow> Inr (CSV_field val))
             (columns this) of
        Inl e \<Rightarrow> Inl e
      | Inr row \<Rightarrow> Inr (this, [join_str '','' row @ [NL]]))"

text \<open>The class defines no \<open>_flush\<close>: nothing is pushed at the end of the input.\<close>

definition CSV_flush :: "formatter \<Rightarrow> string list" where
  "CSV_flush this = []"

subsection \<open>XMLStreamFormatter\<close>

definition XML_open :: string where
  \<open>XML_open = ''<?xml version="1.0" encoding="UTF-8"?>'' @ [NL] @ ''<records>'' @ [NL]\<close>

definition XML_new :: "column list \<Rightarrow> formatter \<times> string list" where
  "XML_new cols = (\<lparr>columns = cols\<rparr>, [XML_open])"

definition XML_escape :: "string \<Rightarrow> string" where
  "XML_escape val =
     replace_all (CHR 0x27) ''&apos;''
       (replace_all DQ ''&quot;''
         (replace_all (CHR ''>'') ''&gt;''
           (replace_all (CHR ''<'') ''&lt;''
             (replace_all (CHR ''&'') ''&amp;'' val))))"

definition XML_transform :: "formatter \<Rightarrow> row \<Rightarrow> error + formatter \<times> string list" where
  "XML_transform this chunk =
     (case forEach_result
             (\<lambda>col rowXml. case prepareValue (row_get chunk (source col)) of
                       Inl e \<Rightarrow> Inl e
                     | Inr val \<Rightarrow>
                         Inr (rowXml @ ''    <'' @ target col @ ''>'' @ XML_escape val @
                              ''</'' @ target col @ ''>'' @ [NL]))
             (columns this) (''  <record>'' @ [NL]) of
        Inl e \<Rightarrow> Inl e
      | Inr rowXml \<Rightarrow> Inr (this, [rowXml @ ''  </record>'' @ [NL]]))"

definition XML_flush :: "formatter \<Rightarrow> string list" where
  "XML_flush this = [''</records>'']"

subsection \<open>ParquetStreamFormatter\<close>

text \<open>
  The methods of this formatter are asynchronous: each awaits a promise of the columnar
  writer and calls back when it settles.  A promise resolves, rejects, or stays pending
  for ever; \<open>Uncaught\<close> is an exception that leaves a stream callback instead of being
  handed over, after which nothing that waits for the stream is resumed.
\<close>

datatype 'a outcome = Resolved 'a | Rejected error | Pending | Uncaught error

text \<open>
  The columnar writer belongs to an external library (\<open>parquetjs\<close>).  It enters as
  four operations: the schema constructor on the schema definitions, which may throw;
  \<open>openStream\<close> on the schema; \<open>appendRow\<close> on a writer and a row object;
  \<open>close\<close>.  Each of the last three gives the buffers that the writer passes to the
  \<open>write\<close> function of the adapter handed to \<open>openStream\<close>, which pushes every one
  of them, and the outcome of the promise that the formatter awaits.  (The adapter's
  \<open>write\<close> takes the buffer alone and returns a resolved promise; it calls no
  completion callback.)  The boolean in the result of \<open>_transform\<close> tells whether the
  callback was deferred to the next turn of the event loop (every 1000th row).
\<close>

record ('s, 'w) parquet =
  ParquetSchema :: "object \<Rightarrow> error + 's"
  openStream :: "'s \<Rightarrow> string list \<times> 'w outcome"
  appendRow :: "'w \<Rightarrow> object \<Rightarrow> string list \<times> 'w outcome"
  close :: "'w \<Rightarrow> string list \<times> unit outcome"

record ('s, 'w) ParquetStreamFormatter = formatter +
  schema :: 's
  rowCount :: nat
  writer :: "'w option"

text \<open>The object \<open>schemaDefs\<close> of the constructor, one definition per target name.\<close>

definition schemaDefs :: "column list \<Rightarrow> object" where
  "schemaDefs cols =
     fold (\<lambda>col defs. js_set defs (target col)
                         (Data (JObject [(''type'', JStr ''UTF8''), (''optional'', JBool True)])))
          cols empty_object"

definition Parquet_new ::
  "('s, 'w) parquet \<Rightarrow> column list \<Rightarrow> error + ('s, 'w) ParquetStreamFormatter \<times> string list" where
  "Parquet_new lib cols =
     (case ParquetSchema lib (schemaDefs cols) of
        Inl err \<Rightarrow> Inl err
      | Inr sch \<Rightarrow> Inr (\<lparr>columns = cols, schema = sch, rowCount = 0, writer = None\<rparr>, []))"

definition Parquet_construct ::
  "('s, 'w) parquet \<Rightarrow> ('s, 'w) ParquetStreamFormatter \<Rightarrow>
     string list \<times> ('s, 'w) ParquetStreamFormatter outcome" where
  "Parquet_construct lib this =
     (case openStream lib (schema this) of
        (out, Resolved w) \<Rightarrow> (out, Resolved (this\<lparr>writer := Some w\<rparr>))
      | (out, Rejected err) \<Rightarrow> (out, Rejected err)
      | (out, Pending) \<Rightarrow> (out, Pending)
      | (out, Uncaught err) \<Rightarrow> (out, Uncaught err))"

text \<open>The object \<open>row\<close> of \<open>_transform\<close>: normalized values under the target names.\<close>

definition Parquet_row :: "column list \<Rightarrow> row \<Rightarrow> error + object" where
  "Parquet_row cols chunk =
     forEach_result
       (\<lambda>col row. case prepareValue (row_get chunk (source col)) of
                    Inl e \<Rightarrow> Inl e
                  | Inr val \<Rightarrow> Inr (js_set row (target col) (Data (JStr val))))
       cols empty_object"

definition Parquet_transform ::
  "('s, 'w) parquet \<Rightarrow> ('s, 'w) ParquetStreamFormatter \<Rightarrow> row \<Rightarrow>
     string list \<times> (('s, 'w) ParquetStreamFormatter \<times> bool) outcome" where
  "Parquet_transform lib this chunk =
     (case Parquet_row (columns this) chunk of
        Inl err \<Rightarrow> ([], Rejected err)
      | Inr row \<Rightarrow>
          (case writer this of
             None \<Rightarrow> ([], Rejected TypeError)
           | Some w \<Rightarrow>
               (case appendRow lib w row of
                  (out, Resolved w') \<Rightarrow>
                    (out, Resolved (this\<lparr>rowCount := rowCount this + 1, writer := Some w'\<rparr>,
                                    (rowCount this + 1) mod 1000 = 0))
                | (out, Rejected err) \<Rightarrow> (out, Rejected err)
                | (out, Pending) \<Rightarrow> (out, Pending)
                | (out, Uncaught err) \<Rightarrow> (out, Uncaught err))))"

definition Parquet_flush ::
  "('s, 'w) parquet \<Rightarrow> ('s, 'w) ParquetStreamFormatter \<Rightarrow> string list \<times> unit outcome" where
  "Parquet_flush lib this =
     (case writer this of None \<Rightarrow> ([], Resolved ()) | Some w \<Rightarrow> close lib w)"

section \<open>Driving a formatter over the rows of a source\<close>

text \<open>
  The life of a \<open>Transform\<close>: the constructor, then \<open>_transform\<close> on each row in
  order, then \<open>_flush\<close> once at the end of the input.  A row that fails ends the stream:
  no later row is transformed and \<open>_flush\<close> does not run.  The result is the chunks
  pushed, in order, and the error if there was one.
\<close>

fun feed ::
  "('s \<Rightarrow> row \<Rightarrow> error + 's \<times> string list) \<Rightarrow> 's \<Rightarrow> row list \<Rightarrow>
     string list \<times> (error + 's)" where
  "feed tr s [] = ([], Inr s)"
| "feed tr s (r # rs) =
     (case tr s r of
        Inl e \<Rightarrow> ([], Inl e)
      | Inr (s', out) \<Rightarrow> (case feed tr s' rs of (outs, res) \<Rightarrow> (out @ outs, res)))"

definition run_formatter ::
  "'s \<times> string list \<Rightarrow> ('s \<Rightarrow> row \<Rightarrow> error + 's \<times> string list) \<Rightarrow>
     ('s \<Rightarrow> string list) \<Rightarrow> row list \<Rightarrow> string list \<times> error option" where
  "run_formatter new tr fl rows =
     (case feed tr (fst new) rows of
        (outs, Inl e) \<Rightarrow> (snd new @ outs, Some e)
      | (outs, Inr s) \<Rightarrow> (snd new @ outs @ fl s, None))"

definition JSON_export :: "column list \<Rightarrow> row list \<Rightarrow> string list \<times> error option" where
  "JSON_export cols rows = run_formatter (JSON_new cols) JSON_transform JSON_flush rows"

definition CSV_export :: "column list \<Rightarrow> row list \<Rightarrow> string list \<times> error option" where
  "CSV_export cols rows = run_formatter (CSV_new cols) CSV_transform CSV_flush rows"

definition XML_export :: "column list \<Rightarrow> row list \<Rightarrow> string list \<times> error option" where
  "XML_export cols rows = run_formatter (XML_new cols) XML_transform XML_flush rows"

subsection \<open>The columnar formatter over the rows of a source\<close>

text \<open>
  The same life for the asynchronous formatter, with \<open>_construct\<close> before the first
  row.  A step that does not resolve ends the run with its outcome; what the writer
  pushed before is kept.  \<open>source_error\<close> is the error with which the source fails
  after its rows, if it does: the stream is then destroyed and \<open>_flush\<close> does not run.
\<close>

fun Parquet_feed ::
  "('s, 'w) parquet \<Rightarrow> ('s, 'w) ParquetStreamFormatter \<Rightarrow> row list \<Rightarrow>
     string list \<times> ('s, 'w) ParquetStreamFormatter outcome" where
  "Parquet_feed lib this [] = ([], Resolved this)"
| "Parquet_feed lib this (r # rs) =
     (case Parquet_transform lib this r of
        (out, Resolved (this', deferred)) \<Rightarrow>
          (case Parquet_feed lib this' rs of (outs, res) \<Rightarrow> (out @ outs, res))
      | (out, Rejected err) \<Rightarrow> (out, Rejected err)
      | (out, Pending) \<Rightarrow> (out, Pending)
      | (out, Uncaught err) \<Rightarrow> (out, Uncaught err))"

definition Parquet_stream ::
  "('s, 'w) parquet \<Rightarrow> ('s, 'w) ParquetStreamFormatter \<times> string list \<Rightarrow> row list \<Rightarrow>
     error option \<Rightarrow> string list \<times> unit outcome" where
  "Parquet_stream lib new rows source_error =
     (case Parquet_construct lib (fst new) of
        (out1, Resolved this1) \<Rightarrow>
          (case Parquet_feed lib this1 rows of
             (out2, Resolved this2) \<Rightarrow>
               (case source_error of
                  Some err \<Rightarrow> (snd new @ out1 @ out2, Rejected err)
                | None \<Rightarrow>
                    (case Parquet_flush lib this2 of
                       (out3, res) \<Rightarrow> (snd new @ out1 @ out2 @ out3, res)))
           | (out2, Rejected err) \<Rightarrow> (snd new @ out1 @ out2, Rejected err)
           | (out2, Pending) \<Rightarrow> (snd new @ out1 @ out2, Pending)
           | (out2, Uncaught err) \<Rightarrow> (snd new @ out1 @ out2, Uncaught err))
      | (out1, Rejected err) \<Rightarrow> (snd new @ out1, Rejected err)
      | (out1, Pending) \<Rightarrow> (snd new @ out1, Pending)
      | (out1, Uncaught err) \<Rightarrow> (snd new @ out1, Uncaught err))"

definition Parquet_export ::
  "('s, 'w) parquet \<Rightarrow> column list \<Rightarrow> row list \<Rightarrow> error + string list \<times> unit outcome" where
  "Parquet_export lib cols rows =
     (case Parquet_new lib cols of
        Inl err \<Rightarrow> Inl err
      | Inr new \<Rightarrow> Inr (Parquet_stream lib new rows None))"

section \<open>Measuring one export\<close>

text \<open>
  The awaited \<open>pipeline(dbStream, formatter, nullStream)\<close>, one row in flight at a
  time: the chunks that reach the sink, in order, and the outcome of its promise.  The
  source delivers its rows and then ends, or fails with \<open>source_error\<close>.  An error
  handed to a callback, or an error of the source, destroys the streams and rejects the
  promise.  The structured-document and columnar formatters hand their errors to the
  callback.  The delimited-text and markup formatters have no handler: an exception of
  the normalizer leaves \<open>_transform\<close> and the stream machinery that called it, and the
  promise is never settled.  The sink only counts and never fails.
\<close>

datatype ('s, 'w) formatter_object =
    JSON_formatter "JSONStreamFormatter \<times> string list"
  | CSV_formatter "formatter \<times> string list"
  | XML_formatter "formatter \<times> string list"
  | Parquet_formatter "('s, 'w) ParquetStreamFormatter \<times> string list"

definition text_stream ::
  "bool \<Rightarrow> 'f \<times> string list \<Rightarrow> ('f \<Rightarrow> row \<Rightarrow> error + 'f \<times> string list) \<Rightarrow>
     ('f \<Rightarrow> string list) \<Rightarrow> row list \<Rightarrow> error option \<Rightarrow> string list \<times> unit outcome" where
  "text_stream catches new tr fl rows source_error =
     (case feed tr (fst new) rows of
        (outs, Inl err) \<Rightarrow> (snd new @ outs, if catches then Rejected err else Uncaught err)
      | (outs, Inr this) \<Rightarrow>
          (case source_error of
             Some err \<Rightarrow> (snd new @ outs, Rejected err)
           | None \<Rightarrow> (snd new @ outs @ fl this, Resolved ())))"

fun pipeline ::
  "('s, 'w) parquet \<Rightarrow> row list \<Rightarrow> error option \<Rightarrow> ('s, 'w) formatter_object \<Rightarrow>
     string list \<times> unit outcome" where
  "pipeline lib rows source_error (JSON_formatter new) =
     text_stream True new JSON_transform JSON_flush rows source_error"
| "pipeline lib rows source_error (CSV_formatter new) =
     text_stream False new CSV_transform CSV_flush rows source_error"
| "pipeline lib rows source_error (XML_formatter new) =
     text_stream False new XML_transform XML_flush rows source_error"
| "pipeline lib rows source_error (Parquet_formatter new) =
     Parquet_stream lib new rows source_error"

text \<open>
  \<open>measureExport\<close> of the benchmark module: it takes a client from the pool, builds
  the formatter, and only then enters the \<open>try\<close> block that awaits the pipeline, logs
  and rethrows an error, and releases the client in its \<open>finally\<close> clause.  The rows
  and the possible failure of the source stand for what the query yields.  The result is
  the trace of what happened to the client and the sink, with the outcome of the promise
  that \<open>measureExport\<close> returns: when the pipeline is never settled the function is
  never resumed, and neither \<open>catch\<close> nor \<open>finally\<close> runs.  Of the result object
  the format is kept; the timing, size and memory figures are left out.
\<close>

datatype event = Connect | SinkWrite string | LogError error | Release

definition getFormatter ::
  "('s, 'w) parquet \<Rightarrow> column list \<Rightarrow> string \<Rightarrow> error + ('s, 'w) formatter_object" where
  "getFormatter lib cols fmt =
     (if fmt = ''json'' then Inr (JSON_formatter (JSON_new cols))
      else if fmt = ''csv'' then Inr (CSV_formatter (CSV_new cols))
      else if fmt = ''xml'' then Inr (XML_formatter (XML_new cols))
      else if fmt = ''parquet'' then
        (case Parquet_new lib cols of
           Inl err \<Rightarrow> Inl err
         | Inr new \<Rightarrow> Inr (Parquet_formatter new))
      else Inl (Error (''Unknown format: '' @ fmt)))"

definition measureExport ::
  "('s, 'w) parquet \<Rightarrow> row list \<Rightarrow> error option \<Rightarrow> string \<Rightarrow> column list \<Rightarrow>
     event list \<times> string outcome" where
  "measureExport lib rows source_error fmt cols =
     (case getFormatter lib cols fmt of
        Inl err \<Rightarrow> ([Connect], Rejected err)
      | Inr formatter \<Rightarrow>
          (case pipeline lib rows source_error formatter of
             (chunks, Resolved u) \<Rightarrow> (Connect # map SinkWrite chunks @ [Release], Resolved fmt)
           | (chunks, Rejected err) \<Rightarrow>
               (Connect # map SinkWrite chunks @ [LogError err, Release], Rejected err)
           | (chunks, Pending) \<Rightarrow> (Connect # map SinkWrite chunks, Pending)
           | (chunks, Uncaught err) \<Rightarrow> (Connect # map SinkWrite chunks, Uncaught err)))"

text \<open>
  \<open>runBenchmark\<close>, the function the module exports: the fixed projection and the four
  formats in their order, one \<open>measureExport\<close> after the other on the same query; it
  goes on to the next format only when the promise of the last one resolved.
\<close>

definition benchmark_columns :: "column list" where
  "benchmark_columns =
     [\<lparr>source = ''id'', target = ''id''\<rparr>, \<lparr>source = ''name'', target = ''name''\<rparr>,
      \<lparr>source = ''value'', target = ''val''\<rparr>, \<lparr>source = ''metadata'', target = ''meta''\<rparr>]"

fun benchmark_formats ::
  "('s, 'w) parquet \<Rightarrow> row list \<Rightarrow> error option \<Rightarrow> string list \<Rightarrow>
     event list \<times> string list outcome" where
  "benchmark_formats lib rows source_error [] = ([], Resolved [])"
| "benchmark_formats lib rows source_error (fmt # fmts) =
     (case measureExport lib rows source_error fmt benchmark_columns of
        (trace, Resolved result) \<Rightarrow>
          (case benchmark_formats lib rows source_error fmts of
             (trace', Resolved results) \<Rightarrow> (trace @ trace', Resolved (result # results))
           | (trace', Rejected err) \<Rightarrow> (trace @ trace', Rejected err)
           | (trace', Pending) \<Rightarrow> (trace @ trace', Pending)
           | (trace', Uncaught err) \<Rightarrow> (trace @ trace', Uncaught err))
      | (trace, Rejected err) \<Rightarrow> (trace, Rejected err)
      | (trace, Pending) \<Rightarrow> (trace, Pending)
      | (trace, Uncaught err) \<Rightarrow> (trace, Uncaught err))"

definition runBenchmark ::
  "('s, 'w) parquet \<Rightarrow> row list \<Rightarrow> error option \<Rightarrow> event list \<times> string list outcome" where
  "runBenchmark lib rows source_error =
     benchmark_formats lib rows source_error [''csv'', ''json'', ''xml'', ''parquet'']"

section \<open>Reading a structured document back\<close>

text \<open>
  \<open>JSON.parse\<close> on texts without insignificant white space, which is what the
  encoder writes: the JSON grammar of values, arrays, objects, strings with their escapes
  and numbers, returning the value read, or \<open>None\<close> on any other text.  A number is
  returned as its lexeme (optional sign, integer part without a leading zero, optional
  fraction, optional exponent); the double it denotes is not computed.  Strings being
  8-bit here, a \<open>\u\<close> escape is accepted for code units below 256.  An object is
  returned as its members in the order of the text.  The value and list
  parsers take a bound on the nesting and length still to be read; \<open>JSON_parse\<close>
  starts them with the length of the text, which suffices for every text the serializer
  writes (lemma \<open>JSON_parse_serialized\<close>).
\<close>

datatype json =
    JsNull
  | JsBool bool
  | JsNumber string
  | JsString string
  | JsArray "json list"
  | JsObject "(string \<times> json) list"

definition hex_value :: "char \<Rightarrow> nat option" where
  "hex_value c =
     (let n = (of_char c :: nat) in
      if 48 \<le> n \<and> n \<le> 57 then Some (n - 48)
      else if 97 \<le> n \<and> n \<le> 102 then Some (n - 87)
      else if 65 \<le> n \<and> n \<le> 70 then Some (n - 55)
      else None)"

definition unescape :: "char \<Rightarrow> char option" where
  "unescape e =
     (if e = DQ then Some DQ
      else if e = BSL then Some BSL
      else if e = CHR ''/'' then Some (CHR ''/'')
      else if e = CHR ''b'' then Some (CHR 0x08)
      else if e = CHR ''t'' then Some (CHR 0x09)
      else if e = CHR ''n'' then Some (CHR 0x0A)
      else if e = CHR ''f'' then Some (CHR 0x0C)
      else if e = CHR ''r'' then Some (CHR 0x0D)
      else None)"

definition unicode_escape :: "char \<Rightarrow> char \<Rightarrow> char \<Rightarrow> char \<Rightarrow> char option" where
  "unicode_escape h1 h2 h3 h4 =
     (case (hex_value h1, hex_value h2, hex_value h3, hex_value h4) of
        (Some a, Some b, Some c, Some d) \<Rightarrow>
          if a = 0 \<and> b = 0 then Some (char_of (16 * c + d)) else None
      | _ \<Rightarrow> None)"

fun parse_string :: "string \<Rightarrow> (string \<times> string) option" where
  "parse_string [] = None"
| "parse_string (c # cs) =
     (if c = DQ then Some ([], cs)
      else if c = BSL then
        (case cs of
           [] \<Rightarrow> None
         | e # r \<Rightarrow>
             if e = CHR ''u'' then
               (case r of
                  h1 # h2 # h3 # h4 # r' \<Rightarrow>
                    (case unicode_escape h1 h2 h3 h4 of
                       None \<Rightarrow> None
                     | Some x \<Rightarrow> map_option (apfst ((#) x)) (parse_string r'))
                | _ \<Rightarrow> None)
             else
               (case unescape e of
                  None \<Rightarrow> None
                | Some x \<Rightarrow> map_option (apfst ((#) x)) (parse_string r)))
      else if (of_char c :: nat) < 32 then None
      else map_option (apfst ((#) c)) (parse_string cs))"

definition parse_digits :: "string \<Rightarrow> (string \<times> string) option" where
  "parse_digits s =
     (if takeWhile is_digit s = [] then None
      else Some (takeWhile is_digit s, dropWhile is_digit s))"

definition parse_int :: "string \<Rightarrow> (string \<times> string) option" where
  "parse_int s =
     (case parse_digits s of
        None \<Rightarrow> None
      | Some (ds, r) \<Rightarrow> if ds \<noteq> ''0'' \<and> hd ds = CHR ''0'' then None else Some (ds, r))"

definition parse_fraction :: "string \<Rightarrow> (string \<times> string) option" where
  "parse_fraction s =
     (case s of
        [] \<Rightarrow> Some ([], s)
      | c # cs \<Rightarrow>
          if c = CHR ''.'' then map_option (apfst ((#) c)) (parse_digits cs)
          else Some ([], s))"

definition parse_exponent :: "string \<Rightarrow> (string \<times> string) option" where
  "parse_exponent s =
     (case s of
        [] \<Rightarrow> Some ([], s)
      | c # cs \<Rightarrow>
          if c = CHR ''e'' \<or> c = CHR ''E'' then
            (case cs of
               [] \<Rightarrow> None
             | d # ds \<Rightarrow>
                 if d = CHR ''+'' \<or> d = CHR ''-''
                 then map_option (apfst (\<lambda>x. c # d # x)) (parse_digits ds)
                 else map_option (apfst ((#) c)) (parse_digits cs))
          else Some ([], s))"

definition parse_number :: "string \<Rightarrow> (string \<times> string) option" where
  "parse_number s =
     (case s of
        [] \<Rightarrow> None
      | c # cs \<Rightarrow>
          (case parse_int (if c = CHR ''-'' then cs else s) of
             None \<Rightarrow> None
           | Some (ip, r1) \<Rightarrow>
               (case parse_fraction r1 of
                  None \<Rightarrow> None
                | Some (fp, r2) \<Rightarrow>
                    (case parse_exponent r2 of
                       None \<Rightarrow> None
                     | Some (ep, r3) \<Rightarrow>
                         Some ((if c = CHR ''-'' then ''-'' else []) @ ip @ fp @ ep, r3)))))"

fun parse_value :: "nat \<Rightarrow> string \<Rightarrow> (json \<times> string) option"
  and parse_elements :: "nat \<Rightarrow> string \<Rightarrow> (json list \<times> string) option"
  and parse_members :: "nat \<Rightarrow> string \<Rightarrow> ((string \<times> json) list \<times> string) option"
where
  "parse_value 0 s = None"
| "parse_value (Suc n) s =
     (case s of
        [] \<Rightarrow> None
      | c # cs \<Rightarrow>
          if c = CHR ''['' then
            (case cs of
               [] \<Rightarrow> None
             | d # r \<Rightarrow>
                 if d = CHR '']'' then Some (JsArray [], r)
                 else map_option (apfst JsArray) (parse_elements n cs))
          else if c = CHR ''{'' then
            (case cs of
               [] \<Rightarrow> None
             | d # r \<Rightarrow>
                 if d = CHR ''}'' then Some (JsObject [], r)
                 else map_option (apfst JsObject) (parse_members n cs))
          else if c = DQ then map_option (apfst JsString) (parse_string cs)
          else if take 4 s = ''null'' then Some (JsNull, drop 4 s)
          else if take 4 s = ''true'' then Some (JsBool True, drop 4 s)
          else if take 5 s = ''false'' then Some (JsBool False, drop 5 s)
          else map_option (apfst JsNumber) (parse_number s))"
| "parse_elements 0 s = None"
| "parse_elements (Suc n) s =
     (case parse_value n s of
        None \<Rightarrow> None
      | Some (v, r) \<Rightarrow>
          (case r of
             [] \<Rightarrow> None
           | d # r' \<Rightarrow>
               if d = CHR '','' then map_option (apfst ((#) v)) (parse_elements n r')
               else if d = CHR '']'' then Some ([v], r')
               else None))"
| "parse_members 0 s = None"
| "parse_members (Suc n) s =
     (case s of
        [] \<Rightarrow> None
      | q # s' \<Rightarrow>
          if q \<noteq> DQ then None
          else
            (case parse_string s' of
               None \<Rightarrow> None
             | Some (k, r0) \<Rightarrow>
                 (case r0 of
                    [] \<Rightarrow> None
                  | colon # r1 \<Rightarrow>
                      if colon \<noteq> CHR '':'' then None
                      else
                        (case parse_value n r1 of
                           None \<Rightarrow> None
                         | Some (v, r) \<Rightarrow>
                             (case r of
                                [] \<Rightarrow> None
                              | d # r' \<Rightarrow>
                                  if d = CHR '','' then
                                    map_option (apfst ((#) (k, v))) (parse_members n r')
                                  else if d = CHR ''}'' then Some ([(k, v)], r')
                                  else None)))))"

definition JSON_parse :: "string \<Rightarrow> json option" where
  "JSON_parse s =
     (case parse_value (length s) s of
        Some (v, []) \<Rightarrow> Some v
      | _ \<Rightarrow> None)"

text \<open>
  The JSON value that the text of a row value denotes: an undefined member is left out,
  an undefined array element, a non-finite number and an invalid timestamp read as
  \<open>null\<close>, a valid timestamp as its ISO string.
\<close>

fun to_json :: "jsval \<Rightarrow> json"
  and to_json_elements :: "jsval list \<Rightarrow> json list"
  and to_json_members :: "(string \<times> jsval) list \<Rightarrow> (string \<times> json) list"
where
  "to_json JUndefined = JsNull"
| "to_json JNull = JsNull"
| "to_json (JBool b) = JsBool b"
| "to_json (JNum n) =
     (case n of Finite neg s e \<Rightarrow> JsNumber (number_to_string n) | _ \<Rightarrow> JsNull)"
| "to_json (JStr s) = JsString s"
| "to_json (JDate tv) = (case tv of None \<Rightarrow> JsNull | Some t \<Rightarrow> JsString (iso_string t))"
| "to_json (JArray xs) = JsArray (to_json_elements xs)"
| "to_json (JObject kvs) = JsObject (to_json_members kvs)"
| "to_json JCycle = JsNull"
| "to_json_elements [] = []"
| "to_json_elements (x # xs) = to_json x # to_json_elements xs"
| "to_json_members [] = []"
| "to_json_members (kv # kvs) =
     (if snd kv = JUndefined then to_json_members kvs
      else (fst kv, to_json (snd kv)) # to_json_members kvs)"


text \<open>
  What may follow a number: the end of the text, or a character that cannot continue a
  number.
\<close>

definition safe_rest :: "string \<Rightarrow> bool" where
  "safe_rest r = (r = [] \<or> (\<not> is_digit (hd r) \<and> hd r \<notin> set ''.eE''))"

section \<open>Notions used to state the properties\<close>

text \<open>Doubling every double-quote character of a field, one character at a time.\<close>

fun double_quotes :: "string \<Rightarrow> string" where
  "double_quotes [] = []"
| "double_quotes (c # cs) = (if c = DQ then DQ # DQ # double_quotes cs else c # double_quotes cs)"

text \<open>A delimited-text field: quotes doubled, then wrapped in quotes, always.\<close>

definition quoted_field :: "string \<Rightarrow> string" where
  "quoted_field v = [DQ] @ double_quotes v @ [DQ]"

text \<open>The markup entity of one character, all five substitutions applied at once.\<close>

definition XML_entity :: "char \<Rightarrow> string" where
  "XML_entity c =
     (if c = CHR ''&'' then ''&amp;''
      else if c = CHR ''<'' then ''&lt;''
      else if c = CHR ''>'' then ''&gt;''
      else if c = DQ then ''&quot;''
      else if c = CHR 0x27 then ''&apos;''
      else [c])"

text \<open>A value that contains a reference back into an object under traversal.\<close>

fun circular :: "jsval \<Rightarrow> bool"
  and circular_elements :: "jsval list \<Rightarrow> bool"
  and circular_members :: "(string \<times> jsval) list \<Rightarrow> bool"
where
  "circular JCycle = True"
| "circular (JArray xs) = circular_elements xs"
| "circular (JObject kvs) = circular_members kvs"
| "circular JUndefined = False"
| "circular JNull = False"
| "circular (JBool b) = False"
| "circular (JNum n) = False"
| "circular (JStr s) = False"
| "circular (JDate tv) = False"
| "circular_elements [] = False"
| "circular_elements (x # xs) = (circular x \<or> circular_elements xs)"
| "circular_members [] = False"
| "circular_members (kv # kvs) = (circular (snd kv) \<or> circular_members kvs)"

text \<open>
  The lexical shape of an ISO-8601 timestamp in UTC with milliseconds:
  \<open>YYYY-MM-DDTHH:mm:ss.sssZ\<close>, the year being four digits, or a sign and six digits.
\<close>

definition iso_tail :: "string \<Rightarrow> bool" where
  "iso_tail r =
     (case r of
        [h1, m1, m2, h2, d1, d2, t, a1, a2, c1, b1, b2, c2, s1, s2, p, f1, f2, f3, z] \<Rightarrow>
          h1 = CHR ''-'' \<and> h2 = CHR ''-'' \<and> t = CHR ''T'' \<and> c1 = CHR '':'' \<and> c2 = CHR '':'' \<and>
          p = CHR ''.'' \<and> z = CHR ''Z'' \<and>
          list_all is_digit [m1, m2, d1, d2, a1, a2, b1, b2, s1, s2, f1, f2, f3]
      | _ \<Rightarrow> False)"

definition is_iso8601 :: "string \<Rightarrow> bool" where
  "is_iso8601 s =
     (case s of
        [] \<Rightarrow> False
      | c # cs \<Rightarrow>
          if c = CHR ''+'' \<or> c = CHR ''-''
          then list_all is_digit (take 6 cs) \<and> length cs = 26 \<and> iso_tail (drop 6 cs)
          else list_all is_digit (take 4 s) \<and> length s = 24 \<and> iso_tail (drop 4 s))"

text \<open>The text of one child element: the escaped value between tags named by the target.\<close>

definition XML_element :: "column \<Rightarrow> string \<Rightarrow> string" where
  "XML_element col val =
     ''    <'' @ target col @ ''>'' @ XML_escape val @ ''</'' @ target col @ ''>'' @ [NL]"

text \<open>Arrays, objects, and references back into an object: what is serialized as JSON.\<close>

fun nested_structure :: "jsval \<Rightarrow> bool" where
  "nested_structure (JArray xs) = True"
| "nested_structure (JObject kvs) = True"
| "nested_structure JCycle = True"
| "nested_structure v = False"

text \<open>The same for what reading a property gives; a built-in function is not circular.\<close>

fun field_circular :: "field \<Rightarrow> bool" where
  "field_circular (Data v) = circular v"
| "field_circular (Builtin name) = False"

text \<open>
  Target names under which the formatters' assignments create own properties and
  \<open>JSON.stringify\<close> calls no method of the object: all but \<open>__proto__\<close> and
  \<open>toJSON\<close>.
\<close>

definition ordinary_targets :: "column list \<Rightarrow> bool" where
  "ordinary_targets cols =
     (\<forall>col\<in>set cols. target col \<noteq> ''__proto__'' \<and> target col \<noteq> ''toJSON'')"

text \<open>
  The object that \<open>_transform\<close> serializes for a row, as a value: its own properties
  in enumeration order, without those that hold a function; and its JSON text.
\<close>

fun data_members :: "(string \<times> field) list \<Rightarrow> (string \<times> jsval) list" where
  "data_members [] = []"
| "data_members ((k, Data v) # kvs) = (k, v) # data_members kvs"
| "data_members ((k, Builtin name) # kvs) = data_members kvs"

definition JSON_row_object :: "column list \<Rightarrow> row \<Rightarrow> jsval" where
  "JSON_row_object cols chunk = JObject (data_members (own_entries (own (JSON_output cols chunk))))"

definition JSON_text :: "column list \<Rightarrow> row \<Rightarrow> string" where
  "JSON_text cols chunk =
     (case JSON_stringify (JSON_row_object cols chunk) of Inr (Some s) \<Rightarrow> s | _ \<Rightarrow> [])"

text \<open>Row frames of the structured document: a comma before every frame but the first.\<close>

fun JSON_frames :: "bool \<Rightarrow> string list \<Rightarrow> string list" where
  "JSON_frames first [] = []"
| "JSON_frames first (t # ts) = ((if first then [] else '','') @ t) # JSON_frames False ts"

text \<open>
  A value the normalizer accepts, the string it yields, and the row frames of the
  delimited-text and markup encoders written with it.
\<close>

definition normalizable :: "field \<Rightarrow> bool" where
  "normalizable v = (v \<noteq> Data (JDate None) \<and> \<not> field_circular v)"

definition normalized :: "field \<Rightarrow> string" where
  "normalized v = (case prepareValue v of Inl e \<Rightarrow> [] | Inr s \<Rightarrow> s)"

definition row_normalizable :: "column list \<Rightarrow> row \<Rightarrow> bool" where
  "row_normalizable cols chunk = list_all (\<lambda>col. normalizable (row_get chunk (source col))) cols"

definition CSV_line :: "column list \<Rightarrow> row \<Rightarrow> string" where
  "CSV_line cols chunk =
     join_str '','' (map (\<lambda>col. quoted_field (normalized (row_get chunk (source col)))) cols) @ [NL]"

definition XML_record :: "column list \<Rightarrow> row \<Rightarrow> string" where
  "XML_record cols chunk =
     (''  <record>'' @ [NL]) @
     concat (map (\<lambda>col. XML_element col (normalized (row_get chunk (source col)))) cols) @
     ''  </record>'' @ [NL]"

text \<open>The number of newline characters of a text, that is, of newline-terminated lines.\<close>

definition line_count :: "string \<Rightarrow> nat" where
  "line_count s = length (filter (\<lambda>c. c = NL) s)"

text \<open>
  The row object of the columnar formatter written with the normalized strings, and the
  effect of appending row objects to a writer one after the other for as long as the
  promise of each append resolves: the buffers written, and the outcome of the last
  append.
\<close>

definition normalized_row :: "column list \<Rightarrow> row \<Rightarrow> object" where
  "normalized_row cols chunk =
     fold (\<lambda>col row. js_set row (target col) (Data (JStr (normalized (row_get chunk (source col))))))
          cols empty_object"


section \<open>Properties of the built-in operations\<close>

lemma replace_all_Nil: "replace_all c r [] = []"
  by (simp add: replace_all_def)

lemma replace_all_Cons: "replace_all c r (x # xs) = (if x = c then r else [x]) @ replace_all c r xs"
  by (simp add: replace_all_def)

lemma replace_all_append: "replace_all c r (xs @ ys) = replace_all c r xs @ replace_all c r ys"
  by (simp add: replace_all_def)

lemma replace_all_absent: "c \<notin> set s \<Longrightarrow> replace_all c r s = s"
  by (induction s) (auto simp: replace_all_def)

lemma replace_all_double_quotes: "replace_all DQ [DQ, DQ] s = double_quotes s"
  by (induction s) (simp_all add: replace_all_Nil replace_all_Cons)

lemma double_quotes_concat: "double_quotes s = concat (map (\<lambda>c. if c = DQ then [DQ, DQ] else [c]) s)"
  by (induction s) simp_all

lemma join_str_concat:
  "join_str sep xs = (case xs of [] \<Rightarrow> [] | x # ys \<Rightarrow> x @ concat (map ((@) sep) ys))"
  by (induction sep xs rule: join_str.induct) simp_all

lemma map_result_post:
  "map_result (\<lambda>x. case f x of Inl e \<Rightarrow> Inl e | Inr v \<Rightarrow> Inr (g v)) xs =
     (case map_result f xs of Inl e \<Rightarrow> Inl e | Inr vs \<Rightarrow> Inr (map g vs))"
  by (induction xs) (simp_all split: sum.splits)

lemma map_result_all:
  "(\<And>x. x \<in> set xs \<Longrightarrow> f x = Inr (g x)) \<Longrightarrow> map_result f xs = Inr (map g xs)"
  by (induction xs) auto

lemma map_result_isl: "isl (map_result f xs) = (\<exists>x\<in>set xs. isl (f x))"
  by (induction xs) (auto split: sum.splits)

lemma is_digit_digit_char: "is_digit (digit_char n)"
proof -
  have "n mod 10 < length ''0123456789''" by simp
  then have "''0123456789'' ! (n mod 10) \<in> set ''0123456789''" by (rule nth_mem)
  then show ?thesis unfolding is_digit_def digit_char_def .
qed

section \<open>The delimited-text encoder\<close>

lemma CSV_field_quoted: "CSV_field v = quoted_field v"
proof (cases "DQ \<in> set v")
  case True
  then show ?thesis
    by (simp add: CSV_field_def quoted_field_def str_includes_def replace_all_double_quotes)
next
  case False
  then have "double_quotes v = v"
    using replace_all_absent [of DQ v "[DQ, DQ]"] by (simp add: replace_all_double_quotes)
  with False show ?thesis
    by (simp add: CSV_field_def quoted_field_def str_includes_def)
qed

lemma CSV_transform_fields:
  "CSV_transform this chunk =
     (case map_result (\<lambda>col. prepareValue (row_get chunk (source col))) (columns this) of
        Inl e \<Rightarrow> Inl e
      | Inr vals \<Rightarrow> Inr (this, [join_str '','' (map quoted_field vals) @ [NL]]))"
  unfolding CSV_transform_def CSV_field_quoted
  by (simp add: map_result_post [where f = "\<lambda>col. prepareValue (row_get chunk (source col))"]
        split: sum.splits)

lemma CSV_transform_isl:
  "isl (CSV_transform this chunk) =
     (\<exists>col\<in>set (columns this). isl (prepareValue (row_get chunk (source col))))"
  by (simp add: CSV_transform_fields map_result_isl [symmetric] split: sum.splits)

text \<open>
  C1 (as amended).  The constructor pushes one chunk, the target names joined by commas
  and ended by a newline.  For a row on whose projected fields the normalizer returns
  strings, \<open>_transform\<close> pushes one chunk: the fields in projection order joined by
  commas and ended by a newline, each field being the normalized value with every double
  quote doubled, between two double quotes whether it needs them or not.  A row with
  a projected field on which the normalizer raises yields no line: \<open>_transform\<close> raises
  too, and it does so on no other row.  Nothing is pushed at the end of the input.
\<close>

theorem CSV_header_and_lines:
  "snd (CSV_new cols) =
     [(case map target cols of [] \<Rightarrow> [] | t # ts \<Rightarrow> t @ concat (map ((@) '','') ts)) @ [NL]] \<and>
   columns (fst (CSV_new cols)) = cols \<and>
   ((\<forall>col\<in>set (columns this). prepareValue (row_get chunk (source col)) = Inr (val col)) \<longrightarrow>
      CSV_transform this chunk =
        Inr (this,
             [(case map (\<lambda>col. [DQ] @ concat (map (\<lambda>c. if c = DQ then [DQ, DQ] else [c]) (val col)) @ [DQ])
                        (columns this) of
                 [] \<Rightarrow> []
               | f # fs \<Rightarrow> f @ concat (map ((@) '','') fs)) @ [NL]])) \<and>
   (isl (CSV_transform this chunk) \<longleftrightarrow>
      (\<exists>col\<in>set (columns this). isl (prepareValue (row_get chunk (source col))))) \<and>
   CSV_flush this = []"
proof -
  have header: "snd (CSV_new cols) =
     [(case map target cols of [] \<Rightarrow> [] | t # ts \<Rightarrow> t @ concat (map ((@) '','') ts)) @ [NL]]"
    by (simp add: CSV_new_def join_str_concat)
  have line: "(\<forall>col\<in>set (columns this). prepareValue (row_get chunk (source col)) = Inr (val col)) \<longrightarrow>
      CSV_transform this chunk =
        Inr (this,
             [(case map (\<lambda>col. [DQ] @ concat (map (\<lambda>c. if c = DQ then [DQ, DQ] else [c]) (val col)) @ [DQ])
                        (columns this) of
                 [] \<Rightarrow> []
               | f # fs \<Rightarrow> f @ concat (map ((@) '','') fs)) @ [NL]])"
  proof
    assume "\<forall>col\<in>set (columns this). prepareValue (row_get chunk (source col)) = Inr (val col)"
    then have "map_result (\<lambda>col. prepareValue (row_get chunk (source col))) (columns this) =
        Inr (map val (columns this))"
      by (intro map_result_all) simp
    then have "CSV_transform this chunk =
        Inr (this, [join_str '','' (map quoted_field (map val (columns this))) @ [NL]])"
      by (simp add: CSV_transform_fields)
    also have "map quoted_field (map val (columns this)) =
        map (\<lambda>col. [DQ] @ concat (map (\<lambda>c. if c = DQ then [DQ, DQ] else [c]) (val col)) @ [DQ])
          (columns this)"
      by (simp add: quoted_field_def double_quotes_concat)
    finally show "CSV_transform this chunk =
        Inr (this,
             [(case map (\<lambda>col. [DQ] @ concat (map (\<lambda>c. if c = DQ then [DQ, DQ] else [c]) (val col)) @ [DQ])
                        (columns this) of
                 [] \<Rightarrow> []
               | f # fs \<Rightarrow> f @ concat (map ((@) '','') fs)) @ [NL]])"
      by (simp only: join_str_concat)
  qed
  have rest: "columns (fst (CSV_new cols)) = cols" "CSV_flush this = []"
    by (simp_all add: CSV_new_def CSV_flush_def)
  from header line rest CSV_transform_isl [of this chunk] show ?thesis by blast
qed

theorem CSV_header_and_lines_witness:
  \<open>snd (CSV_new [\<lparr>source = ''name'', target = ''n''\<rparr>, \<lparr>source = ''value'', target = ''v''\<rparr>,
                 \<lparr>source = ''at'', target = ''t''\<rparr>]) = [''n,v,t'' @ [NL]] \<and>
   CSV_transform \<lparr>columns = [\<lparr>source = ''name'', target = ''n''\<rparr>, \<lparr>source = ''value'', target = ''v''\<rparr>,
                              \<lparr>source = ''at'', target = ''t''\<rparr>]\<rparr>
      [(''value'', JNum (Finite True 25 1)), (''name'', JStr ''say "hi", ok'')] =
     Inr (\<lparr>columns = [\<lparr>source = ''name'', target = ''n''\<rparr>, \<lparr>source = ''value'', target = ''v''\<rparr>,
                       \<lparr>source = ''at'', target = ''t''\<rparr>]\<rparr>,
          [''"say ""hi"", ok","-2.5",""'' @ [NL]])\<close>
  using CSV_header_and_lines
    [where cols = "[\<lparr>source = ''name'', target = ''n''\<rparr>, \<lparr>source = ''value'', target = ''v''\<rparr>,
                    \<lparr>source = ''at'', target = ''t''\<rparr>]"
       and this = "\<lparr>columns = [\<lparr>source = ''name'', target = ''n''\<rparr>, \<lparr>source = ''value'', target = ''v''\<rparr>,
                                \<lparr>source = ''at'', target = ''t''\<rparr>]\<rparr>"
       and chunk = "[(''value'', JNum (Finite True 25 1)), (''name'', JStr ''say \"hi\", ok'')]"
       and val = "\<lambda>col. if source col = ''name'' then ''say \"hi\", ok''
                         else if source col = ''value'' then ''-2.5'' else []"]
  by (simp add: row_get_def inherited_def decimal_text_def strip_zeros.simps dec_nat.simps digit_char_def)

text \<open>
  C1 (as stated) fails: for a row whose projected field is an invalid timestamp the
  encoder emits no line; \<open>toISOString\<close> throws a RangeError, which leaves
  \<open>_transform\<close>, and the export ends after the header.
\<close>

theorem CSV_invalid_date_no_line:
  "CSV_transform (fst (CSV_new [\<lparr>source = ''at'', target = ''t''\<rparr>])) [(''at'', JDate None)] =
     Inl RangeError \<and>
   CSV_export [\<lparr>source = ''at'', target = ''t''\<rparr>] [[(''at'', JDate None)], [(''at'', JNull)]] =
     ([''t'' @ [NL]], Some RangeError)"
  by (simp add: CSV_export_def run_formatter_def CSV_new_def CSV_transform_def row_get_def
        toISOString_def)

section \<open>The markup encoder's escaping\<close>

lemma XML_escape_Cons: "XML_escape (c # cs) = XML_escape [c] @ XML_escape cs"
proof -
  have "XML_escape ([c] @ cs) = XML_escape [c] @ XML_escape cs"
    unfolding XML_escape_def by (simp only: replace_all_append)
  then show ?thesis by simp
qed

lemma XML_escape_single: "XML_escape [c] = XML_entity c"
  by (simp add: XML_escape_def XML_entity_def replace_all_def)

lemma XML_escape_one_pass: "XML_escape s = concat (map XML_entity s)"
proof (induction s)
  case Nil
  show ?case by (simp add: XML_escape_def replace_all_def)
next
  case (Cons c cs)
  then show ?case by (simp add: XML_escape_Cons [of c cs] XML_escape_single)
qed

lemma forEach_result_append:
  "forEach_result (\<lambda>x acc. case f x of Inl e \<Rightarrow> Inl e | Inr v \<Rightarrow> Inr (acc @ g x v)) xs acc =
     (case map_result f xs of
        Inl e \<Rightarrow> Inl e
      | Inr vs \<Rightarrow> Inr (acc @ concat (map (\<lambda>(x, v). g x v) (zip xs vs))))"
proof (induction xs arbitrary: acc)
  case Nil
  show ?case by simp
next
  case (Cons x xs)
  show ?case by (simp add: Cons.IH split: sum.splits)
qed

lemma XML_transform_elements:
  "XML_transform this chunk =
     (case map_result (\<lambda>col. prepareValue (row_get chunk (source col))) (columns this) of
        Inl e \<Rightarrow> Inl e
      | Inr vals \<Rightarrow>
          Inr (this, [(''  <record>'' @ [NL]) @
                      concat (map (\<lambda>(col, val). XML_element col val) (zip (columns this) vals)) @
                      ''  </record>'' @ [NL]]))"
proof -
  have "forEach_result
          (\<lambda>col rowXml. case prepareValue (row_get chunk (source col)) of
                    Inl e \<Rightarrow> Inl e
                  | Inr val \<Rightarrow> Inr (rowXml @ XML_element col val))
          (columns this) (''  <record>'' @ [NL]) =
        (case map_result (\<lambda>col. prepareValue (row_get chunk (source col))) (columns this) of
           Inl e \<Rightarrow> Inl e
         | Inr vals \<Rightarrow>
             Inr ((''  <record>'' @ [NL]) @
                  concat (map (\<lambda>(col, val). XML_element col val) (zip (columns this) vals))))"
    by (rule forEach_result_append)
  then show ?thesis
    unfolding XML_transform_def XML_element_def
    by (simp split: sum.splits)
qed

text \<open>
  C2.  The escaping applied to element text is the chain of five global substitutions in
  the order ampersand, less-than, greater-than, double quote, apostrophe.  On every
  string that chain equals replacing each character by its own entity in one pass, so no
  substitution touches an entity that an earlier one wrote.  The text \<open>AT&T "ok"\<close>
  becomes \<open>AT&amp;T &quot;ok&quot;\<close>, and a one-column record carries the escaped
  value between its tags.
\<close>

theorem XML_escape_fixed_order:
  \<open>XML_escape s =
     replace_all (CHR 0x27) ''&apos;''
       (replace_all DQ ''&quot;''
         (replace_all (CHR ''>'') ''&gt;''
           (replace_all (CHR ''<'') ''&lt;''
             (replace_all (CHR ''&'') ''&amp;'' s)))) \<and>
   XML_escape s = concat (map XML_entity s) \<and>
   XML_escape ''AT&T "ok"'' = ''AT&amp;T &quot;ok&quot;'' \<and>
   XML_transform \<lparr>columns = [col]\<rparr> chunk =
     (case prepareValue (row_get chunk (source col)) of
        Inl e \<Rightarrow> Inl e
      | Inr val \<Rightarrow>
          Inr (\<lparr>columns = [col]\<rparr>,
               [''  <record>'' @ [NL] @
                ''    <'' @ target col @ ''>'' @ XML_escape val @ ''</'' @ target col @ ''>'' @ [NL] @
                ''  </record>'' @ [NL]]))\<close>
proof -
  have a: "XML_escape ''AT&T \"ok\"'' = ''AT&amp;T &quot;ok&quot;''"
    by (simp add: XML_escape_one_pass XML_entity_def)
  have b: "XML_transform \<lparr>columns = [col]\<rparr> chunk =
     (case prepareValue (row_get chunk (source col)) of
        Inl e \<Rightarrow> Inl e
      | Inr val \<Rightarrow>
          Inr (\<lparr>columns = [col]\<rparr>,
               [''  <record>'' @ [NL] @
                ''    <'' @ target col @ ''>'' @ XML_escape val @ ''</'' @ target col @ ''>'' @ [NL] @
                ''  </record>'' @ [NL]]))"
    by (simp add: XML_transform_elements XML_element_def split: sum.splits)
  have c: "XML_escape s =
     replace_all (CHR 0x27) ''&apos;''
       (replace_all DQ ''&quot;''
         (replace_all (CHR ''>'') ''&gt;''
           (replace_all (CHR ''<'') ''&lt;''
             (replace_all (CHR ''&'') ''&amp;'' s))))"
    by (simp only: XML_escape_def)
  have d: "XML_escape s = concat (map XML_entity s)"
    by (rule XML_escape_one_pass)
  from c d a b show ?thesis by blast
qed

section \<open>The serializer\<close>

lemma serialize_isl:
  "isl (serialize_property v) = circular v"
  "isl (serialize_elements xs) = circular_elements xs"
  "isl (serialize_members kvs) = circular_members kvs"
  by (induction v and xs and kvs rule: serialize_property_serialize_elements_serialize_members.induct)
     (auto split: sum.splits)

lemma serialize_error:
  "serialize_property v = Inl e \<Longrightarrow> e = TypeError"
  "serialize_elements xs = Inl e \<Longrightarrow> e = TypeError"
  "serialize_members kvs = Inl e \<Longrightarrow> e = TypeError"
  by (induction v and xs and kvs rule: serialize_property_serialize_elements_serialize_members.induct)
     (auto split: sum.splits)

lemma serialize_undefined: "serialize_property v = Inr None \<Longrightarrow> v = JUndefined"
  by (cases v) (auto split: sum.splits)

lemma serialize_circular: "circular v \<Longrightarrow> serialize_property v = Inl TypeError"
  using serialize_isl(1) [of v] serialize_error(1) [of v]
  by (cases "serialize_property v") auto

lemma serialize_acyclic:
  "\<not> circular v \<Longrightarrow> v \<noteq> JUndefined \<Longrightarrow> \<exists>s. serialize_property v = Inr (Some s)"
  using serialize_isl(1) [of v] serialize_undefined [of v]
  by (cases "serialize_property v") auto

lemma circular_members_iff: "circular_members kvs = (\<exists>kv\<in>set kvs. circular (snd kv))"
  by (induction kvs) auto

lemma circular_elements_iff: "circular_elements xs = (\<exists>x\<in>set xs. circular x)"
  by (induction xs) auto

section \<open>Decimal digits and the text of a number\<close>

lemma digit_values: "list_all (\<lambda>k. (of_char (''0123456789'' ! k) :: int) = 48 + int k) [0..<10]"
  by code_simp

lemma hex_values: "list_all (\<lambda>k. hex_value (''0123456789abcdef'' ! k) = Some k) [0..<16]"
  by code_simp

lemma of_char_digit_char: "(of_char (digit_char n) :: int) = 48 + int (n mod 10)"
  using digit_values by (simp add: list_all_iff digit_char_def)

lemma hex_value_hex_char: "hex_value (hex_char d) = Some (d mod 16)"
  using hex_values by (simp add: list_all_iff hex_char_def)

lemma dec_value_snoc: "dec_value (xs @ [c]) = 10 * dec_value xs + (of_char c - 48)"
  by (simp add: dec_value_def)

lemma dec_nat_digits: "list_all is_digit (dec_nat n)"
  by (induction n rule: dec_nat.induct) (subst dec_nat.simps, simp add: is_digit_digit_char)

lemma dec_nat_nonempty: "dec_nat n \<noteq> []"
  by (subst dec_nat.simps) simp

lemma dec_value_dec_nat: "dec_value (dec_nat n) = int n"
proof (induction n rule: dec_nat.induct)
  case (1 n)
  show ?case
  proof (cases "n < 10")
    case True
    then show ?thesis
      by (subst dec_nat.simps) (simp add: dec_value_def of_char_digit_char)
  next
    case False
    with 1 have "dec_value (dec_nat (n div 10)) = int (n div 10)" by simp
    with False show ?thesis
      by (subst dec_nat.simps) (simp add: dec_value_snoc of_char_digit_char zdiv_int zmod_int)
  qed
qed

lemma dec_nat_zero: "dec_nat n = ''0'' \<Longrightarrow> n = 0"
  using dec_value_dec_nat [of n] by (simp add: dec_value_def)

lemma dec_nat_leading: "hd (dec_nat n) = CHR ''0'' \<Longrightarrow> dec_nat n = ''0''"
proof (induction n rule: dec_nat.induct)
  case (1 n)
  show ?case
  proof (cases "n < 10")
    case True
    with 1(2) show ?thesis by (subst dec_nat.simps, subst (asm) dec_nat.simps) simp
  next
    case False
    have "hd (dec_nat n) = hd (dec_nat (n div 10))"
      using False dec_nat_nonempty [of "n div 10"] by (subst dec_nat.simps) simp
    with 1 False have "dec_nat (n div 10) = ''0''" by simp
    then have "n div 10 = 0" by (rule dec_nat_zero)
    with False show ?thesis by simp
  qed
qed

lemma hd_dec_nat_pos: "0 < n \<Longrightarrow> hd (dec_nat n) \<noteq> CHR ''0''"
  using dec_nat_leading [of n] dec_nat_zero [of n] by auto

lemma strip_zeros_pos: "0 < s \<Longrightarrow> 0 < strip_zeros s"
proof (induction s rule: strip_zeros.induct)
  case (1 s)
  show ?case
  proof (cases "s mod 10 = 0")
    case True
    with "1.prems" have "0 < s div 10" by (cases "s < 10") auto
    with 1 True show ?thesis by (subst strip_zeros.simps) simp
  next
    case False
    with "1.prems" show ?thesis by (subst strip_zeros.simps) simp
  qed
qed

lemma replicate_unfold: "replicate n x = (if n = 0 then [] else x # replicate (n - 1) x)"
  by (cases n) simp_all

lemma dec_nat_times_10: "0 < n \<Longrightarrow> dec_nat (10 * n) = dec_nat n @ ''0''"
  by (subst dec_nat.simps) (simp add: digit_char_def)

lemma dec_nat_strip_zeros:
  "0 < s \<Longrightarrow>
     dec_nat s = dec_nat (strip_zeros s) @
                 replicate (length (dec_nat s) - length (dec_nat (strip_zeros s))) (CHR ''0'')"
proof (induction s rule: strip_zeros.induct)
  case (1 s)
  show ?case
  proof (cases "s mod 10 = 0")
    case True
    with "1.prems" have pos: "0 < s div 10" by (cases "s < 10") auto
    from True have s: "s = 10 * (s div 10)" by presburger
    have st: "strip_zeros s = strip_zeros (s div 10)"
      using "1.prems" True by (subst strip_zeros.simps) simp
    have d: "dec_nat s = dec_nat (s div 10) @ ''0''"
      using dec_nat_times_10 [OF pos] s by simp
    have ih: "dec_nat (s div 10) = dec_nat (strip_zeros (s div 10)) @
        replicate (length (dec_nat (s div 10)) - length (dec_nat (strip_zeros (s div 10)))) (CHR ''0'')"
      using 1 True pos by simp
    then have le: "length (dec_nat (strip_zeros (s div 10))) \<le> length (dec_nat (s div 10))"
      by (metis length_append le_add1)
    have "dec_nat s =
        (dec_nat (strip_zeros (s div 10)) @
         replicate (length (dec_nat (s div 10)) - length (dec_nat (strip_zeros (s div 10)))) (CHR ''0'')) @
        ''0''"
      using d ih by simp
    also have "\<dots> = dec_nat (strip_zeros (s div 10)) @
         replicate (Suc (length (dec_nat (s div 10)) - length (dec_nat (strip_zeros (s div 10))))) (CHR ''0'')"
      by (simp add: replicate_append_same)
    also have "Suc (length (dec_nat (s div 10)) - length (dec_nat (strip_zeros (s div 10)))) =
        length (dec_nat s) - length (dec_nat (strip_zeros (s div 10)))"
      using le by (simp add: d)
    finally show ?thesis by (simp add: st)
  next
    case False
    then have "strip_zeros s = s" by (subst strip_zeros.simps) simp
    then show ?thesis by simp
  qed
qed

text \<open>
  The text of a number with an integral value below \<open>10^21\<close> is the decimal numeral of
  that value, with a minus sign when it is negative.
\<close>

lemma number_to_string_int:
  assumes "length (dec_nat (nat \<bar>i\<bar>)) \<le> 21"
  shows "number_to_string (int_number i) = (if i < 0 then ''-'' else []) @ dec_nat (nat \<bar>i\<bar>)"
proof (cases "i = 0")
  case True
  then show ?thesis by (simp add: int_number_def dec_nat.simps digit_char_def)
next
  case False
  let ?s = "nat \<bar>i\<bar>"
  from False have pos: "0 < ?s" by simp
  have split: "dec_nat ?s = dec_nat (strip_zeros ?s) @
      replicate (length (dec_nat ?s) - length (dec_nat (strip_zeros ?s))) (CHR ''0'')"
    using pos by (rule dec_nat_strip_zeros)
  then have le: "length (dec_nat (strip_zeros ?s)) \<le> length (dec_nat ?s)"
    by (metis length_append le_add1)
  have "decimal_text (dec_nat (strip_zeros ?s)) (int (length (dec_nat ?s))) =
      dec_nat (strip_zeros ?s) @
      replicate (length (dec_nat ?s) - length (dec_nat (strip_zeros ?s))) (CHR ''0'')"
    using le assms by (simp add: decimal_text_def nat_diff_distrib' of_nat_diff)
  then show ?thesis
    using False split by (simp add: int_number_def)
qed

section \<open>Reading back what the serializer writes\<close>

lemma hd_dec_nat_digit: "is_digit (hd (dec_nat n))"
  using dec_nat_digits [of n] dec_nat_nonempty [of n]
  by (cases "dec_nat n") (simp_all add: list_all_iff)

lemma parse_digits_append:
  assumes "ds \<noteq> []" "list_all is_digit ds" "r = [] \<or> \<not> is_digit (hd r)"
  shows "parse_digits (ds @ r) = Some (ds, r)"
proof -
  have t: "takeWhile is_digit r = []"
    using assms(3) by (cases r) auto
  have all: "\<And>x. x \<in> set ds \<Longrightarrow> is_digit x"
    using assms(2) by (simp add: list_all_iff)
  have tw: "takeWhile is_digit (ds @ r) = ds"
    using all t by simp
  have "dropWhile is_digit r = r"
    using assms(3) by (cases r) auto
  then have dw: "dropWhile is_digit (ds @ r) = r"
    using all by simp
  show ?thesis
    using assms(1) by (simp add: parse_digits_def tw dw)
qed

lemma parse_int_append:
  assumes "ds \<noteq> []" "list_all is_digit ds" "ds = ''0'' \<or> hd ds \<noteq> CHR ''0''"
    and "r = [] \<or> \<not> is_digit (hd r)"
  shows "parse_int (ds @ r) = Some (ds, r)"
  using parse_digits_append [OF assms(1,2,4)] assms(3) by (auto simp: parse_int_def)

lemma parse_fraction_append:
  assumes "fp = [] \<or> (\<exists>ds. ds \<noteq> [] \<and> list_all is_digit ds \<and> fp = CHR ''.'' # ds)"
    and "r = [] \<or> (\<not> is_digit (hd r) \<and> hd r \<noteq> CHR ''.'')"
  shows "parse_fraction (fp @ r) = Some (fp, r)"
proof (cases "fp = []")
  case True
  with assms(2) show ?thesis by (cases r) (auto simp: parse_fraction_def)
next
  case False
  with assms(1) obtain ds where ds: "ds \<noteq> []" "list_all is_digit ds" "fp = CHR ''.'' # ds"
    by blast
  have "parse_digits (ds @ r) = Some (ds, r)"
    using ds(1,2) assms(2) by (intro parse_digits_append) auto
  then show ?thesis by (simp add: parse_fraction_def ds(3))
qed

lemma parse_exponent_append:
  assumes "ep = [] \<or> (\<exists>sg ds. (sg = CHR ''+'' \<or> sg = CHR ''-'') \<and> ds \<noteq> [] \<and> list_all is_digit ds \<and>
                          ep = CHR ''e'' # sg # ds)"
    and "safe_rest r"
  shows "parse_exponent (ep @ r) = Some (ep, r)"
proof (cases "ep = []")
  case True
  with assms(2) show ?thesis by (cases r) (auto simp: parse_exponent_def safe_rest_def)
next
  case False
  with assms(1) obtain sg ds where ds: "sg = CHR ''+'' \<or> sg = CHR ''-''" "ds \<noteq> []"
      "list_all is_digit ds" "ep = CHR ''e'' # sg # ds"
    by blast
  have "parse_digits (ds @ r) = Some (ds, r)"
    using ds(2,3) assms(2) by (intro parse_digits_append) (auto simp: safe_rest_def)
  then show ?thesis using ds(1) by (auto simp: parse_exponent_def ds(4))
qed

lemma parse_number_parts:
  assumes sign: "sign = [] \<or> sign = ''-''"
    and ip: "ip \<noteq> []" "list_all is_digit ip" "ip = ''0'' \<or> hd ip \<noteq> CHR ''0''"
    and fp: "fp = [] \<or> (\<exists>ds. ds \<noteq> [] \<and> list_all is_digit ds \<and> fp = CHR ''.'' # ds)"
    and ep: "ep = [] \<or> (\<exists>sg ds. (sg = CHR ''+'' \<or> sg = CHR ''-'') \<and> ds \<noteq> [] \<and> list_all is_digit ds \<and>
                            ep = CHR ''e'' # sg # ds)"
    and r: "safe_rest r"
  shows "parse_number (sign @ ip @ fp @ ep @ r) = Some (sign @ ip @ fp @ ep, r)"
proof -
  have e_not_digit: "\<not> is_digit (CHR ''e'')" "\<not> is_digit (CHR ''.'')" "\<not> is_digit (CHR ''-'')"
    by (simp_all add: is_digit_def)
  have r1: "ep @ r = [] \<or> (\<not> is_digit (hd (ep @ r)) \<and> hd (ep @ r) \<noteq> CHR ''.'')"
    using ep r e_not_digit by (cases "ep = []") (auto simp: safe_rest_def)
  have r2: "fp @ ep @ r = [] \<or> \<not> is_digit (hd (fp @ ep @ r))"
    using fp r1 e_not_digit by (cases "fp = []") auto
  have a: "parse_int (ip @ fp @ ep @ r) = Some (ip, fp @ ep @ r)"
    using ip r2 by (intro parse_int_append)
  have b: "parse_fraction (fp @ ep @ r) = Some (fp, ep @ r)"
    using fp r1 by (intro parse_fraction_append)
  have c: "parse_exponent (ep @ r) = Some (ep, r)"
    using ep r by (intro parse_exponent_append)
  obtain d ds where d: "ip = d # ds" using ip(1) by (cases ip) auto
  have "is_digit d" using ip(2) d by simp
  then have dm: "d \<noteq> CHR ''-''" using e_not_digit by auto
  show ?thesis
  proof (cases "sign = []")
    case True
    have "parse_number (d # ds @ fp @ ep @ r) = Some ((d # ds) @ fp @ ep, r)"
      using a b c dm unfolding d parse_number_def by simp
    then show ?thesis by (simp add: True d)
  next
    case False
    with sign have s: "sign = ''-''" by simp
    have "parse_number (CHR ''-'' # ip @ fp @ ep @ r) = Some (CHR ''-'' # ip @ fp @ ep, r)"
      using a b c unfolding parse_number_def by simp
    then show ?thesis by (simp add: s)
  qed
qed

lemma decimal_text_parts:
  assumes ds: "ds \<noteq> []" "list_all is_digit ds" "hd ds \<noteq> CHR ''0''"
  shows "\<exists>ip fp ep. decimal_text ds n = ip @ fp @ ep \<and>
     ip \<noteq> [] \<and> list_all is_digit ip \<and> (ip = ''0'' \<or> hd ip \<noteq> CHR ''0'') \<and>
     (fp = [] \<or> (\<exists>fs. fs \<noteq> [] \<and> list_all is_digit fs \<and> fp = CHR ''.'' # fs)) \<and>
     (ep = [] \<or> (\<exists>sg es. (sg = CHR ''+'' \<or> sg = CHR ''-'') \<and> es \<noteq> [] \<and> list_all is_digit es \<and>
                            ep = CHR ''e'' # sg # es))"
proof -
  have zero: "is_digit (CHR ''0'')" by (simp add: is_digit_def)
  have zeros: "list_all is_digit (replicate m (CHR ''0''))" for m
    using zero by (simp add: list_all_iff)
  consider (whole) "int (length ds) \<le> n" "n \<le> 21"
    | (point) "\<not> (int (length ds) \<le> n \<and> n \<le> 21)" "0 < n" "n \<le> 21"
    | (small) "\<not> (int (length ds) \<le> n \<and> n \<le> 21)" "\<not> (0 < n \<and> n \<le> 21)" "- 6 < n" "n \<le> 0"
    | (expo) "\<not> (int (length ds) \<le> n \<and> n \<le> 21)" "\<not> (0 < n \<and> n \<le> 21)" "\<not> (- 6 < n \<and> n \<le> 0)"
    by linarith
  then show ?thesis
  proof cases
    case whole
    let ?ip = "ds @ replicate (nat (n - int (length ds))) (CHR ''0'')"
    have "decimal_text ds n = ?ip @ [] @ []" using whole by (simp add: decimal_text_def)
    moreover have "?ip \<noteq> []" "list_all is_digit ?ip" "hd ?ip \<noteq> CHR ''0''"
      using ds zeros by simp_all
    ultimately show ?thesis by blast
  next
    case point
    then have lt: "nat n < length ds" "0 < nat n" by linarith+
    let ?ip = "take (nat n) ds" and ?fs = "drop (nat n) ds"
    have "decimal_text ds n = ?ip @ (CHR ''.'' # ?fs) @ []"
      using point by (simp add: decimal_text_def)
    moreover have "?ip \<noteq> []" using lt ds(1) by simp
    moreover have "list_all is_digit ?ip" "list_all is_digit ?fs"
      using ds(2) by (auto simp: list_all_iff dest: in_set_takeD in_set_dropD)
    moreover have "hd ?ip \<noteq> CHR ''0''" using lt ds by (simp add: hd_take)
    moreover have "?fs \<noteq> []" using lt by simp
    ultimately show ?thesis by blast
  next
    case small
    let ?fs = "replicate (nat (- n)) (CHR ''0'') @ ds"
    have "decimal_text ds n = ''0'' @ (CHR ''.'' # ?fs) @ []"
      using small by (simp add: decimal_text_def)
    moreover have "?fs \<noteq> []" "list_all is_digit ?fs" using ds zeros by simp_all
    moreover have "list_all is_digit ''0''" using zero by simp
    ultimately show ?thesis by blast
  next
    case expo
    obtain d rest where d: "ds = d # rest" using ds(1) by (cases ds) auto
    let ?fp = "if rest = [] then [] else CHR ''.'' # rest"
    let ?sg = "if n - 1 < 0 then CHR ''-'' else CHR ''+''"
    let ?es = "dec_nat (nat \<bar>n - 1\<bar>)"
    have "decimal_text ds n =
        (if length ds = 1 then ds else hd ds # ''.'' @ tl ds) @ ''e'' @
        (if n - 1 < 0 then ''-'' else ''+'') @ dec_nat (nat \<bar>n - 1\<bar>)"
      unfolding decimal_text_def using expo by (simp only: if_False)
    then have "decimal_text ds n = [d] @ ?fp @ (CHR ''e'' # ?sg # ?es)"
      by (simp add: d)
    moreover have "list_all is_digit [d]" "hd [d] \<noteq> CHR ''0''" "list_all is_digit rest"
      using ds d by simp_all
    moreover have "?es \<noteq> []" "list_all is_digit ?es"
      by (simp_all add: dec_nat_nonempty dec_nat_digits)
    ultimately show ?thesis by (intro exI [of _ "[d]"] exI [of _ ?fp] exI [of _ "CHR ''e'' # ?sg # ?es"]) auto
  qed
qed

declare number_to_string.simps(4) [simp del]

lemma parse_number_text:
  assumes "safe_rest r"
  shows "parse_number (number_to_string (Finite neg s n) @ r) =
           Some (number_to_string (Finite neg s n), r)"
proof (cases "s = 0")
  case True
  have "parse_number ([] @ ''0'' @ [] @ [] @ r) = Some ([] @ ''0'' @ [] @ [], r)"
    using assms by (intro parse_number_parts) (simp_all add: is_digit_def)
  with True show ?thesis by (simp add: number_to_string.simps)
next
  case False
  let ?ds = "dec_nat (strip_zeros s)"
  have "0 < strip_zeros s" using False by (intro strip_zeros_pos) simp
  then have "hd ?ds \<noteq> CHR ''0''" by (rule hd_dec_nat_pos)
  then obtain ip fp ep where parts: "decimal_text ?ds n = ip @ fp @ ep"
      "ip \<noteq> []" "list_all is_digit ip" "ip = ''0'' \<or> hd ip \<noteq> CHR ''0''"
      "fp = [] \<or> (\<exists>fs. fs \<noteq> [] \<and> list_all is_digit fs \<and> fp = CHR ''.'' # fs)"
      "ep = [] \<or> (\<exists>sg es. (sg = CHR ''+'' \<or> sg = CHR ''-'') \<and> es \<noteq> [] \<and> list_all is_digit es \<and>
                            ep = CHR ''e'' # sg # es)"
    using decimal_text_parts [of ?ds n] dec_nat_nonempty dec_nat_digits by blast
  let ?sign = "if neg then ''-'' else []"
  have "parse_number (?sign @ ip @ fp @ ep @ r) = Some (?sign @ ip @ fp @ ep, r)"
    using parts(2-6) assms by (intro parse_number_parts) simp_all
  then show ?thesis using False parts(1) by (simp add: number_to_string.simps)
qed

lemma number_text_first:
  "\<exists>c cs. number_to_string (Finite neg s n) = c # cs \<and> (is_digit c \<or> c = CHR ''-'')"
proof (cases "s = 0")
  case True
  then show ?thesis by (simp add: is_digit_def number_to_string.simps)
next
  case False
  let ?ds = "dec_nat (strip_zeros s)"
  have "0 < strip_zeros s" using False by (intro strip_zeros_pos) simp
  then have "hd ?ds \<noteq> CHR ''0''" by (rule hd_dec_nat_pos)
  then obtain ip fp ep where parts: "decimal_text ?ds n = ip @ fp @ ep"
      "ip \<noteq> []" "list_all is_digit ip"
    using decimal_text_parts [of ?ds n] dec_nat_nonempty dec_nat_digits by blast
  then obtain d ds where "ip = d # ds" "is_digit d" by (cases ip) auto
  with parts(1) False show ?thesis by (simp add: number_to_string.simps)
qed

lemma parse_string_quote_char:
  "parse_string (quote_char c @ s) = map_option (apfst ((#) c)) (parse_string s)"
proof -
  have u: "unicode_escape (CHR ''0'') (CHR ''0'') (hex_char (of_char c div 16)) (hex_char (of_char c)) = Some c"
    if "(of_char c :: nat) < 32"
  proof -
    have "(of_char c :: nat) div 16 mod 16 = of_char c div 16" using that by simp
    moreover have "hex_value (CHR ''0'') = Some 0" by (simp add: hex_value_def)
    ultimately show ?thesis
      by (simp add: unicode_escape_def hex_value_hex_char)
  qed
  show ?thesis
    by (simp add: quote_char_def unescape_def u)
qed

lemma parse_string_quoted:
  "parse_string (concat (map quote_char s) @ DQ # r) = Some (s, r)"
proof (induction s)
  case Nil
  show ?case by simp
next
  case (Cons c s)
  have "parse_string (quote_char c @ concat (map quote_char s) @ DQ # r) =
        map_option (apfst ((#) c)) (parse_string (concat (map quote_char s) @ DQ # r))"
    by (rule parse_string_quote_char)
  with Cons show ?case by simp
qed


lemma parse_value_string:
  "parse_value (Suc n) (quote_json s @ r) = Some (JsString s, r)"
  by (simp add: quote_json_def parse_string_quoted del: parse_string.simps)

lemma parse_value_number:
  assumes "safe_rest r"
  shows "parse_value (Suc n) (number_to_string (Finite neg s e) @ r) =
           Some (JsNumber (number_to_string (Finite neg s e)), r)"
proof -
  obtain c cs where d: "number_to_string (Finite neg s e) = c # cs"
    and c: "is_digit c \<or> c = CHR ''-''"
    using number_text_first [of neg s e] by blast
  have "parse_value (Suc n) (c # cs @ r) = map_option (apfst JsNumber) (parse_number (c # cs @ r))"
    using c by (auto simp: is_digit_def)
  then show ?thesis
    using parse_number_text [OF assms, of neg s e] by (simp add: d)
qed

lemma parse_value_null: "parse_value (Suc n) (''null'' @ r) = Some (JsNull, r)"
  by simp

lemma serialize_nonempty:
  "serialize_property v = Inr (Some s) \<Longrightarrow> s \<noteq> [] \<and> hd s \<noteq> CHR '']'' \<and> hd s \<noteq> CHR ''}''"
proof (cases v)
  case (JNum n)
  assume "serialize_property v = Inr (Some s)"
  then show ?thesis
  proof (cases n)
    case (Finite neg m e)
    obtain c cs where "number_to_string (Finite neg m e) = c # cs" "is_digit c \<or> c = CHR ''-''"
      using number_text_first [of neg m e] by blast
    with \<open>serialize_property v = Inr (Some s)\<close> show ?thesis
      by (auto simp: JNum Finite is_digit_def)
  qed (auto simp: JNum)
qed (auto simp: quote_json_def split: sum.splits option.splits if_splits)

lemma length_serialize_elements: "serialize_elements xs = Inr ss \<Longrightarrow> length ss = length xs"
  by (induction xs arbitrary: ss) (auto split: sum.splits)

lemma serialize_members_none: "serialize_members kvs = Inr [] \<Longrightarrow> to_json_members kvs = []"
proof (induction kvs)
  case Nil
  show ?case by simp
next
  case (Cons kv kvs)
  obtain k v where kv: "kv = (k, v)" by (cases kv)
  from Cons.prems have "serialize_property v = Inr None \<and> serialize_members kvs = Inr []"
    by (auto simp: kv split: sum.splits option.splits)
  then show ?case using Cons.IH serialize_undefined [of v] by (simp add: kv)
qed


lemma parse_value_array:
  "t \<noteq> [] \<Longrightarrow> hd t \<noteq> CHR '']'' \<Longrightarrow>
     parse_value (Suc n) (CHR ''['' # t) = map_option (apfst JsArray) (parse_elements n t)"
  by (cases t) auto

lemma parse_value_object:
  "t \<noteq> [] \<Longrightarrow> hd t \<noteq> CHR ''}'' \<Longrightarrow>
     parse_value (Suc n) (CHR ''{'' # t) = map_option (apfst JsObject) (parse_members n t)"
  by (cases t) auto

lemma parse_elements_step:
  "parse_value n t = Some (j, d # r) \<Longrightarrow>
     parse_elements (Suc n) t =
       (if d = CHR '','' then map_option (apfst ((#) j)) (parse_elements n r)
        else if d = CHR '']'' then Some ([j], r)
        else None)"
  by simp

lemma parse_members_step:
  "parse_value n t = Some (j, d # r) \<Longrightarrow>
     parse_members (Suc n) (quote_json k @ CHR '':'' # t) =
       (if d = CHR '','' then map_option (apfst ((#) (k, j))) (parse_members n r)
        else if d = CHR ''}'' then Some ([(k, j)], r)
        else None)"
  by (simp add: quote_json_def parse_string_quoted del: parse_string.simps)

lemma join_str_Cons:
  "join_str sep (x # xs) = (if xs = [] then x else x @ sep @ join_str sep xs)"
  by (cases xs) simp_all

lemma serialize_elements_texts:
  "serialize_elements xs = Inr ss \<Longrightarrow> t \<in> set ss \<Longrightarrow> t \<noteq> [] \<and> hd t \<noteq> CHR '']''"
proof (induction xs arbitrary: ss)
  case Nil
  then show ?case by simp
next
  case (Cons x xs)
  from Cons.prems(1) obtain rx ss' where x: "serialize_property x = Inr rx"
    and xs: "serialize_elements xs = Inr ss'"
    and ss: "ss = (case rx of None \<Rightarrow> ''null'' | Some s \<Rightarrow> s) # ss'"
    by (auto split: sum.splits)
  show ?case
  proof (cases "t \<in> set ss'")
    case True
    with Cons.IH xs show ?thesis by blast
  next
    case False
    with Cons.prems(2) ss have "t = (case rx of None \<Rightarrow> ''null'' | Some s \<Rightarrow> s)" by simp
    then show ?thesis using serialize_nonempty [of x] x by (cases rx) auto
  qed
qed

lemma serialize_members_texts:
  "serialize_members kvs = Inr ms \<Longrightarrow> m \<in> set ms \<Longrightarrow> m \<noteq> [] \<and> hd m = DQ"
proof (induction kvs arbitrary: ms)
  case Nil
  then show ?case by simp
next
  case (Cons kv kvs)
  obtain k v where kv: "kv = (k, v)" by (cases kv)
  from Cons.prems(1) obtain rv ms' where v: "serialize_property v = Inr rv"
    and kvs: "serialize_members kvs = Inr ms'"
    and ms: "ms = (case rv of None \<Rightarrow> [] | Some s \<Rightarrow> [quote_json k @ '':'' @ s]) @ ms'"
    by (auto simp: kv split: sum.splits)
  show ?case
  proof (cases "m \<in> set ms'")
    case True
    with Cons.IH kvs show ?thesis by blast
  next
    case False
    with Cons.prems(2) ms show ?thesis by (cases rv) (auto simp: quote_json_def)
  qed
qed

lemma hd_join_str: "xs \<noteq> [] \<Longrightarrow> hd xs \<noteq> [] \<Longrightarrow> join_str sep xs \<noteq> [] \<and> hd (join_str sep xs) = hd (hd xs)"
  by (cases xs) (auto simp: join_str_Cons)


declare parse_value.simps(2) [simp del] parse_elements.simps(2) [simp del]
  parse_members.simps(2) [simp del] parse_string.simps [simp del]

lemma parse_value_literals:
  "parse_value (Suc n) (''null'' @ r) = Some (JsNull, r)"
  "parse_value (Suc n) (''true'' @ r) = Some (JsBool True, r)"
  "parse_value (Suc n) (''false'' @ r) = Some (JsBool False, r)"
  by (simp_all add: parse_value.simps(2))

lemma parse_scalar:
  assumes "serialize_property v = Inr (Some s)" "safe_rest r"
    and "\<And>xs. v \<noteq> JArray xs" "\<And>kvs. v \<noteq> JObject kvs"
  shows "parse_value (Suc n) (s @ r) = Some (to_json v, r)"
proof (cases v)
  case (JNum x)
  show ?thesis
  proof (cases x)
    case (Finite neg m e)
    with assms(1) JNum have "s = number_to_string (Finite neg m e)" by simp
    then show ?thesis using parse_value_number [OF assms(2), of n neg m e] by (simp add: JNum Finite)
  qed (use assms JNum in \<open>auto simp: parse_value_literals simp del: append.simps\<close>)
next
  case (JDate tv)
  with assms show ?thesis
    by (cases tv) (auto simp: parse_value_literals parse_value_string simp del: append.simps)
next
  case (JBool b)
  with assms show ?thesis
    by (cases b) (auto simp: parse_value_literals simp del: append.simps)
qed (use assms in \<open>auto simp: parse_value_literals parse_value_string simp del: append.simps\<close>)

lemma parse_serialized:
  "serialize_property v = Inr (Some s) \<Longrightarrow> length s \<le> n \<Longrightarrow> safe_rest r \<Longrightarrow>
     parse_value n (s @ r) = Some (to_json v, r)"
  "serialize_elements xs = Inr ss \<Longrightarrow> xs \<noteq> [] \<Longrightarrow> length (join_str '','' ss) < n \<Longrightarrow>
     parse_elements n (join_str '','' ss @ CHR '']'' # r) = Some (to_json_elements xs, r)"
  "serialize_members kvs = Inr ms \<Longrightarrow> ms \<noteq> [] \<Longrightarrow> length (join_str '','' ms) < n \<Longrightarrow>
     parse_members n (join_str '','' ms @ CHR ''}'' # r) = Some (to_json_members kvs, r)"
proof (induction v and xs and kvs arbitrary: s n r and ss n r and ms n r
    rule: serialize_property_serialize_elements_serialize_members.induct)
  case (7 xs)
  from "7.prems"(1) obtain ss where ss: "serialize_elements xs = Inr ss"
    and s: "s = CHR ''['' # join_str '','' ss @ '']''"
    by (auto split: sum.splits)
  from "7.prems"(2) s obtain n' where n: "n = Suc n'" by (cases n) auto
  show ?case
  proof (cases "xs = []")
    case True
    with ss have "ss = []" by simp
    then show ?thesis by (simp add: s n True parse_value.simps(2))
  next
    case False
    then have ne: "ss \<noteq> []" using length_serialize_elements [OF ss] by auto
    then have "hd ss \<in> set ss" by simp
    then have "hd ss \<noteq> [] \<and> hd (hd ss) \<noteq> CHR '']''"
      using serialize_elements_texts [OF ss] by blast
    then have j: "join_str '','' ss \<noteq> [] \<and> hd (join_str '','' ss) \<noteq> CHR '']''"
      using hd_join_str [OF ne, of "'',''"] by simp
    have len: "length (join_str '','' ss) < n'" using "7.prems"(2) by (simp add: s n)
    have "parse_value (Suc n') (CHR ''['' # (join_str '','' ss @ CHR '']'' # r)) =
          map_option (apfst JsArray) (parse_elements n' (join_str '','' ss @ CHR '']'' # r))"
      using j by (intro parse_value_array) (auto simp: hd_append)
    also have "\<dots> = Some (JsArray (to_json_elements xs), r)"
      using "7.IH" [OF ss False len] by simp
    finally show ?thesis by (simp add: s n)
  qed
next
  case (8 kvs)
  from "8.prems"(1) obtain ms where ms: "serialize_members kvs = Inr ms"
    and s: "s = CHR ''{'' # join_str '','' ms @ ''}''"
    by (auto split: sum.splits)
  from "8.prems"(2) s obtain n' where n: "n = Suc n'" by (cases n) auto
  show ?case
  proof (cases "ms = []")
    case True
    then show ?thesis
      using serialize_members_none [of kvs] ms by (simp add: s n parse_value.simps(2))
  next
    case False
    then have "hd ms \<in> set ms" by simp
    then have "hd ms \<noteq> [] \<and> hd (hd ms) = DQ"
      using serialize_members_texts [OF ms] by blast
    then have j: "join_str '','' ms \<noteq> [] \<and> hd (join_str '','' ms) \<noteq> CHR ''}''"
      using hd_join_str [OF False, of "'',''"] by simp
    have len: "length (join_str '','' ms) < n'" using "8.prems"(2) by (simp add: s n)
    have "parse_value (Suc n') (CHR ''{'' # (join_str '','' ms @ CHR ''}'' # r)) =
          map_option (apfst JsObject) (parse_members n' (join_str '','' ms @ CHR ''}'' # r))"
      using j by (intro parse_value_object) (auto simp: hd_append)
    also have "\<dots> = Some (JsObject (to_json_members kvs), r)"
      using "8.IH" [OF ms False len] by simp
    finally show ?thesis by (simp add: s n)
  qed
next
  case (11 x xs)
  from "11.prems"(1) obtain rx ss' where x: "serialize_property x = Inr rx"
    and xs: "serialize_elements xs = Inr ss'"
    and ss: "ss = (case rx of None \<Rightarrow> ''null'' | Some s \<Rightarrow> s) # ss'"
    by (auto split: sum.splits)
  let ?t = "case rx of None \<Rightarrow> ''null'' | Some s \<Rightarrow> s"
  let ?rest = "if xs = [] then CHR '']'' # r else CHR '','' # join_str '','' ss' @ CHR '']'' # r"
  from "11.prems"(3) obtain n' where n: "n = Suc n'" by (cases n) auto
  have empty: "ss' = [] \<longleftrightarrow> xs = []" using length_serialize_elements [OF xs] by auto
  have shape: "join_str '','' ss @ CHR '']'' # r = ?t @ ?rest"
    by (simp add: ss join_str_Cons empty)
  have lt: "length ?t \<le> n'" using "11.prems"(3) by (simp add: ss n join_str_Cons split: if_splits)
  have safe: "safe_rest ?rest" by (simp add: safe_rest_def is_digit_def)
  have pv: "parse_value n' (?t @ ?rest) = Some (to_json x, ?rest)"
  proof (cases rx)
    case None
    then have "x = JUndefined" using serialize_undefined x by blast
    moreover from lt None obtain m where "n' = Suc m" by (cases n') auto
    ultimately show ?thesis using None by (simp add: parse_value_literals del: append.simps)
  next
    case (Some sx)
    then show ?thesis using "11.IH"(1) [of sx n' ?rest] x lt safe by simp
  qed
  show ?case
  proof (cases "xs = []")
    case True
    then have "parse_value n' (?t @ ?rest) = Some (to_json x, CHR '']'' # r)" using pv by simp
    then have "parse_elements (Suc n') (?t @ ?rest) = Some ([to_json x], r)"
      by (simp add: parse_elements_step)
    then show ?thesis by (simp add: shape n True)
  next
    case False
    have len: "length (join_str '','' ss') < n'"
      using "11.prems"(3) False by (simp add: ss n join_str_Cons empty)
    from False have "parse_value n' (?t @ ?rest) = Some (to_json x, CHR '','' # join_str '','' ss' @ CHR '']'' # r)"
      using pv by simp
    then have "parse_elements (Suc n') (?t @ ?rest) =
        map_option (apfst ((#) (to_json x))) (parse_elements n' (join_str '','' ss' @ CHR '']'' # r))"
      by (simp add: parse_elements_step)
    also have "\<dots> = Some (to_json x # to_json_elements xs, r)"
      using "11.IH"(2) [OF x xs False len] by simp
    finally show ?thesis by (simp add: shape n)
  qed
next
  case (13 k v kvs)
  from "13.prems"(1) obtain rv ms' where v: "serialize_property v = Inr rv"
    and kvs: "serialize_members kvs = Inr ms'"
    and ms: "ms = (case rv of None \<Rightarrow> [] | Some s \<Rightarrow> [quote_json k @ '':'' @ s]) @ ms'"
    by (auto split: sum.splits)
  show ?case
  proof (cases rv)
    case None
    then have "v = JUndefined" using serialize_undefined v by blast
    moreover have "ms = ms'" using ms None by simp
    ultimately show ?thesis
      using "13.IH"(2) [OF v kvs, of n r] "13.prems" by simp
  next
    case (Some sv)
    then have vdef: "v \<noteq> JUndefined" using v by auto
    let ?rest = "if ms' = [] then CHR ''}'' # r else CHR '','' # join_str '','' ms' @ CHR ''}'' # r"
    from "13.prems"(3) obtain n' where n: "n = Suc n'" by (cases n) auto
    have msC: "ms = (quote_json k @ '':'' @ sv) # ms'" using ms Some by simp
    have shape: "join_str '','' ms @ CHR ''}'' # r = quote_json k @ CHR '':'' # (sv @ ?rest)"
      by (simp add: msC join_str_Cons)
    have lt: "length sv \<le> n'" using "13.prems"(3) by (simp add: msC n join_str_Cons split: if_splits)
    have safe: "safe_rest ?rest" by (simp add: safe_rest_def is_digit_def)
    have pv: "parse_value n' (sv @ ?rest) = Some (to_json v, ?rest)"
      using "13.IH"(1) [of sv n' ?rest] v Some lt safe by simp
    show ?thesis
    proof (cases "ms' = []")
      case True
      then have "parse_value n' (sv @ ?rest) = Some (to_json v, CHR ''}'' # r)" using pv by simp
      then have "parse_members (Suc n') (quote_json k @ CHR '':'' # (sv @ ?rest)) = Some ([(k, to_json v)], r)"
        by (simp add: parse_members_step)
      moreover have "to_json_members kvs = []"
        using serialize_members_none kvs True by blast
      ultimately show ?thesis using vdef by (simp add: shape n)
    next
      case False
      have len: "length (join_str '','' ms') < n'"
        using "13.prems"(3) False by (simp add: msC n join_str_Cons)
      from False have "parse_value n' (sv @ ?rest) =
          Some (to_json v, CHR '','' # join_str '','' ms' @ CHR ''}'' # r)"
        using pv by simp
      then have "parse_members (Suc n') (quote_json k @ CHR '':'' # (sv @ ?rest)) =
          map_option (apfst ((#) (k, to_json v))) (parse_members n' (join_str '','' ms' @ CHR ''}'' # r))"
        by (simp add: parse_members_step)
      also have "\<dots> = Some ((k, to_json v) # to_json_members kvs, r)"
        using "13.IH"(2) [OF v kvs False len] by simp
      finally show ?thesis using vdef by (simp add: shape n)
    qed
  qed
next
  case 9
  then show ?case by simp
next
  case 10
  then show ?case by simp
next
  case 12
  then show ?case by simp
next
  case 1
  then show ?case by simp
next
  case 2
  from "2.prems" obtain n' where "n = Suc n'" by (cases n) auto
  with "2.prems" show ?case using parse_scalar [of JNull s r n'] by simp
next
  case (3 b)
  from "3.prems" obtain n' where "n = Suc n'" by (cases n) (auto split: if_splits)
  with "3.prems" show ?case using parse_scalar [of "JBool b" s r n'] by simp
next
  case (4 x)
  from "4.prems" serialize_nonempty [of "JNum x" s] obtain n' where "n = Suc n'" by (cases n) auto
  with "4.prems" show ?case using parse_scalar [of "JNum x" s r n'] by simp
next
  case (5 str)
  from "5.prems" serialize_nonempty [of "JStr str" s] obtain n' where "n = Suc n'" by (cases n) auto
  with "5.prems" show ?case using parse_scalar [of "JStr str" s r n'] by simp
next
  case (6 tv)
  from "6.prems" serialize_nonempty [of "JDate tv" s] obtain n' where "n = Suc n'" by (cases n) auto
  with "6.prems" show ?case using parse_scalar [of "JDate tv" s r n'] by simp
qed


lemma to_json_elements_map: "to_json_elements xs = map to_json xs"
  by (induction xs) simp_all

lemma JSON_parse_serialized:
  assumes "serialize_property v = Inr (Some s)"
  shows "JSON_parse s = Some (to_json v)"
proof -
  have "parse_value (length s) (s @ []) = Some (to_json v, [])"
    using assms by (intro parse_serialized(1)) (simp_all add: safe_rest_def)
  then show ?thesis by (simp add: JSON_parse_def)
qed

section \<open>The value normalizer\<close>

lemma circular_nested: "circular v \<Longrightarrow> nested_structure v"
  by (cases v) auto

lemma prepareValue_nested:
  "nested_structure v \<Longrightarrow>
     prepareValue (Data v) =
       (case JSON_stringify v of Inl e \<Rightarrow> Inl e | Inr None \<Rightarrow> Inl TypeError | Inr (Some s) \<Rightarrow> Inr s)"
  by (cases v) (simp_all add: stringify_object_def)

lemma prepareValue_circular: "field_circular f \<Longrightarrow> prepareValue f = Inl TypeError"
proof (cases f)
  case (Data v)
  assume "field_circular f"
  with Data have "circular v" by simp
  then show ?thesis
    by (simp add: Data prepareValue_nested circular_nested JSON_stringify_def serialize_circular)
qed simp

lemma prepareValue_acyclic:
  assumes "nested_structure v" "\<not> circular v"
  shows "\<exists>s. prepareValue (Data v) = Inr s \<and> JSON_stringify v = Inr (Some s) \<and>
              JSON_parse s = Some (to_json v)"
proof -
  from assms have "v \<noteq> JUndefined" by auto
  with assms(2) obtain s where s: "serialize_property v = Inr (Some s)"
    using serialize_acyclic by blast
  then have "JSON_parse s = Some (to_json v)" by (rule JSON_parse_serialized)
  with s show ?thesis
    by (simp add: prepareValue_nested assms(1) JSON_stringify_def)
qed

lemma prepareValue_succeeds_iff:
  "(\<exists>s. prepareValue f = Inr s) = (f \<noteq> Data (JDate None) \<and> \<not> field_circular f)"
proof (cases f)
  case (Builtin name)
  then show ?thesis by simp
next
  case (Data v)
  show ?thesis
  proof (cases "nested_structure v")
    case True
    then have "v \<noteq> JDate None" by auto
    then show ?thesis
      using prepareValue_acyclic [OF True] prepareValue_circular [of f]
      by (auto simp: Data)
  next
    case False
    then have "\<not> circular v" using circular_nested by blast
    with False show ?thesis
      by (cases v) (auto simp: Data toISOString_def split: option.splits)
  qed
qed

lemma digit_char_not_sign: "digit_char n \<noteq> CHR ''+''" "digit_char n \<noteq> CHR ''-''"
  using is_digit_digit_char [of n] by (auto simp: is_digit_def)

lemma is_iso8601_iso_string: "is_iso8601 (iso_string t)"
proof -
  obtain y m d where c: "civil_from_days (t div 86400000) = (y, m, d)"
    by (cases "civil_from_days (t div 86400000)") auto
  show ?thesis
    unfolding iso_string_def c
    by (simp add: iso_year_def iso_time_def pad2_def pad3_def pad4_def pad6_def
          is_iso8601_def iso_tail_def is_digit_digit_char digit_char_not_sign)
qed

text \<open>
  C6 (as amended).  The normalizer returns the empty string for null and for undefined,
  hence for a projected source field that the row lacks, unless the name is that of a
  member of \<open>Object.prototype\<close>: that member is then what is read, and a built-in
  method is returned as its source text.  It returns the ISO-8601 string of a valid
  timestamp; the \<open>JSON.stringify\<close> text of an array or object free of circular
  references, which parses back to the value; a string as it is; \<open>true\<close> or
  \<open>false\<close>; and the decimal text of a number, which for an integral value below
  \<open>10^21\<close> is its decimal numeral and in every case is a number that a JSON parser
  reads whole.  It is not total: it raises a RangeError on an invalid timestamp and a
  TypeError on a circular structure, and it returns a string in every other case.
\<close>

theorem prepareValue_normalizes:
  "prepareValue (Data JNull) = Inr [] \<and>
   prepareValue (Data JUndefined) = Inr [] \<and>
   (map_of chunk k = None \<and> inherited k = None \<longrightarrow> prepareValue (row_get chunk k) = Inr []) \<and>
   (map_of chunk m = None \<and> inherited m = Some (Builtin name) \<longrightarrow>
      prepareValue (row_get chunk m) = Inr (''function '' @ name @ ''() { [native code] }'')) \<and>
   prepareValue (Data (JDate (Some t))) = Inr (iso_string t) \<and> is_iso8601 (iso_string t) \<and>
   prepareValue (Data (JDate None)) = Inl RangeError \<and>
   (nested_structure v \<and> \<not> circular v \<longrightarrow>
      (\<exists>s. prepareValue (Data v) = Inr s \<and> JSON_stringify v = Inr (Some s) \<and>
            JSON_parse s = Some (to_json v))) \<and>
   (field_circular f \<longrightarrow> prepareValue f = Inl TypeError) \<and>
   prepareValue (Data (JStr s)) = Inr s \<and>
   prepareValue (Data (JBool b)) = Inr (if b then ''true'' else ''false'') \<and>
   (length (dec_nat (nat \<bar>i\<bar>)) \<le> 21 \<longrightarrow>
      prepareValue (Data (JNum (int_number i))) = Inr ((if i < 0 then ''-'' else []) @ dec_nat (nat \<bar>i\<bar>)) \<and>
      dec_value (dec_nat (nat \<bar>i\<bar>)) = \<bar>i\<bar>) \<and>
   prepareValue (Data (JNum (Finite neg digits e))) = Inr (number_to_string (Finite neg digits e)) \<and>
   parse_number (number_to_string (Finite neg digits e)) =
     Some (number_to_string (Finite neg digits e), []) \<and>
   ((\<exists>s. prepareValue w = Inr s) \<longleftrightarrow> (w \<noteq> Data (JDate None) \<and> \<not> field_circular w))"
proof -
  have scalars: "prepareValue (Data JNull) = Inr []" "prepareValue (Data JUndefined) = Inr []"
    "prepareValue (Data (JDate (Some t))) = Inr (iso_string t)"
    "prepareValue (Data (JDate None)) = Inl RangeError"
    "prepareValue (Data (JStr s)) = Inr s"
    "prepareValue (Data (JBool b)) = Inr (if b then ''true'' else ''false'')"
    "prepareValue (Data (JNum (Finite neg digits e))) = Inr (number_to_string (Finite neg digits e))"
    by (simp_all add: toISOString_def)
  have missing: "map_of chunk k = None \<and> inherited k = None \<longrightarrow> prepareValue (row_get chunk k) = Inr []"
    by (simp add: row_get_def)
  have member: "map_of chunk m = None \<and> inherited m = Some (Builtin name) \<longrightarrow>
      prepareValue (row_get chunk m) = Inr (''function '' @ name @ ''() { [native code] }'')"
    by (simp add: row_get_def function_text_def)
  have whole: "length (dec_nat (nat \<bar>i\<bar>)) \<le> 21 \<longrightarrow>
      prepareValue (Data (JNum (int_number i))) = Inr ((if i < 0 then ''-'' else []) @ dec_nat (nat \<bar>i\<bar>)) \<and>
      dec_value (dec_nat (nat \<bar>i\<bar>)) = \<bar>i\<bar>"
    using number_to_string_int [of i] by (simp add: dec_value_dec_nat)
  have reads: "parse_number (number_to_string (Finite neg digits e)) =
     Some (number_to_string (Finite neg digits e), [])"
    using parse_number_text [of "[]" neg digits e] by (simp add: safe_rest_def)
  show ?thesis
    using scalars missing member whole reads is_iso8601_iso_string [of t] prepareValue_acyclic [of v]
      prepareValue_circular [of f] prepareValue_succeeds_iff [of w]
    by blast
qed

theorem prepareValue_normalizes_witness:
  \<open>prepareValue (row_get [(''id'', JNum (int_number 7))] ''name'') = Inr [] \<and>
   prepareValue (row_get [(''id'', JNum (int_number 7))] ''valueOf'') =
     Inr ''function valueOf() { [native code] }'' \<and>
   prepareValue (Data (JObject [(''tag'', JStr ''test''), (''index'', JNum (int_number 12))])) =
     Inr ''{"tag":"test","index":12}'' \<and>
   JSON_parse ''{"tag":"test","index":12}'' =
     Some (JsObject [(''tag'', JsString ''test''), (''index'', JsNumber ''12'')]) \<and>
   prepareValue (Data (JObject [(''self'', JCycle)])) = Inl TypeError \<and>
   prepareValue (Data (JNum (int_number (- 40)))) = Inr ''-40'' \<and>
   prepareValue (Data (JNum (Finite False 15 0))) = Inr ''0.15'' \<and>
   prepareValue (Data (JNum (Finite False 1152921504606847 19))) = Inr ''1152921504606847000'' \<and>
   prepareValue (Data (JNum (Finite True 1 (- 6)))) = Inr ''-1e-7'' \<and>
   prepareValue (Data (JNum (Finite False 125 22))) = Inr ''1.25e+21'' \<and>
   prepareValue (Data (JDate (Some 951782400000))) = Inr ''2000-02-29T00:00:00.000Z''\<close>
  using prepareValue_normalizes [where chunk = "[(''id'', JNum (int_number 7))]" and k = "''name''"
      and m = "''valueOf''" and name = "''valueOf''"
      and v = "JObject [(''tag'', JStr ''test''), (''index'', JNum (int_number 12))]"
      and t = 951782400000 and i = "- 40" and f = "Data (JObject [(''self'', JCycle)])"
      and w = "Data (JObject [(''self'', JCycle)])"]
  by (simp add: inherited_def row_get_def function_text_def JSON_stringify_def quote_json_def
        quote_char_def number_to_string.simps int_number_def decimal_text_def strip_zeros.simps
        replicate_unfold dec_nat.simps digit_char_def stringify_object_def
        iso_string_def civil_from_days_def civil_of_era_def civil_of_year_def civil_of_month_def
        iso_time_def iso_year_def pad2_def pad3_def pad4_def)

text \<open>
  C6 (as stated) fails.  On an object that refers back to itself the normalizer raises
  instead of returning a string; and for a projected source field named \<open>toString\<close>
  that the row lacks it returns the text of the inherited method, not the empty string.
\<close>

theorem prepareValue_raises_on_circular:
  "prepareValue (Data (JObject [(''self'', JCycle)])) = Inl TypeError \<and>
   map_of [(''id'', JNull)] ''toString'' = None \<and>
   prepareValue (row_get [(''id'', JNull)] ''toString'') = Inr ''function toString() { [native code] }''"
  by (simp add: stringify_object_def JSON_stringify_def row_get_def inherited_def function_text_def)

section \<open>Whole exports\<close>

lemma feed_append:
  "feed tr s (xs @ ys) =
     (case feed tr s xs of
        (outs, Inl e) \<Rightarrow> (outs, Inl e)
      | (outs, Inr s') \<Rightarrow> (case feed tr s' ys of (outs', res) \<Rightarrow> (outs @ outs', res)))"
  by (induction xs arbitrary: s) (auto split: sum.splits prod.splits)

lemma feed_stateless:
  "(\<And>r. r \<in> set rows \<Longrightarrow> tr s r = Inr (s, [f r])) \<Longrightarrow> feed tr s rows = (map f rows, Inr s)"
  by (induction rows) auto

lemma prepareValue_normalized: "normalizable v \<Longrightarrow> prepareValue v = Inr (normalized v)"
  using prepareValue_succeeds_iff [of v] by (auto simp: normalizable_def normalized_def)

lemma prepareValue_not_normalizable: "\<not> normalizable v \<Longrightarrow> isl (prepareValue v)"
  using prepareValue_succeeds_iff [of v] by (cases "prepareValue v") (auto simp: normalizable_def)

lemma map_result_prepareValue:
  "row_normalizable cols chunk \<Longrightarrow>
     map_result (\<lambda>col. prepareValue (row_get chunk (source col))) cols =
       Inr (map (\<lambda>col. normalized (row_get chunk (source col))) cols)"
  by (rule map_result_all) (simp add: row_normalizable_def list_all_iff prepareValue_normalized)

lemma CSV_transform_line:
  "row_normalizable (columns this) chunk \<Longrightarrow>
     CSV_transform this chunk = Inr (this, [CSV_line (columns this) chunk])"
  by (simp add: CSV_transform_fields map_result_prepareValue CSV_line_def comp_def)

lemma XML_transform_record:
  "row_normalizable (columns this) chunk \<Longrightarrow>
     XML_transform this chunk = Inr (this, [XML_record (columns this) chunk])"
  by (simp add: XML_transform_elements map_result_prepareValue XML_record_def zip_map2 comp_def
        zip_same_conv_map split_def)

lemma XML_transform_isl:
  "isl (XML_transform this chunk) = (\<not> row_normalizable (columns this) chunk)"
proof (cases "row_normalizable (columns this) chunk")
  case True
  then show ?thesis by (simp add: XML_transform_record)
next
  case False
  then obtain col where "col \<in> set (columns this)" "\<not> normalizable (row_get chunk (source col))"
    by (auto simp: row_normalizable_def list_all_iff)
  then have "isl (map_result (\<lambda>col. prepareValue (row_get chunk (source col))) (columns this))"
    using prepareValue_not_normalizable by (auto simp: map_result_isl)
  with False show ?thesis by (auto simp: XML_transform_elements split: sum.splits)
qed

lemma CSV_transform_isl_normalizable:
  "isl (CSV_transform this chunk) = (\<not> row_normalizable (columns this) chunk)"
  using prepareValue_not_normalizable prepareValue_normalized
  by (fastforce simp: CSV_transform_isl row_normalizable_def list_all_iff)

subsection \<open>The object that the structured-document encoder serializes\<close>

lemma serialize_output_data: "serialize_output entries = serialize_members (data_members entries)"
  by (induction entries rule: data_members.induct) (simp_all split: sum.splits)

lemma fold_js_set_ordinary:
  "(\<And>col. col \<in> set cols \<Longrightarrow> target col \<noteq> ''__proto__'') \<Longrightarrow>
     fold (\<lambda>col obj. js_set obj (target col) (f col)) cols obj =
       obj\<lparr>own := fold (\<lambda>col al. AList.update (target col) (f col) al) cols (own obj)\<rparr>"
  by (induction cols arbitrary: obj) (simp_all add: js_set_def)

lemma JSON_output_ordinary:
  "ordinary_targets cols \<Longrightarrow>
     JSON_output cols chunk =
       \<lparr>own = fold (\<lambda>col al. AList.update (target col) (row_get chunk (source col)) al) cols [],
        prototype = None\<rparr>"
  unfolding JSON_output_def
  by (subst fold_js_set_ordinary) (simp_all add: ordinary_targets_def empty_object_def)

lemma ordinary_targets_toJSON: "ordinary_targets cols \<Longrightarrow> \<not> inherits_toJSON (JSON_output cols chunk)"
  by (simp add: JSON_output_ordinary inherits_toJSON_def)

lemma JSON_stringify_row_object:
  "JSON_stringify (JSON_row_object cols chunk) =
     (if circular (JSON_row_object cols chunk) then Inl TypeError
      else Inr (Some (JSON_text cols chunk)))"
proof (cases "circular (JSON_row_object cols chunk)")
  case True
  then show ?thesis by (simp add: JSON_stringify_def serialize_circular)
next
  case False
  have "JSON_row_object cols chunk \<noteq> JUndefined" by (simp add: JSON_row_object_def)
  with False obtain s where "serialize_property (JSON_row_object cols chunk) = Inr (Some s)"
    using serialize_acyclic by blast
  with False show ?thesis by (simp add: JSON_stringify_def JSON_text_def)
qed

lemma JSON_stringify_output_row_object:
  "JSON_stringify_output (JSON_output cols chunk) =
     (if inherits_toJSON (JSON_output cols chunk) \<or> circular (JSON_row_object cols chunk)
      then Inl TypeError
      else Inr (JSON_text cols chunk))"
proof -
  have "(case serialize_output (own_entries (own (JSON_output cols chunk))) of
           Inl e \<Rightarrow> Inl e
         | Inr ms \<Rightarrow> Inr (''{'' @ join_str '','' ms @ ''}'')) =
        (case JSON_stringify (JSON_row_object cols chunk) of
           Inl e \<Rightarrow> Inl e
         | Inr r \<Rightarrow> Inr (case r of None \<Rightarrow> [] | Some s \<Rightarrow> s))"
    by (simp add: JSON_stringify_def JSON_row_object_def serialize_output_data split: sum.splits)
  then show ?thesis
    by (simp add: JSON_stringify_output_def JSON_stringify_row_object)
qed

lemma JSON_transform_outcome:
  "JSON_transform this chunk =
     (if inherits_toJSON (JSON_output (columns this) chunk) \<or>
         circular (JSON_row_object (columns this) chunk)
      then Inl TypeError
      else Inr (this\<lparr>isFirst := False\<rparr>,
                [(if isFirst this then [] else '','') @ JSON_text (columns this) chunk]))"
  by (simp add: JSON_transform_def JSON_stringify_output_row_object Let_def)

lemma JSON_transform_text:
  "ordinary_targets (columns this) \<Longrightarrow>
   JSON_transform this chunk =
     (if circular (JSON_row_object (columns this) chunk) then Inl TypeError
      else Inr (this\<lparr>isFirst := False\<rparr>,
                [(if isFirst this then [] else '','') @ JSON_text (columns this) chunk]))"
  by (simp add: JSON_transform_outcome ordinary_targets_toJSON)

lemma feed_JSON:
  "ordinary_targets (columns this) \<Longrightarrow>
   (\<And>r. r \<in> set rows \<Longrightarrow> \<not> circular (JSON_row_object (columns this) r)) \<Longrightarrow>
     feed JSON_transform this rows =
       (JSON_frames (isFirst this) (map (JSON_text (columns this)) rows),
        Inr (if rows = [] then this else this\<lparr>isFirst := False\<rparr>))"
proof (induction rows arbitrary: this)
  case Nil
  show ?case by simp
next
  case (Cons r rows)
  have "feed JSON_transform (this\<lparr>isFirst := False\<rparr>) rows =
       (JSON_frames False (map (JSON_text (columns this)) rows),
        Inr (if rows = [] then this\<lparr>isFirst := False\<rparr> else this\<lparr>isFirst := False\<rparr>))"
    using Cons.IH [of "this\<lparr>isFirst := False\<rparr>"] Cons.prems by simp
  moreover have "JSON_transform this r =
      Inr (this\<lparr>isFirst := False\<rparr>,
           [(if isFirst this then [] else '','') @ JSON_text (columns this) r])"
    using Cons.prems by (simp add: JSON_transform_text [of this r])
  ultimately show ?case by simp
qed


lemma JSON_export_ok:
  assumes "ordinary_targets cols"
    and "\<And>r. r \<in> set rows \<Longrightarrow> \<not> circular (JSON_row_object cols r)"
  shows "JSON_export cols rows =
           ([''[''] @ JSON_frames True (map (JSON_text cols) rows) @ ['']''], None)"
  using feed_JSON [of "fst (JSON_new cols)" rows] assms
  by (simp add: JSON_export_def run_formatter_def JSON_new_def JSON_flush_def)

lemma JSON_export_fails:
  assumes "ordinary_targets cols"
    and "\<And>r. r \<in> set pre \<Longrightarrow> \<not> circular (JSON_row_object cols r)"
    and "circular (JSON_row_object cols bad)"
  shows "JSON_export cols (pre @ bad # post) =
           ([''[''] @ JSON_frames True (map (JSON_text cols) pre), Some TypeError)"
proof -
  let ?s = "fst (JSON_new cols)"
  have cols: "columns ?s = cols" by (simp add: JSON_new_def)
  have pre: "feed JSON_transform ?s pre =
       (JSON_frames True (map (JSON_text cols) pre),
        Inr (if pre = [] then ?s else ?s\<lparr>isFirst := False\<rparr>))"
    using feed_JSON [of ?s pre] assms(1,2) by (simp add: JSON_new_def)
  have bad: "JSON_transform (if pre = [] then ?s else ?s\<lparr>isFirst := False\<rparr>) bad = Inl TypeError"
    using assms(3) cols
    by (simp add: JSON_transform_outcome [of _ bad])
  have "feed JSON_transform ?s (pre @ bad # post) =
          (JSON_frames True (map (JSON_text cols) pre), Inl TypeError)"
    unfolding feed_append pre using bad by simp
  then show ?thesis
    by (simp add: JSON_export_def run_formatter_def JSON_new_def)
qed

lemma CSV_export_ok:
  assumes "\<And>r. r \<in> set rows \<Longrightarrow> row_normalizable cols r"
  shows "CSV_export cols rows =
           ([join_str '','' (map target cols) @ [NL]] @ map (CSV_line cols) rows, None)"
  using feed_stateless [of rows CSV_transform "fst (CSV_new cols)" "CSV_line cols"] assms
  by (simp add: CSV_export_def run_formatter_def CSV_new_def CSV_flush_def CSV_transform_line)


section \<open>The object serialized for a row\<close>

lemma update_fresh: "k \<notin> fst ` set al \<Longrightarrow> AList.update k v al = al @ [(k, v)]"
  by (induction al) auto

lemma fold_update_distinct:
  "distinct (map target cols) \<Longrightarrow>
     fold (\<lambda>col al. AList.update (target col) (f col) al) cols [] = map (\<lambda>col. (target col, f col)) cols"
proof (induction cols rule: rev_induct)
  case Nil
  show ?case by simp
next
  case (snoc c cs)
  then have ih: "fold (\<lambda>col al. AList.update (target col) (f col) al) cs [] =
      map (\<lambda>col. (target col, f col)) cs"
    by simp
  have fresh: "target c \<notin> fst ` set (map (\<lambda>col. (target col, f col)) cs)"
    using snoc.prems by auto
  show ?case
    using update_fresh [OF fresh, of "f c"] by (simp add: ih)
qed

lemma JSON_output_distinct:
  "ordinary_targets cols \<Longrightarrow> distinct (map target cols) \<Longrightarrow>
     own (JSON_output cols chunk) = map (\<lambda>col. (target col, row_get chunk (source col))) cols"
  by (simp add: JSON_output_ordinary fold_update_distinct)

lemma set_own_entries: "set (own_entries obj) = set obj"
  by (auto simp: own_entries_def)

lemma circular_data_members:
  "circular_members (data_members entries) = (\<exists>kv\<in>set entries. field_circular (snd kv))"
  by (induction entries rule: data_members.induct) simp_all

lemma circular_row_object:
  "circular (JSON_row_object cols chunk) =
     (\<exists>kv\<in>set (own (JSON_output cols chunk)). field_circular (snd kv))"
  by (simp add: JSON_row_object_def circular_data_members set_own_entries)

lemma circular_row_object_distinct:
  "ordinary_targets cols \<Longrightarrow> distinct (map target cols) \<Longrightarrow>
     circular (JSON_row_object cols chunk) =
       (\<exists>col\<in>set cols. field_circular (row_get chunk (source col)))"
  by (simp add: circular_row_object JSON_output_distinct)

text \<open>Unfolding everything the structured-document encoder computes on a concrete row.\<close>

lemmas eval_defs = JSON_export_def run_formatter_def JSON_new_def JSON_flush_def JSON_transform_def
  JSON_output_def JSON_stringify_output_def inherits_toJSON_def js_set_def empty_object_def
  row_get_def inherited_def own_entries_def is_array_index_def is_digit_def
  JSON_stringify_def quote_json_def quote_char_def number_to_string.simps int_number_def
  decimal_text_def strip_zeros.simps replicate_unfold dec_nat.simps digit_char_def
  JSON_row_object_def JSON_text_def ordinary_targets_def Let_def

section \<open>Rows the structured-document encoder cannot represent\<close>

text \<open>
  C3 (as amended).  For target names other than \<open>__proto__\<close> and \<open>toJSON\<close>, the
  structured-document encoder fails on a row exactly when the object it builds for the
  row is circular (with distinct target names: when a projected value is circular); the
  error is the serializer's TypeError, no chunk is pushed for the row, and the export ends
  there with no closing token.  Nothing else makes it fail: a non-finite number and an
  invalid timestamp are written as \<open>null\<close>, without an error.
\<close>

theorem JSON_transform_fails_iff_circular:
  "(ordinary_targets (columns this) \<longrightarrow>
      (JSON_transform this chunk = Inl TypeError \<longleftrightarrow> circular (JSON_row_object (columns this) chunk))) \<and>
   (JSON_transform this chunk = Inl e \<longrightarrow> e = TypeError) \<and>
   (\<not> circular (JSON_row_object (columns this) chunk) \<longrightarrow>
      JSON_stringify (JSON_row_object (columns this) chunk) = Inr (Some (JSON_text (columns this) chunk))) \<and>
   (ordinary_targets (columns this) \<and> \<not> circular (JSON_row_object (columns this) chunk) \<longrightarrow>
      JSON_transform this chunk =
        Inr (this\<lparr>isFirst := False\<rparr>,
             [(if isFirst this then [] else '','') @ JSON_text (columns this) chunk])) \<and>
   (ordinary_targets cols \<and>
    (\<forall>r\<in>set pre. \<not> circular (JSON_row_object cols r)) \<and> circular (JSON_row_object cols bad) \<longrightarrow>
      JSON_export cols (pre @ bad # post) =
        ([''[''] @ JSON_frames True (map (JSON_text cols) pre), Some TypeError)) \<and>
   (ordinary_targets cols \<and> distinct (map target cols) \<longrightarrow>
      circular (JSON_row_object cols r) = (\<exists>col\<in>set cols. field_circular (row_get r (source col)))) \<and>
   JSON_stringify (JNum NaN) = Inr (Some ''null'') \<and>
   JSON_stringify (JNum PosInfinity) = Inr (Some ''null'') \<and>
   JSON_stringify (JNum NegInfinity) = Inr (Some ''null'') \<and>
   JSON_stringify (JDate None) = Inr (Some ''null'')"
proof -
  have a: "ordinary_targets (columns this) \<longrightarrow>
      (JSON_transform this chunk = Inl TypeError \<longleftrightarrow> circular (JSON_row_object (columns this) chunk))"
    by (simp add: JSON_transform_text)
  have b: "JSON_transform this chunk = Inl e \<longrightarrow> e = TypeError"
    by (simp add: JSON_transform_outcome split: if_splits)
  have c: "\<not> circular (JSON_row_object (columns this) chunk) \<longrightarrow>
      JSON_stringify (JSON_row_object (columns this) chunk) = Inr (Some (JSON_text (columns this) chunk))"
    by (simp add: JSON_stringify_row_object)
  have c': "ordinary_targets (columns this) \<and> \<not> circular (JSON_row_object (columns this) chunk) \<longrightarrow>
      JSON_transform this chunk =
        Inr (this\<lparr>isFirst := False\<rparr>,
             [(if isFirst this then [] else '','') @ JSON_text (columns this) chunk])"
    by (simp add: JSON_transform_text)
  have d: "ordinary_targets cols \<and>
    (\<forall>r\<in>set pre. \<not> circular (JSON_row_object cols r)) \<and> circular (JSON_row_object cols bad) \<longrightarrow>
      JSON_export cols (pre @ bad # post) =
        ([''[''] @ JSON_frames True (map (JSON_text cols) pre), Some TypeError)"
    using JSON_export_fails [of cols pre bad post] by blast
  have e: "JSON_stringify (JNum NaN) = Inr (Some ''null'')"
    "JSON_stringify (JNum PosInfinity) = Inr (Some ''null'')"
    "JSON_stringify (JNum NegInfinity) = Inr (Some ''null'')"
    "JSON_stringify (JDate None) = Inr (Some ''null'')"
    by (simp_all add: JSON_stringify_def)
  have f: "ordinary_targets cols \<and> distinct (map target cols) \<longrightarrow>
      circular (JSON_row_object cols r) = (\<exists>col\<in>set cols. field_circular (row_get r (source col)))"
    by (simp add: circular_row_object_distinct)
  from a b c c' d e f show ?thesis by blast
qed

theorem JSON_transform_fails_iff_circular_witness:
  \<open>JSON_transform \<lparr>columns = [\<lparr>source = ''meta'', target = ''m''\<rparr>], isFirst = True\<rparr>
      [(''meta'', JObject [(''self'', JCycle)])] = Inl TypeError \<and>
    JSON_transform \<lparr>columns = [\<lparr>source = ''meta'', target = ''m''\<rparr>], isFirst = False\<rparr>
      [(''meta'', JArray [JNum (int_number 1), JUndefined])] =
      Inr (\<lparr>columns = [\<lparr>source = ''meta'', target = ''m''\<rparr>], isFirst = False\<rparr>, ['',{"m":[1,null]}'']) \<and>
    JSON_export [\<lparr>source = ''meta'', target = ''m''\<rparr>]
      [[(''meta'', JNull)], [(''meta'', JObject [(''self'', JCycle)])], [(''meta'', JNull)]] =
      ([''['', ''{"m":null}''], Some TypeError)\<close>
  using JSON_transform_fails_iff_circular
    [where this = "\<lparr>columns = [\<lparr>source = ''meta'', target = ''m''\<rparr>], isFirst = True\<rparr>"
       and chunk = "[(''meta'', JObject [(''self'', JCycle)])]"
       and cols = "[\<lparr>source = ''meta'', target = ''m''\<rparr>]"
       and pre = "[[(''meta'', JNull)]]" and bad = "[(''meta'', JObject [(''self'', JCycle)])]"
       and post = "[[(''meta'', JNull)]]"]
  by (simp add: eval_defs)

text \<open>
  C3 (as stated) fails for a non-finite number: the row is emitted, the number altered
  to \<open>null\<close>, and no error is raised.
\<close>

theorem JSON_transform_NaN_written_null:
  \<open>JSON_transform (fst (JSON_new [\<lparr>source = ''value'', target = ''val''\<rparr>])) [(''value'', JNum NaN)] =
     Inr (\<lparr>columns = [\<lparr>source = ''value'', target = ''val''\<rparr>], isFirst = False\<rparr>, [''{"val":null}''])\<close>
  by (simp add: eval_defs)

text \<open>
  Why the target names are restricted.  A timestamp projected to the name
  \<open>__proto__\<close> becomes the prototype of the object instead of a property;
  \<open>JSON.stringify\<close> then finds the \<open>toJSON\<close> of \<open>Date.prototype\<close> and fails,
  although nothing is circular.  (With any other name the same timestamp is written as
  its ISO string.)
\<close>

theorem JSON_transform_timestamp_as_prototype:
  \<open>JSON_transform (fst (JSON_new [\<lparr>source = ''created'', target = ''__proto__''\<rparr>]))
      [(''created'', JDate (Some 0))] = Inl TypeError \<and>
    \<not> circular (JSON_row_object [\<lparr>source = ''created'', target = ''__proto__''\<rparr>]
                  [(''created'', JDate (Some 0))]) \<and>
    JSON_transform (fst (JSON_new [\<lparr>source = ''created'', target = ''at''\<rparr>]))
      [(''created'', JDate (Some 0))] =
      Inr (\<lparr>columns = [\<lparr>source = ''created'', target = ''at''\<rparr>], isFirst = False\<rparr>,
           [''{"at":"1970-01-01T00:00:00.000Z"}''])\<close>
  by (simp add: eval_defs iso_string_def civil_from_days_def civil_of_era_def civil_of_year_def
        civil_of_month_def iso_time_def iso_year_def pad2_def pad3_def pad4_def)

section \<open>The columnar-binary encoder\<close>

lemma fold_js_set_objects:
  assumes "object_or_null d" "map_of (own obj) ''__proto__'' = None"
    and "prototype obj = None \<or> prototype obj = Some d"
    and "has_proto_accessor (Some d)"
  shows "fold (\<lambda>col defs. js_set defs (target col) d) cols obj =
     \<lparr>own = fold (\<lambda>col al. AList.update (target col) d al)
              (filter (\<lambda>col. target col \<noteq> ''__proto__'') cols) (own obj),
      prototype = (if ''__proto__'' \<in> target ` set cols then Some d else prototype obj)\<rparr>"
  using assms(2,3)
proof (induction cols arbitrary: obj)
  case Nil
  show ?case by simp
next
  case (Cons c cs)
  show ?case
  proof (cases "target c = ''__proto__''")
    case True
    have acc: "has_proto_accessor (prototype obj)" using Cons.prems(2) assms(4) by auto
    have step: "js_set obj ''__proto__'' d = obj\<lparr>prototype := Some d\<rparr>"
      using Cons.prems(1) acc assms(1) by (simp add: js_set_def)
    show ?thesis
      using Cons.IH [of "obj\<lparr>prototype := Some d\<rparr>"] Cons.prems(1)
      by (simp add: True step)
  next
    case False
    have step: "js_set obj (target c) d = obj\<lparr>own := AList.update (target c) d (own obj)\<rparr>"
      using False by (simp add: js_set_def)
    have "map_of (AList.update (target c) d (own obj)) ''__proto__'' = None"
      using False Cons.prems(1) by (simp add: update_conv')
    then show ?thesis
      using Cons.IH [of "obj\<lparr>own := AList.update (target c) d (own obj)\<rparr>"] Cons.prems(2) False
      by (simp add: step)
  qed
qed

lemma find_append:
  "find P (xs @ ys) = (case find P xs of None \<Rightarrow> find P ys | Some x \<Rightarrow> Some x)"
  by (induction xs) simp_all

lemma map_of_fold_update:
  "map_of (fold (\<lambda>col al. AList.update (target col) (f col) al) cols acc) t =
     (case find (\<lambda>col. target col = t) (rev cols) of
        Some col \<Rightarrow> Some (f col)
      | None \<Rightarrow> map_of acc t)"
  by (induction cols arbitrary: acc) (auto simp: update_conv' find_append split: option.splits)

lemma find_None_image: "(find (\<lambda>col. target col = t) cols = None) = (t \<notin> target ` set cols)"
  by (auto simp: find_None_iff)

lemma schemaDefs_object:
  "schemaDefs cols =
     \<lparr>own = fold (\<lambda>col al. AList.update (target col)
                     (Data (JObject [(''type'', JStr ''UTF8''), (''optional'', JBool True)])) al)
              (filter (\<lambda>col. target col \<noteq> ''__proto__'') cols) [],
      prototype = (if ''__proto__'' \<in> target ` set cols
                   then Some (Data (JObject [(''type'', JStr ''UTF8''), (''optional'', JBool True)]))
                   else None)\<rparr>"
  unfolding schemaDefs_def
  by (subst fold_js_set_objects) (simp_all add: empty_object_def)

lemma map_of_schemaDefs:
  "map_of (own (schemaDefs cols)) t =
     (if t \<in> target ` set cols \<and> t \<noteq> ''__proto__''
      then Some (Data (JObject [(''type'', JStr ''UTF8''), (''optional'', JBool True)]))
      else None)"
proof -
  have "(find (\<lambda>col. target col = t) (rev (filter (\<lambda>col. target col \<noteq> ''__proto__'') cols)) = None) =
        (\<not> (t \<in> target ` set cols \<and> t \<noteq> ''__proto__''))"
    by (auto simp: find_None_iff)
  then show ?thesis
    by (cases "find (\<lambda>col. target col = t) (rev (filter (\<lambda>col. target col \<noteq> ''__proto__'') cols))")
       (auto simp: schemaDefs_object map_of_fold_update)
qed

lemma fold_js_set_strings:
  assumes "map_of (own obj) ''__proto__'' = None" "prototype obj = None"
  shows "fold (\<lambda>col row. js_set row (target col) (Data (JStr (f col)))) cols obj =
     obj\<lparr>own := fold (\<lambda>col al. AList.update (target col) (Data (JStr (f col))) al)
                   (filter (\<lambda>col. target col \<noteq> ''__proto__'') cols) (own obj)\<rparr>"
  using assms
proof (induction cols arbitrary: obj)
  case Nil
  show ?case by simp
next
  case (Cons c cs)
  show ?case
  proof (cases "target c = ''__proto__''")
    case True
    have "js_set obj (target c) (Data (JStr (f c))) = obj"
      using True Cons.prems by (simp add: js_set_def)
    then show ?thesis using Cons.IH [of obj] Cons.prems True by simp
  next
    case False
    have step: "js_set obj (target c) (Data (JStr (f c))) =
        obj\<lparr>own := AList.update (target c) (Data (JStr (f c))) (own obj)\<rparr>"
      using False by (simp add: js_set_def)
    have "map_of (AList.update (target c) (Data (JStr (f c))) (own obj)) ''__proto__'' = None"
      using False Cons.prems(1) by (simp add: update_conv')
    then show ?thesis
      using Cons.IH [of "obj\<lparr>own := AList.update (target c) (Data (JStr (f c))) (own obj)\<rparr>"]
        Cons.prems(2) False
      by (simp add: step)
  qed
qed

lemma normalized_row_object:
  "normalized_row cols chunk =
     \<lparr>own = fold (\<lambda>col al. AList.update (target col)
                     (Data (JStr (normalized (row_get chunk (source col))))) al)
              (filter (\<lambda>col. target col \<noteq> ''__proto__'') cols) [],
      prototype = None\<rparr>"
  unfolding normalized_row_def
  by (subst fold_js_set_strings) (simp_all add: empty_object_def)

lemma map_of_normalized_row:
  "map_of (own (normalized_row cols chunk)) t =
     (case find (\<lambda>col. target col = t) (rev (filter (\<lambda>col. target col \<noteq> ''__proto__'') cols)) of
        Some col \<Rightarrow> Some (Data (JStr (normalized (row_get chunk (source col)))))
      | None \<Rightarrow> None)"
  by (simp add: normalized_row_object map_of_fold_update split: option.splits)

lemma fst_set_update: "fst ` set (AList.update k v al) = insert k (fst ` set al)"
  by (induction al) auto

lemma fst_set_fold_update:
  "fst ` set (fold (\<lambda>col al. AList.update (target col) (f col) al) cols acc) =
     fst ` set acc \<union> target ` set cols"
  by (induction cols arbitrary: acc) (auto simp: fst_set_update)

lemma keys_normalized_row:
  "fst ` set (own (normalized_row cols chunk)) = target ` set cols - {''__proto__''}"
  by (auto simp: normalized_row_object fst_set_fold_update)

lemma forEach_result_all:
  "(\<And>x s. x \<in> set xs \<Longrightarrow> f x s = Inr (g x s)) \<Longrightarrow>
     forEach_result f xs s = Inr (fold g xs s)"
  by (induction xs arbitrary: s) simp_all

lemma forEach_result_isl:
  "x \<in> set xs \<Longrightarrow> (\<And>s. isl (f x s)) \<Longrightarrow> isl (forEach_result f xs s)"
proof (induction xs arbitrary: s)
  case Nil
  then show ?case by simp
next
  case (Cons y ys)
  show ?case
  proof (cases "f y s")
    case (Inl e)
    then show ?thesis by simp
  next
    case (Inr s')
    with Cons.prems(2) [of s] have "x \<noteq> y" by auto
    with Cons.prems(1) have "x \<in> set ys" by simp
    then have "isl (forEach_result f ys s')" using Cons.prems(2) by (rule Cons.IH)
    with Inr show ?thesis by simp
  qed
qed

lemma Parquet_row_normalized:
  "row_normalizable cols chunk \<Longrightarrow> Parquet_row cols chunk = Inr (normalized_row cols chunk)"
  unfolding Parquet_row_def normalized_row_def
  by (rule forEach_result_all)
     (simp add: row_normalizable_def list_all_iff prepareValue_normalized)

lemma Parquet_row_isl: "isl (Parquet_row cols chunk) = (\<not> row_normalizable cols chunk)"
proof (cases "row_normalizable cols chunk")
  case True
  then show ?thesis by (simp add: Parquet_row_normalized)
next
  case False
  then obtain col where col: "col \<in> set cols" "\<not> normalizable (row_get chunk (source col))"
    by (auto simp: row_normalizable_def list_all_iff)
  have "isl (prepareValue (row_get chunk (source col)))"
    using col(2) by (rule prepareValue_not_normalizable)
  then have "isl (Parquet_row cols chunk)"
    unfolding Parquet_row_def
    by (intro forEach_result_isl [OF col(1)]) (auto split: sum.splits)
  with False show ?thesis by simp
qed



lemma set_update_subset: "set (AList.update k v al) \<subseteq> insert (k, v) (set al)"
  by (induction al) auto

lemma set_fold_update:
  "kv \<in> set (fold (\<lambda>col al. AList.update (target col) (f col) al) cols acc) \<Longrightarrow>
     kv \<in> set acc \<or> (\<exists>col\<in>set cols. kv = (target col, f col))"
proof (induction cols arbitrary: acc)
  case Nil
  then show ?case by simp
next
  case (Cons c cs)
  from Cons.IH [of "AList.update (target c) (f c) acc"] Cons.prems
  have "kv \<in> set (AList.update (target c) (f c) acc) \<or> (\<exists>col\<in>set cs. kv = (target col, f col))"
    by simp
  then show ?case using set_update_subset [of "target c" "f c" acc] by auto
qed

lemma row_normalizable_iff:
  "row_normalizable cols chunk = (\<forall>col\<in>set cols. \<not> isl (prepareValue (row_get chunk (source col))))"
  using prepareValue_not_normalizable prepareValue_normalized
  by (fastforce simp: row_normalizable_def list_all_iff)

text \<open>
  C8 (as amended).  The schema definitions built by the constructor declare every target
  name of the projection other than \<open>__proto__\<close>, and nothing else, as an optional
  field of type \<open>UTF8\<close>; they are what the schema constructor of the library receives.
  The row object that \<open>_transform\<close> builds has exactly those target names as keys, and
  every value in it is a string returned by the normalizer for a projected source field;
  that object is what the writer's \<open>appendRow\<close> receives, and a row on which the
  normalizer raises is not appended.  A number or a boolean thus reaches the writer as
  its text.
\<close>

theorem Parquet_schema_and_rows:
  "map_of (own (schemaDefs cols)) t =
     (if t \<in> target ` set cols \<and> t \<noteq> ''__proto__''
      then Some (Data (JObject [(''type'', JStr ''UTF8''), (''optional'', JBool True)]))
      else None) \<and>
   (ParquetSchema lib (schemaDefs cols) = Inr sch \<longrightarrow>
      Parquet_new lib cols = Inr (\<lparr>columns = cols, schema = sch, rowCount = 0, writer = None\<rparr>, [])) \<and>
   (Parquet_row cols chunk = Inr row \<longrightarrow>
      fst ` set (own row) = target ` set cols - {''__proto__''} \<and>
      (\<forall>kv\<in>set (own row). \<exists>col\<in>set cols.
          fst kv = target col \<and>
          (\<exists>val. prepareValue (row_get chunk (source col)) = Inr val \<and> snd kv = Data (JStr val)))) \<and>
   (isl (Parquet_row cols chunk) \<longleftrightarrow>
      (\<exists>col\<in>set cols. isl (prepareValue (row_get chunk (source col))))) \<and>
   (Parquet_transform lib this chunk = (out, Resolved (this', deferred)) \<longrightarrow>
      (\<exists>row w w'. Parquet_row (columns this) chunk = Inr row \<and> writer this = Some w \<and>
         appendRow lib w row = (out, Resolved w') \<and> writer this' = Some w')) \<and>
   (Parquet_row (columns this) chunk = Inl e \<longrightarrow>
      Parquet_transform lib this chunk = ([], Rejected e))"
proof -
  have a: "map_of (own (schemaDefs cols)) t =
     (if t \<in> target ` set cols \<and> t \<noteq> ''__proto__''
      then Some (Data (JObject [(''type'', JStr ''UTF8''), (''optional'', JBool True)]))
      else None)"
    by (rule map_of_schemaDefs)
  have a': "ParquetSchema lib (schemaDefs cols) = Inr sch \<longrightarrow>
      Parquet_new lib cols = Inr (\<lparr>columns = cols, schema = sch, rowCount = 0, writer = None\<rparr>, [])"
    by (simp add: Parquet_new_def)
  have b: "Parquet_row cols chunk = Inr row \<longrightarrow>
      fst ` set (own row) = target ` set cols - {''__proto__''} \<and>
      (\<forall>kv\<in>set (own row). \<exists>col\<in>set cols.
          fst kv = target col \<and>
          (\<exists>val. prepareValue (row_get chunk (source col)) = Inr val \<and> snd kv = Data (JStr val)))"
  proof
    assume r: "Parquet_row cols chunk = Inr row"
    then have ok: "row_normalizable cols chunk"
      using Parquet_row_isl [of cols chunk] by auto
    then have row: "row = normalized_row cols chunk"
      using r by (simp add: Parquet_row_normalized)
    have vals: "\<exists>col\<in>set cols. fst kv = target col \<and>
          (\<exists>val. prepareValue (row_get chunk (source col)) = Inr val \<and> snd kv = Data (JStr val))"
      if "kv \<in> set (own row)" for kv
    proof -
      from that obtain col where "col \<in> set cols"
          "kv = (target col, Data (JStr (normalized (row_get chunk (source col)))))"
        using set_fold_update [of kv "\<lambda>col. Data (JStr (normalized (row_get chunk (source col))))"
                                 "filter (\<lambda>col. target col \<noteq> ''__proto__'') cols" "[]"]
        by (auto simp: row normalized_row_object)
      moreover from this ok have "prepareValue (row_get chunk (source col)) =
          Inr (normalized (row_get chunk (source col)))"
        by (simp add: row_normalizable_def list_all_iff prepareValue_normalized)
      ultimately show ?thesis by auto
    qed
    show "fst ` set (own row) = target ` set cols - {''__proto__''} \<and>
      (\<forall>kv\<in>set (own row). \<exists>col\<in>set cols.
          fst kv = target col \<and>
          (\<exists>val. prepareValue (row_get chunk (source col)) = Inr val \<and> snd kv = Data (JStr val)))"
      using vals by (simp add: row keys_normalized_row)
  qed
  have b': "isl (Parquet_row cols chunk) \<longleftrightarrow>
      (\<exists>col\<in>set cols. isl (prepareValue (row_get chunk (source col))))"
    by (simp add: Parquet_row_isl row_normalizable_iff)
  have c: "Parquet_transform lib this chunk = (out, Resolved (this', deferred)) \<longrightarrow>
      (\<exists>row w w'. Parquet_row (columns this) chunk = Inr row \<and> writer this = Some w \<and>
         appendRow lib w row = (out, Resolved w') \<and> writer this' = Some w')"
    by (auto simp: Parquet_transform_def split: sum.splits option.splits prod.splits outcome.splits)
  have d: "Parquet_row (columns this) chunk = Inl e \<longrightarrow>
      Parquet_transform lib this chunk = ([], Rejected e)"
    by (simp add: Parquet_transform_def)
  from a a' b b' c d show ?thesis by blast
qed

theorem Parquet_schema_and_rows_witness:
  "map_of (own (schemaDefs
      [\<lparr>source = ''value'', target = ''val''\<rparr>, \<lparr>source = ''ok'', target = ''ok''\<rparr>])) ''val'' =
     Some (Data (JObject [(''type'', JStr ''UTF8''), (''optional'', JBool True)])) \<and>
   Parquet_row [\<lparr>source = ''value'', target = ''val''\<rparr>, \<lparr>source = ''ok'', target = ''ok''\<rparr>]
     [(''value'', JNum (int_number 42)), (''ok'', JBool True)] =
     Inr \<lparr>own = [(''val'', Data (JStr ''42'')), (''ok'', Data (JStr ''true''))], prototype = None\<rparr> \<and>
   Parquet_transform
     \<lparr>ParquetSchema = Inr, openStream = (\<lambda>sch. ([''PAR1''], Resolved [])),
      appendRow = (\<lambda>w row. ([], Resolved (w @ [row]))), close = (\<lambda>w. ([''PAR1''], Resolved ()))\<rparr>
     \<lparr>columns = [\<lparr>source = ''value'', target = ''val''\<rparr>, \<lparr>source = ''ok'', target = ''ok''\<rparr>],
      schema = empty_object, rowCount = 999, writer = Some []\<rparr>
     [(''value'', JNum (int_number 42)), (''ok'', JBool True)] =
     ([], Resolved
       (\<lparr>columns = [\<lparr>source = ''value'', target = ''val''\<rparr>, \<lparr>source = ''ok'', target = ''ok''\<rparr>],
         schema = empty_object, rowCount = 1000,
         writer = Some [\<lparr>own = [(''val'', Data (JStr ''42'')), (''ok'', Data (JStr ''true''))],
                         prototype = None\<rparr>]\<rparr>,
        True))"
  using Parquet_schema_and_rows
    [where cols = "[\<lparr>source = ''value'', target = ''val''\<rparr>, \<lparr>source = ''ok'', target = ''ok''\<rparr>]"
       and t = "''val''" and chunk = "[(''value'', JNum (int_number 42)), (''ok'', JBool True)]"
       and row = "\<lparr>own = [(''val'', Data (JStr ''42'')), (''ok'', Data (JStr ''true''))], prototype = None\<rparr>"
       and lib = "\<lparr>ParquetSchema = Inr, openStream = (\<lambda>sch. ([''PAR1''], Resolved [])),
                   appendRow = (\<lambda>w row. ([], Resolved (w @ [row]))),
                   close = (\<lambda>w. ([''PAR1''], Resolved ()))\<rparr>"
       and this = "\<lparr>columns = [\<lparr>source = ''value'', target = ''val''\<rparr>, \<lparr>source = ''ok'', target = ''ok''\<rparr>],
           schema = empty_object, rowCount = 999, writer = Some []\<rparr>"]
  by (simp add: schemaDefs_def Parquet_row_def Parquet_transform_def js_set_def empty_object_def
        row_get_def number_to_string.simps int_number_def decimal_text_def strip_zeros.simps
        dec_nat.simps digit_char_def)

text \<open>
  C8 (as stated) fails for a target column named \<open>__proto__\<close>: the assignment in the
  constructor reaches the prototype accessor, the schema definitions get no field of that
  name, and the value normalized for the column is not in the row object handed to the
  writer.
\<close>

theorem Parquet_proto_column_not_declared:
  "own (schemaDefs [\<lparr>source = ''id'', target = ''__proto__''\<rparr>]) = [] \<and>
   map_of (own (schemaDefs [\<lparr>source = ''id'', target = ''__proto__''\<rparr>])) ''__proto__'' = None \<and>
   prepareValue (row_get [(''id'', JNum (int_number 7))] ''id'') = Inr ''7'' \<and>
   Parquet_row [\<lparr>source = ''id'', target = ''__proto__''\<rparr>] [(''id'', JNum (int_number 7))] =
     Inr \<lparr>own = [], prototype = None\<rparr>"
  by (simp add: schemaDefs_def Parquet_row_def js_set_def empty_object_def
        row_get_def number_to_string.simps int_number_def decimal_text_def strip_zeros.simps
        dec_nat.simps digit_char_def)

section \<open>Opening and closing frames\<close>

text \<open>Unfolding everything the delimited-text and markup encoders compute on a concrete row.\<close>

lemmas eval_text_defs = CSV_export_def XML_export_def run_formatter_def CSV_new_def XML_new_def
  CSV_flush_def XML_flush_def CSV_transform_def XML_transform_def CSV_field_def XML_escape_def
  str_includes_def replace_all_def stringify_object_def row_get_def inherited_def

text \<open>Unfolding everything the columnar formatter computes on a concrete row.\<close>

lemmas eval_parquet_defs = Parquet_export_def Parquet_stream_def Parquet_new_def
  Parquet_construct_def Parquet_transform_def Parquet_flush_def Parquet_row_def schemaDefs_def
  js_set_def empty_object_def row_get_def inherited_def number_to_string.simps int_number_def
  decimal_text_def strip_zeros.simps dec_nat.simps digit_char_def stringify_object_def
  JSON_stringify_def quote_json_def quote_char_def




section \<open>Lines of the delimited-text output\<close>

lemma line_count_append: "line_count (xs @ ys) = line_count xs + line_count ys"
  by (simp add: line_count_def)

lemma line_count_zero: "NL \<notin> set s \<Longrightarrow> line_count s = 0"
  by (induction s) (auto simp: line_count_def)

lemma set_join_str: "set (join_str sep xs) \<subseteq> set sep \<union> \<Union> (set ` set xs)"
  by (induction sep xs rule: join_str.induct) auto

lemma set_double_quotes: "set (double_quotes v) = set v"
  by (induction v) auto

lemma line_count_concat_map:
  "(\<And>x. x \<in> set xs \<Longrightarrow> line_count (f x) = 1) \<Longrightarrow> line_count (concat (map f xs)) = length xs"
  by (induction xs) (simp_all add: line_count_def)

lemma line_count_CSV_line:
  assumes "\<And>col. col \<in> set cols \<Longrightarrow> NL \<notin> set (normalized (row_get chunk (source col)))"
  shows "line_count (CSV_line cols chunk) = 1"
proof -
  let ?fields = "map (\<lambda>col. quoted_field (normalized (row_get chunk (source col)))) cols"
  have "\<And>x. x \<in> set ?fields \<Longrightarrow> NL \<notin> set x"
    using assms by (auto simp: quoted_field_def set_double_quotes)
  then have "NL \<notin> set (join_str '','' ?fields)"
    using set_join_str [of "'',''" ?fields] by auto
  then show ?thesis
    by (simp add: CSV_line_def line_count_append line_count_zero) (simp add: line_count_def)
qed

lemma line_count_header:
  assumes "\<And>col. col \<in> set cols \<Longrightarrow> NL \<notin> set (target col)"
  shows "line_count (join_str '','' (map target cols) @ [NL]) = 1"
proof -
  have "NL \<notin> set (join_str '','' (map target cols))"
    using set_join_str [of "'',''" "map target cols"] assms by auto
  then show ?thesis
    by (simp add: line_count_append line_count_zero) (simp add: line_count_def)
qed

text \<open>
  C5 (as amended).  When no row fails, the delimited-text output is made of the row count
  plus one chunks, each ended by a newline (the header and one record per row).  Its
  number of lines is the row count plus one provided no target name and no normalized
  field contains a newline character; a field with an embedded newline stays inside its
  quotes and adds a line.
\<close>

theorem CSV_line_count:
  "((\<forall>r\<in>set rows. row_normalizable cols r) \<longrightarrow>
      snd (CSV_export cols rows) = None \<and>
      length (fst (CSV_export cols rows)) = length rows + 1 \<and>
      (\<forall>chunk\<in>set (fst (CSV_export cols rows)). chunk \<noteq> [] \<and> last chunk = NL)) \<and>
   ((\<forall>r\<in>set rows. row_normalizable cols r) \<and>
    (\<forall>col\<in>set cols. NL \<notin> set (target col)) \<and>
    (\<forall>r\<in>set rows. \<forall>col\<in>set cols. NL \<notin> set (normalized (row_get r (source col)))) \<longrightarrow>
      line_count (concat (fst (CSV_export cols rows))) = length rows + 1)"
proof -
  have a: "(\<forall>r\<in>set rows. row_normalizable cols r) \<longrightarrow>
      snd (CSV_export cols rows) = None \<and>
      length (fst (CSV_export cols rows)) = length rows + 1 \<and>
      (\<forall>chunk\<in>set (fst (CSV_export cols rows)). chunk \<noteq> [] \<and> last chunk = NL)"
    using CSV_export_ok [of rows cols] by (auto simp: CSV_line_def)
  have b: "(\<forall>r\<in>set rows. row_normalizable cols r) \<and>
    (\<forall>col\<in>set cols. NL \<notin> set (target col)) \<and>
    (\<forall>r\<in>set rows. \<forall>col\<in>set cols. NL \<notin> set (normalized (row_get r (source col)))) \<longrightarrow>
      line_count (concat (fst (CSV_export cols rows))) = length rows + 1"
  proof (intro impI, elim conjE)
    assume ok: "\<forall>r\<in>set rows. row_normalizable cols r"
      and hdr: "\<forall>col\<in>set cols. NL \<notin> set (target col)"
      and vals: "\<forall>r\<in>set rows. \<forall>col\<in>set cols. NL \<notin> set (normalized (row_get r (source col)))"
    have "line_count (concat (map (CSV_line cols) rows)) = length rows"
      using vals by (intro line_count_concat_map line_count_CSV_line) auto
    moreover have "line_count (join_str '','' (map target cols) @ [NL]) = 1"
      using hdr by (intro line_count_header) auto
    moreover have "concat (fst (CSV_export cols rows)) =
        (join_str '','' (map target cols) @ [NL]) @ concat (map (CSV_line cols) rows)"
      using CSV_export_ok [of rows cols] ok by simp
    ultimately show "line_count (concat (fst (CSV_export cols rows))) = length rows + 1"
      by (simp only: line_count_append)
  qed
  from a b show ?thesis by blast
qed

theorem CSV_line_count_witness:
  \<open>CSV_export [\<lparr>source = ''name'', target = ''name''\<rparr>] [[(''name'', JStr ''a,b'')], [(''id'', JNull)]] =
      ([''name'' @ [NL], ''"a,b"'' @ [NL], ''""'' @ [NL]], None) \<and>
    line_count (concat (fst (CSV_export [\<lparr>source = ''name'', target = ''name''\<rparr>]
      [[(''name'', JStr ''a,b'')], [(''id'', JNull)]]))) = 3\<close>
  using CSV_line_count [where cols = "[\<lparr>source = ''name'', target = ''name''\<rparr>]"
      and rows = "[[(''name'', JStr ''a,b'')], [(''id'', JNull)]]"]
  by (simp add: eval_text_defs line_count_def row_normalizable_def normalizable_def normalized_def)

text \<open>
  C5 (as stated) fails: one row whose field holds a newline character gives three lines,
  not two.
\<close>

theorem CSV_embedded_newline_lines:
  \<open>CSV_export [\<lparr>source = ''name'', target = ''name''\<rparr>] [[(''name'', JStr (''a'' @ [NL] @ ''b''))]] =
      ([''name'' @ [NL], ''"a'' @ [NL] @ ''b"'' @ [NL]], None) \<and>
    line_count (concat (fst (CSV_export [\<lparr>source = ''name'', target = ''name''\<rparr>]
      [[(''name'', JStr (''a'' @ [NL] @ ''b''))]]))) = 3\<close>
  by (simp add: eval_text_defs line_count_def)


section \<open>Release of the client\<close>

lemma feed_fails:
  assumes "\<And>r. r \<in> set pre \<Longrightarrow> tr s r = Inr (s, [f r])" and "tr s bad = Inl e"
  shows "feed tr s (pre @ bad # post) = (map f pre, Inl e)"
  using feed_stateless [of pre tr s f] assms by (simp add: feed_append)

lemma feed_JSON_fails:
  assumes "ordinary_targets (columns this)"
    and "\<And>r. r \<in> set pre \<Longrightarrow> \<not> circular (JSON_row_object (columns this) r)"
    and "circular (JSON_row_object (columns this) bad)"
  shows "feed JSON_transform this (pre @ bad # post) =
           (JSON_frames (isFirst this) (map (JSON_text (columns this)) pre), Inl TypeError)"
proof -
  have pre: "feed JSON_transform this pre =
       (JSON_frames (isFirst this) (map (JSON_text (columns this)) pre),
        Inr (if pre = [] then this else this\<lparr>isFirst := False\<rparr>))"
    using feed_JSON [of this pre] assms(1,2) by simp
  have bad: "JSON_transform (if pre = [] then this else this\<lparr>isFirst := False\<rparr>) bad = Inl TypeError"
    using assms(3) by (simp add: JSON_transform_outcome [of _ bad])
  show ?thesis
    unfolding feed_append pre using bad by simp
qed

lemma pipeline_CSV_fails:
  assumes "\<And>r. r \<in> set pre \<Longrightarrow> row_normalizable cols r"
    and "CSV_transform \<lparr>columns = cols\<rparr> bad = Inl e"
  shows "pipeline lib (pre @ bad # post) source_error (CSV_formatter (CSV_new cols)) =
           ((join_str '','' (map target cols) @ [NL]) # map (CSV_line cols) pre, Uncaught e)"
  using feed_fails [of pre CSV_transform "\<lparr>columns = cols\<rparr>" "CSV_line cols" bad e post] assms
  by (simp add: text_stream_def CSV_new_def CSV_transform_line)

lemma pipeline_XML_fails:
  assumes "\<And>r. r \<in> set pre \<Longrightarrow> row_normalizable cols r"
    and "XML_transform \<lparr>columns = cols\<rparr> bad = Inl e"
  shows "pipeline lib (pre @ bad # post) source_error (XML_formatter (XML_new cols)) =
           (XML_open # map (XML_record cols) pre, Uncaught e)"
  using feed_fails [of pre XML_transform "\<lparr>columns = cols\<rparr>" "XML_record cols" bad e post] assms
  by (simp add: text_stream_def XML_new_def XML_transform_record)

lemma pipeline_JSON_fails:
  assumes "ordinary_targets cols"
    and "\<And>r. r \<in> set pre \<Longrightarrow> \<not> circular (JSON_row_object cols r)"
    and "circular (JSON_row_object cols bad)"
  shows "pipeline lib (pre @ bad # post) source_error (JSON_formatter (JSON_new cols)) =
           (''['' # JSON_frames True (map (JSON_text cols) pre), Rejected TypeError)"
  using feed_JSON_fails [of "fst (JSON_new cols)" pre bad post] assms
  by (simp add: text_stream_def JSON_new_def)

lemma pipeline_CSV_source:
  assumes "\<And>r. r \<in> set rows \<Longrightarrow> row_normalizable cols r"
  shows "pipeline lib rows source_error (CSV_formatter (CSV_new cols)) =
           ((join_str '','' (map target cols) @ [NL]) # map (CSV_line cols) rows,
            case source_error of None \<Rightarrow> Resolved () | Some err \<Rightarrow> Rejected err)"
  using feed_stateless [of rows CSV_transform "\<lparr>columns = cols\<rparr>" "CSV_line cols"] assms
  by (simp add: text_stream_def CSV_new_def CSV_flush_def CSV_transform_line split: option.splits)

lemma count_list_SinkWrite: "count_list (map SinkWrite chunks) Release = 0"
  by (induction chunks) simp_all

text \<open>
  C7.  What \<open>measureExport\<close> does with the client, path by path.  An error that the
  structured-document or the columnar formatter hands to its callback, and an error of
  the source, reject the pipeline: the sink gets nothing more, the error is logged, and
  the client is released once.  An exception of the normalizer in the delimited-text or
  the markup formatter is caught by nobody: the promise of the pipeline is never
  settled and the client is never released.  The same holds when a promise of the
  columnar writer stays pending.  The client is also kept when building the formatter
  throws, which happens before the \<open>try\<close> block.  So the client is released exactly
  once when the promise of \<open>measureExport\<close> resolves, or rejects with an error of the
  pipeline, and not at all otherwise.
\<close>

theorem measureExport_release:
  "((\<forall>r\<in>set pre. row_normalizable cols r) \<and> CSV_transform \<lparr>columns = cols\<rparr> bad = Inl e \<longrightarrow>
      measureExport lib (pre @ bad # post) source_error ''csv'' cols =
        (Connect # map SinkWrite ((join_str '','' (map target cols) @ [NL]) # map (CSV_line cols) pre),
         Uncaught e)) \<and>
   ((\<forall>r\<in>set pre. row_normalizable cols r) \<and> XML_transform \<lparr>columns = cols\<rparr> bad = Inl e \<longrightarrow>
      measureExport lib (pre @ bad # post) source_error ''xml'' cols =
        (Connect # map SinkWrite (XML_open # map (XML_record cols) pre), Uncaught e)) \<and>
   (ordinary_targets cols \<and> (\<forall>r\<in>set pre. \<not> circular (JSON_row_object cols r)) \<and>
    circular (JSON_row_object cols bad) \<longrightarrow>
      measureExport lib (pre @ bad # post) source_error ''json'' cols =
        (Connect # map SinkWrite (''['' # JSON_frames True (map (JSON_text cols) pre)) @
           [LogError TypeError, Release],
         Rejected TypeError)) \<and>
   ((\<forall>r\<in>set rows. row_normalizable cols r) \<longrightarrow>
      measureExport lib rows (Some err) ''csv'' cols =
        (Connect # map SinkWrite ((join_str '','' (map target cols) @ [NL]) # map (CSV_line cols) rows) @
           [LogError err, Release],
         Rejected err) \<and>
      measureExport lib rows None ''csv'' cols =
        (Connect # map SinkWrite ((join_str '','' (map target cols) @ [NL]) # map (CSV_line cols) rows) @
           [Release],
         Resolved ''csv'')) \<and>
   (Parquet_export lib cols rows = Inr (chunks, Pending) \<longrightarrow>
      measureExport lib rows None ''parquet'' cols = (Connect # map SinkWrite chunks, Pending)) \<and>
   (Parquet_export lib cols rows = Inr (chunks, Rejected err) \<longrightarrow>
      measureExport lib rows None ''parquet'' cols =
        (Connect # map SinkWrite chunks @ [LogError err, Release], Rejected err)) \<and>
   count_list (fst (measureExport lib rows source_error fmt cols)) Release =
     (case snd (measureExport lib rows source_error fmt cols) of
        Resolved result \<Rightarrow> 1
      | Rejected err \<Rightarrow> (if isl (getFormatter lib cols fmt) then 0 else 1)
      | Pending \<Rightarrow> 0
      | Uncaught err \<Rightarrow> 0)"
proof -
  have csv: "(\<forall>r\<in>set pre. row_normalizable cols r) \<and> CSV_transform \<lparr>columns = cols\<rparr> bad = Inl e \<longrightarrow>
      measureExport lib (pre @ bad # post) source_error ''csv'' cols =
        (Connect # map SinkWrite ((join_str '','' (map target cols) @ [NL]) # map (CSV_line cols) pre),
         Uncaught e)"
    using pipeline_CSV_fails [of pre cols bad e lib post source_error]
    by (simp add: measureExport_def getFormatter_def)
  have xml: "(\<forall>r\<in>set pre. row_normalizable cols r) \<and> XML_transform \<lparr>columns = cols\<rparr> bad = Inl e \<longrightarrow>
      measureExport lib (pre @ bad # post) source_error ''xml'' cols =
        (Connect # map SinkWrite (XML_open # map (XML_record cols) pre), Uncaught e)"
    using pipeline_XML_fails [of pre cols bad e lib post source_error]
    by (simp add: measureExport_def getFormatter_def)
  have json: "ordinary_targets cols \<and> (\<forall>r\<in>set pre. \<not> circular (JSON_row_object cols r)) \<and>
    circular (JSON_row_object cols bad) \<longrightarrow>
      measureExport lib (pre @ bad # post) source_error ''json'' cols =
        (Connect # map SinkWrite (''['' # JSON_frames True (map (JSON_text cols) pre)) @
           [LogError TypeError, Release],
         Rejected TypeError)"
    using pipeline_JSON_fails [of cols pre bad lib post source_error]
    by (simp add: measureExport_def getFormatter_def)
  have source: "(\<forall>r\<in>set rows. row_normalizable cols r) \<longrightarrow>
      measureExport lib rows (Some err) ''csv'' cols =
        (Connect # map SinkWrite ((join_str '','' (map target cols) @ [NL]) # map (CSV_line cols) rows) @
           [LogError err, Release],
         Rejected err) \<and>
      measureExport lib rows None ''csv'' cols =
        (Connect # map SinkWrite ((join_str '','' (map target cols) @ [NL]) # map (CSV_line cols) rows) @
           [Release],
         Resolved ''csv'')"
    using pipeline_CSV_source [of rows cols lib "Some err"] pipeline_CSV_source [of rows cols lib None]
    by (simp add: measureExport_def getFormatter_def)
  have pending: "Parquet_export lib cols rows = Inr (chunks, Pending) \<longrightarrow>
      measureExport lib rows None ''parquet'' cols = (Connect # map SinkWrite chunks, Pending)"
    by (auto simp: measureExport_def getFormatter_def Parquet_export_def split: sum.splits)
  have rejected: "Parquet_export lib cols rows = Inr (chunks, Rejected err) \<longrightarrow>
      measureExport lib rows None ''parquet'' cols =
        (Connect # map SinkWrite chunks @ [LogError err, Release], Rejected err)"
    by (auto simp: measureExport_def getFormatter_def Parquet_export_def split: sum.splits)
  have count: "count_list (fst (measureExport lib rows source_error fmt cols)) Release =
     (case snd (measureExport lib rows source_error fmt cols) of
        Resolved result \<Rightarrow> 1
      | Rejected err \<Rightarrow> (if isl (getFormatter lib cols fmt) then 0 else 1)
      | Pending \<Rightarrow> 0
      | Uncaught err \<Rightarrow> 0)"
    by (simp add: measureExport_def count_list_SinkWrite
          split: sum.splits prod.splits outcome.splits)
  from csv xml json source pending rejected count show ?thesis by blast
qed

theorem measureExport_release_witness:
  \<open>measureExport
      \<lparr>ParquetSchema = Inr, openStream = (\<lambda>sch. ([''PAR1''], Resolved [])),
       appendRow = (\<lambda>w row. ([], Resolved (w @ [row]))),
       close = (\<lambda>w. (if w = [] then [''footer''] else [''rows''], Pending))\<rparr>
      [[(''id'', JNum (int_number 1)), (''name'', JStr ''Record_0''), (''value'', JDate None),
        (''metadata'', JNull)]]
      None ''csv'' benchmark_columns =
      ([Connect, SinkWrite (''id,name,val,meta'' @ [NL])], Uncaught RangeError) \<and>
    measureExport
      \<lparr>ParquetSchema = Inr, openStream = (\<lambda>sch. ([''PAR1''], Resolved [])),
       appendRow = (\<lambda>w row. ([], Resolved (w @ [row]))),
       close = (\<lambda>w. (if w = [] then [''footer''] else [''rows''], Pending))\<rparr>
      [[(''id'', JNum (int_number 1)), (''name'', JStr ''Record_0''), (''value'', JDate None),
        (''metadata'', JNull)]]
      None ''parquet'' benchmark_columns =
      ([Connect, SinkWrite ''PAR1'', LogError RangeError, Release], Rejected RangeError) \<and>
    measureExport
      \<lparr>ParquetSchema = Inr, openStream = (\<lambda>sch. ([''PAR1''], Resolved [])),
       appendRow = (\<lambda>w row. ([], Resolved (w @ [row]))),
       close = (\<lambda>w. (if w = [] then [''footer''] else [''rows''], Pending))\<rparr>
      [[(''id'', JNum (int_number 1)), (''name'', JStr ''Record_0''), (''value'', JNum (int_number 5)),
        (''metadata'', JObject [(''tag'', JStr ''test''), (''index'', JNum (int_number 0))])]]
      None ''parquet'' benchmark_columns =
      ([Connect, SinkWrite ''PAR1'', SinkWrite ''rows''], Pending) \<and>
    measureExport
      \<lparr>ParquetSchema = Inr, openStream = (\<lambda>sch. ([''PAR1''], Resolved [])),
       appendRow = (\<lambda>w row. ([], Resolved (w @ [row]))),
       close = (\<lambda>w. (if w = [] then [''footer''] else [''rows''], Pending))\<rparr>
      [[(''id'', JNum (int_number 1)), (''name'', JStr ''Record_0''), (''value'', JNum (int_number 5)),
        (''metadata'', JObject [(''self'', JCycle)])]]
      None ''json'' benchmark_columns =
      ([Connect, SinkWrite ''['', LogError TypeError, Release], Rejected TypeError)\<close>
  using measureExport_release
    [where lib = "\<lparr>ParquetSchema = Inr, openStream = (\<lambda>sch. ([''PAR1''], Resolved [])),
                   appendRow = (\<lambda>w row. ([], Resolved (w @ [row]))),
                   close = (\<lambda>w. (if w = [] then [''footer''] else [''rows''], Pending))\<rparr>"
       and cols = benchmark_columns and pre = "[]" and post = "[]" and source_error = None
       and bad = "[(''id'', JNum (int_number 1)), (''name'', JStr ''Record_0''), (''value'', JDate None),
                   (''metadata'', JNull)]"
       and e = RangeError
       and rows = "[[(''id'', JNum (int_number 1)), (''name'', JStr ''Record_0''), (''value'', JDate None),
                     (''metadata'', JNull)]]"
       and chunks = "[''PAR1'']" and err = RangeError and fmt = "''parquet''"]
    measureExport_release
    [where lib = "\<lparr>ParquetSchema = Inr, openStream = (\<lambda>sch. ([''PAR1''], Resolved [])),
                   appendRow = (\<lambda>w row. ([], Resolved (w @ [row]))),
                   close = (\<lambda>w. (if w = [] then [''footer''] else [''rows''], Pending))\<rparr>"
       and cols = benchmark_columns and pre = "[]" and post = "[]" and source_error = None
       and bad = "[(''id'', JNum (int_number 1)), (''name'', JStr ''Record_0''), (''value'', JNum (int_number 5)),
                   (''metadata'', JObject [(''self'', JCycle)])]"
       and rows = "[[(''id'', JNum (int_number 1)), (''name'', JStr ''Record_0''), (''value'', JNum (int_number 5)),
                     (''metadata'', JObject [(''tag'', JStr ''test''), (''index'', JNum (int_number 0))])]]"
       and chunks = "[''PAR1'', ''rows'']" and fmt = "''parquet''"]
  by (simp add: benchmark_columns_def eval_defs eval_text_defs eval_parquet_defs
        row_normalizable_def normalizable_def toISOString_def)

text \<open>
  The benchmark on one row of the seeded table, with a writer that waits for the
  completion of its writes.  The first three formats release their client; the fourth
  pushes the header and the row group and then waits for ever: its client is not
  released and \<open>runBenchmark\<close> does not return.
\<close>

theorem runBenchmark_columnar_export_pending:
  \<open>runBenchmark
      \<lparr>ParquetSchema = Inr, openStream = (\<lambda>sch. ([''PAR1''], Resolved [])),
       appendRow = (\<lambda>w row. ([], Resolved (w @ [row]))),
       close = (\<lambda>w. (if w = [] then [''footer''] else [''rows''], Pending))\<rparr>
      [[(''id'', JNum (int_number 1)), (''name'', JStr ''Record_0''), (''value'', JNum (int_number 5)),
        (''metadata'', JObject [(''tag'', JStr ''test''), (''index'', JNum (int_number 0))])]]
      None =
    ([Connect, SinkWrite (''id,name,val,meta'' @ [NL]),
      SinkWrite (''"1","Record_0","5","{""tag"":""test"",""index"":0}"'' @ [NL]), Release,
      Connect, SinkWrite ''['',
      SinkWrite ''{"id":1,"name":"Record_0","val":5,"meta":{"tag":"test","index":0}}'',
      SinkWrite '']'', Release,
      Connect, SinkWrite XML_open,
      SinkWrite (''  <record>'' @ [NL] @ ''    <id>1</id>'' @ [NL] @ ''    <name>Record_0</name>'' @ [NL] @
                 ''    <val>5</val>'' @ [NL] @
                 ''    <meta>{&quot;tag&quot;:&quot;test&quot;,&quot;index&quot;:0}</meta>'' @ [NL] @
                 ''  </record>'' @ [NL]),
      SinkWrite ''</records>'', Release,
      Connect, SinkWrite ''PAR1'', SinkWrite ''rows''],
     Pending)\<close>
  by (simp add: runBenchmark_def measureExport_def getFormatter_def text_stream_def
        benchmark_columns_def eval_defs eval_text_defs eval_parquet_defs)

section \<open>A projected field that the row lacks\<close>

lemma own_entries_filter: "own_entries (filter P obj) = filter P (own_entries obj)"
proof -
  have "filter (\<lambda>kv. is_array_index (fst kv)) (filter P obj) =
        filter P (filter (\<lambda>kv. is_array_index (fst kv)) obj)"
    by (simp add: conj_commute)
  moreover have "filter (\<lambda>kv. \<not> is_array_index (fst kv)) (filter P obj) =
        filter P (filter (\<lambda>kv. \<not> is_array_index (fst kv)) obj)"
    by (simp add: conj_commute)
  ultimately show ?thesis
    by (simp add: own_entries_def filter_sort)
qed

lemma data_members_filter:
  "data_members (filter (\<lambda>kv. fst kv \<noteq> t) entries) = filter (\<lambda>kv. fst kv \<noteq> t) (data_members entries)"
  by (induction entries rule: data_members.induct) simp_all

lemma set_data_members: "set (data_members entries) = {(k, v). (k, Data v) \<in> set entries}"
  by (induction entries rule: data_members.induct) auto

lemma keys_to_json_members:
  "fst ` set (to_json_members kvs) = {k. \<exists>v. (k, v) \<in> set kvs \<and> v \<noteq> JUndefined}"
  by (induction kvs) (auto simp: image_iff)

lemma serialize_members_filter:
  "(\<And>kv. kv \<in> set kvs \<Longrightarrow> \<not> P kv \<Longrightarrow> snd kv = JUndefined) \<Longrightarrow>
     serialize_members (filter P kvs) = serialize_members kvs"
proof (induction kvs)
  case Nil
  show ?case by simp
next
  case (Cons kv kvs)
  obtain k v where kv: "kv = (k, v)" by (cases kv)
  show ?case
  proof (cases "P kv")
    case True
    moreover have "serialize_members (filter P kvs) = serialize_members kvs"
      using Cons by simp
    ultimately show ?thesis by (simp add: kv split: sum.splits)
  next
    case False
    then have "v = JUndefined" using Cons.prems [of kv] by (simp add: kv)
    moreover have "serialize_members (filter P kvs) = serialize_members kvs"
      using Cons by simp
    ultimately show ?thesis using False by (simp add: kv split: sum.splits)
  qed
qed

lemma absent_entries:
  assumes o: "ordinary_targets cols" and d: "distinct (map target cols)" and c: "col \<in> set cols"
    and u: "row_get chunk (source col) = Data JUndefined"
    and kv: "(k, f) \<in> set (own (JSON_output cols chunk))" and k: "k = target col"
  shows "f = Data JUndefined"
proof -
  from kv have "(k, f) \<in> set (map (\<lambda>col. (target col, row_get chunk (source col))) cols)"
    by (simp add: JSON_output_distinct [OF o d])
  then obtain c' where c': "c' \<in> set cols" "(k, f) = (target c', row_get chunk (source c'))"
    by auto
  with k have "target c' = target col" by simp
  with d c c' have "c' = col"
    by (meson distinct_map inj_onD)
  with c' u show ?thesis by simp
qed

lemma ordinary_targets_removeAll: "ordinary_targets cols \<Longrightarrow> ordinary_targets (removeAll col cols)"
  by (simp add: ordinary_targets_def)

lemma JSON_output_removeAll:
  assumes o: "ordinary_targets cols" and d: "distinct (map target cols)" and c: "col \<in> set cols"
  shows "own (JSON_output (removeAll col cols) chunk) =
           filter (\<lambda>kv. fst kv \<noteq> target col) (own (JSON_output cols chunk))"
proof -
  have inj: "inj_on target (set cols)" using d by (simp add: distinct_map)
  have d': "distinct (map target (removeAll col cols))"
    using d by (simp add: removeAll_filter_not_eq distinct_map_filter)
  have r: "removeAll col cols = filter (\<lambda>c. target c \<noteq> target col) cols"
    unfolding removeAll_filter_not_eq
    by (rule filter_cong) (use inj c in \<open>auto dest: inj_onD\<close>)
  have "own (JSON_output (removeAll col cols) chunk) =
          map (\<lambda>col. (target col, row_get chunk (source col))) (removeAll col cols)"
    by (rule JSON_output_distinct [OF ordinary_targets_removeAll [OF o] d'])
  also have "\<dots> = filter (\<lambda>kv. fst kv \<noteq> target col)
                      (map (\<lambda>col. (target col, row_get chunk (source col))) cols)"
    unfolding r by (simp add: filter_map comp_def)
  finally show ?thesis
    by (simp add: JSON_output_distinct [OF o d])
qed

lemma JSON_row_object_removeAll:
  assumes o: "ordinary_targets cols" and d: "distinct (map target cols)" and c: "col \<in> set cols"
    and u: "row_get chunk (source col) = Data JUndefined"
  shows "serialize_property (JSON_row_object (removeAll col cols) chunk) =
         serialize_property (JSON_row_object cols chunk)"
proof -
  let ?P = "\<lambda>kv. fst kv \<noteq> target col"
  let ?members = "data_members (own_entries (own (JSON_output cols chunk)))"
  have "data_members (own_entries (own (JSON_output (removeAll col cols) chunk))) = filter ?P ?members"
    by (simp add: JSON_output_removeAll [OF o d c] own_entries_filter data_members_filter)
  moreover have "serialize_members (filter ?P ?members) = serialize_members ?members"
  proof (rule serialize_members_filter)
    fix kv assume "kv \<in> set ?members" "\<not> fst kv \<noteq> target col"
    then have "(fst kv, Data (snd kv)) \<in> set (own (JSON_output cols chunk))" "fst kv = target col"
      by (auto simp: set_data_members set_own_entries)
    then have "Data (snd kv) = Data JUndefined"
      by (rule absent_entries [OF o d c u])
    then show "snd kv = JUndefined" by simp
  qed
  ultimately show ?thesis by (simp add: JSON_row_object_def)
qed

lemma JSON_row_object_keys:
  assumes o: "ordinary_targets cols" and d: "distinct (map target cols)" and c: "col \<in> set cols"
    and u: "row_get chunk (source col) = Data JUndefined"
  shows "\<exists>members. to_json (JSON_row_object cols chunk) = JsObject members \<and>
                   target col \<notin> fst ` set members"
proof -
  let ?members = "data_members (own_entries (own (JSON_output cols chunk)))"
  have "v = JUndefined" if "(target col, v) \<in> set ?members" for v
  proof -
    from that have "(target col, Data v) \<in> set (own (JSON_output cols chunk))"
      by (auto simp: set_data_members set_own_entries)
    then have "Data v = Data JUndefined"
      by (rule absent_entries [OF o d c u]) simp
    then show ?thesis by simp
  qed
  then have "target col \<notin> fst ` set (to_json_members ?members)"
    by (auto simp: keys_to_json_members)
  then show ?thesis by (simp add: JSON_row_object_def)
qed

text \<open>
  C10 (as amended).  Let the target names be distinct, none of them \<open>__proto__\<close> or
  \<open>toJSON\<close>, and let a projected source field be absent from the row, reading as
  \<open>undefined\<close>.  If the object built for the row is circular the structured-document
  encoder fails and emits no object.  Otherwise it emits the text of an object that
  parses to members among which the target name of that field does not occur, with
  neither \<open>null\<close> nor an empty string for it; the chunk is the one emitted when the
  column is removed from the projection.  The normalizer maps the same field to the
  empty string: in a row all of whose projected fields the normalizer accepts, the
  delimited-text encoder writes an empty quoted field at the place of that column and
  the markup encoder an empty element.
\<close>

theorem JSON_absent_field_dropped:
  "ordinary_targets cols \<and> distinct (map target cols) \<and> col \<in> set cols \<and>
   row_get chunk (source col) = Data JUndefined \<longrightarrow>
     (circular (JSON_row_object cols chunk) \<longrightarrow>
        JSON_transform \<lparr>columns = cols, isFirst = first\<rparr> chunk = Inl TypeError) \<and>
     (\<not> circular (JSON_row_object cols chunk) \<longrightarrow>
        JSON_transform \<lparr>columns = cols, isFirst = first\<rparr> chunk =
          Inr (\<lparr>columns = cols, isFirst = False\<rparr>,
               [(if first then [] else '','') @ JSON_text cols chunk]) \<and>
        (\<exists>members. JSON_parse (JSON_text cols chunk) = Some (JsObject members) \<and>
                    target col \<notin> fst ` set members)) \<and>
     map_sum id snd (JSON_transform \<lparr>columns = cols, isFirst = first\<rparr> chunk) =
       map_sum id snd (JSON_transform \<lparr>columns = removeAll col cols, isFirst = first\<rparr> chunk) \<and>
     prepareValue (row_get chunk (source col)) = Inr [] \<and>
     (row_normalizable cols chunk \<longrightarrow>
        CSV_transform \<lparr>columns = cols\<rparr> chunk =
          Inr (\<lparr>columns = cols\<rparr>,
               [join_str '',''
                  (map (\<lambda>c. if c = col then [DQ, DQ]
                             else quoted_field (normalized (row_get chunk (source c)))) cols) @ [NL]]) \<and>
        XML_transform \<lparr>columns = cols\<rparr> chunk =
          Inr (\<lparr>columns = cols\<rparr>,
               [''  <record>'' @ [NL] @
                concat (map (\<lambda>c. if c = col
                                  then ''    <'' @ target col @ ''></'' @ target col @ ''>'' @ [NL]
                                  else XML_element c (normalized (row_get chunk (source c)))) cols) @
                ''  </record>'' @ [NL]]))"
proof (intro impI, elim conjE)
  assume o: "ordinary_targets cols" and d: "distinct (map target cols)" and c: "col \<in> set cols"
    and u: "row_get chunk (source col) = Data JUndefined"
  have o': "ordinary_targets (removeAll col cols)" using o by (rule ordinary_targets_removeAll)
  have a: "circular (JSON_row_object cols chunk) \<longrightarrow>
        JSON_transform \<lparr>columns = cols, isFirst = first\<rparr> chunk = Inl TypeError"
    using o by (simp add: JSON_transform_text)
  have b: "\<not> circular (JSON_row_object cols chunk) \<longrightarrow>
        JSON_transform \<lparr>columns = cols, isFirst = first\<rparr> chunk =
          Inr (\<lparr>columns = cols, isFirst = False\<rparr>,
               [(if first then [] else '','') @ JSON_text cols chunk]) \<and>
        (\<exists>members. JSON_parse (JSON_text cols chunk) = Some (JsObject members) \<and>
                    target col \<notin> fst ` set members)"
  proof
    assume nc: "\<not> circular (JSON_row_object cols chunk)"
    then have "serialize_property (JSON_row_object cols chunk) = Inr (Some (JSON_text cols chunk))"
      using JSON_stringify_row_object [of cols chunk] by (simp add: JSON_stringify_def)
    then have "JSON_parse (JSON_text cols chunk) = Some (to_json (JSON_row_object cols chunk))"
      by (rule JSON_parse_serialized)
    then have "\<exists>members. JSON_parse (JSON_text cols chunk) = Some (JsObject members) \<and>
                    target col \<notin> fst ` set members"
      using JSON_row_object_keys [OF o d c u] by auto
    then show "JSON_transform \<lparr>columns = cols, isFirst = first\<rparr> chunk =
          Inr (\<lparr>columns = cols, isFirst = False\<rparr>,
               [(if first then [] else '','') @ JSON_text cols chunk]) \<and>
        (\<exists>members. JSON_parse (JSON_text cols chunk) = Some (JsObject members) \<and>
                    target col \<notin> fst ` set members)"
      using o nc by (simp add: JSON_transform_text)
  qed
  have same: "serialize_property (JSON_row_object (removeAll col cols) chunk) =
         serialize_property (JSON_row_object cols chunk)"
    by (rule JSON_row_object_removeAll [OF o d c u])
  then have circ: "circular (JSON_row_object (removeAll col cols) chunk) =
      circular (JSON_row_object cols chunk)"
    using serialize_isl(1) by metis
  have same_text: "JSON_text (removeAll col cols) chunk = JSON_text cols chunk"
    using same by (simp add: JSON_text_def JSON_stringify_def)
  have e: "map_sum id snd (JSON_transform \<lparr>columns = cols, isFirst = first\<rparr> chunk) =
       map_sum id snd (JSON_transform \<lparr>columns = removeAll col cols, isFirst = first\<rparr> chunk)"
    using o o' by (simp add: JSON_transform_text circ same_text)
  have f: "prepareValue (row_get chunk (source col)) = Inr []"
    by (simp add: u)
  have n: "normalized (row_get chunk (source col)) = []"
    by (simp add: normalized_def u)
  have g: "row_normalizable cols chunk \<longrightarrow>
        CSV_transform \<lparr>columns = cols\<rparr> chunk =
          Inr (\<lparr>columns = cols\<rparr>,
               [join_str '',''
                  (map (\<lambda>c. if c = col then [DQ, DQ]
                             else quoted_field (normalized (row_get chunk (source c)))) cols) @ [NL]])"
  proof
    assume ok: "row_normalizable cols chunk"
    have eq: "map (\<lambda>c. quoted_field (normalized (row_get chunk (source c)))) cols =
          map (\<lambda>c. if c = col then [DQ, DQ]
                    else quoted_field (normalized (row_get chunk (source c)))) cols"
      by (rule map_cong) (simp_all add: n quoted_field_def)
    have "CSV_transform \<lparr>columns = cols\<rparr> chunk =
          Inr (\<lparr>columns = cols\<rparr>,
               [join_str '','' (map (\<lambda>c. quoted_field (normalized (row_get chunk (source c)))) cols) @
                [NL]])"
      using ok by (simp add: CSV_transform_line CSV_line_def)
    then show "CSV_transform \<lparr>columns = cols\<rparr> chunk =
          Inr (\<lparr>columns = cols\<rparr>,
               [join_str '',''
                  (map (\<lambda>c. if c = col then [DQ, DQ]
                             else quoted_field (normalized (row_get chunk (source c)))) cols) @ [NL]])"
      by (simp only: eq)
  qed
  have h: "row_normalizable cols chunk \<longrightarrow>
        XML_transform \<lparr>columns = cols\<rparr> chunk =
          Inr (\<lparr>columns = cols\<rparr>,
               [''  <record>'' @ [NL] @
                concat (map (\<lambda>c. if c = col
                                  then ''    <'' @ target col @ ''></'' @ target col @ ''>'' @ [NL]
                                  else XML_element c (normalized (row_get chunk (source c)))) cols) @
                ''  </record>'' @ [NL]])"
  proof
    assume ok: "row_normalizable cols chunk"
    have eq: "map (\<lambda>c. XML_element c (normalized (row_get chunk (source c)))) cols =
          map (\<lambda>c. if c = col
                    then ''    <'' @ target col @ ''></'' @ target col @ ''>'' @ [NL]
                    else XML_element c (normalized (row_get chunk (source c)))) cols"
      by (rule map_cong) (simp_all add: n XML_element_def XML_escape_def replace_all_def)
    have "XML_transform \<lparr>columns = cols\<rparr> chunk =
          Inr (\<lparr>columns = cols\<rparr>,
               [''  <record>'' @ [NL] @
                concat (map (\<lambda>c. XML_element c (normalized (row_get chunk (source c)))) cols) @
                ''  </record>'' @ [NL]])"
      using ok by (simp add: XML_transform_record XML_record_def)
    then show "XML_transform \<lparr>columns = cols\<rparr> chunk =
          Inr (\<lparr>columns = cols\<rparr>,
               [''  <record>'' @ [NL] @
                concat (map (\<lambda>c. if c = col
                                  then ''    <'' @ target col @ ''></'' @ target col @ ''>'' @ [NL]
                                  else XML_element c (normalized (row_get chunk (source c)))) cols) @
                ''  </record>'' @ [NL]])"
      by (simp only: eq)
  qed
  from a b e f g h
  show "(circular (JSON_row_object cols chunk) \<longrightarrow>
        JSON_transform \<lparr>columns = cols, isFirst = first\<rparr> chunk = Inl TypeError) \<and>
     (\<not> circular (JSON_row_object cols chunk) \<longrightarrow>
        JSON_transform \<lparr>columns = cols, isFirst = first\<rparr> chunk =
          Inr (\<lparr>columns = cols, isFirst = False\<rparr>,
               [(if first then [] else '','') @ JSON_text cols chunk]) \<and>
        (\<exists>members. JSON_parse (JSON_text cols chunk) = Some (JsObject members) \<and>
                    target col \<notin> fst ` set members)) \<and>
     map_sum id snd (JSON_transform \<lparr>columns = cols, isFirst = first\<rparr> chunk) =
       map_sum id snd (JSON_transform \<lparr>columns = removeAll col cols, isFirst = first\<rparr> chunk) \<and>
     prepareValue (row_get chunk (source col)) = Inr [] \<and>
     (row_normalizable cols chunk \<longrightarrow>
        CSV_transform \<lparr>columns = cols\<rparr> chunk =
          Inr (\<lparr>columns = cols\<rparr>,
               [join_str '',''
                  (map (\<lambda>c. if c = col then [DQ, DQ]
                             else quoted_field (normalized (row_get chunk (source c)))) cols) @ [NL]]) \<and>
        XML_transform \<lparr>columns = cols\<rparr> chunk =
          Inr (\<lparr>columns = cols\<rparr>,
               [''  <record>'' @ [NL] @
                concat (map (\<lambda>c. if c = col
                                  then ''    <'' @ target col @ ''></'' @ target col @ ''>'' @ [NL]
                                  else XML_element c (normalized (row_get chunk (source c)))) cols) @
                ''  </record>'' @ [NL]]))"
    by blast
qed

theorem JSON_absent_field_dropped_witness:
  \<open>JSON_transform
      \<lparr>columns = [\<lparr>source = ''id'', target = ''id''\<rparr>, \<lparr>source = ''name'', target = ''name''\<rparr>],
       isFirst = True\<rparr> [(''id'', JNum (int_number 7))] =
      Inr (\<lparr>columns = [\<lparr>source = ''id'', target = ''id''\<rparr>, \<lparr>source = ''name'', target = ''name''\<rparr>],
            isFirst = False\<rparr>, [''{"id":7}'']) \<and>
    JSON_parse ''{"id":7}'' = Some (JsObject [(''id'', JsNumber ''7'')]) \<and>
    CSV_transform
      \<lparr>columns = [\<lparr>source = ''id'', target = ''id''\<rparr>, \<lparr>source = ''name'', target = ''name''\<rparr>]\<rparr>
      [(''id'', JNum (int_number 7))] =
      Inr (\<lparr>columns = [\<lparr>source = ''id'', target = ''id''\<rparr>, \<lparr>source = ''name'', target = ''name''\<rparr>]\<rparr>,
           [''"7",""'' @ [NL]]) \<and>
    XML_transform
      \<lparr>columns = [\<lparr>source = ''id'', target = ''id''\<rparr>, \<lparr>source = ''name'', target = ''name''\<rparr>]\<rparr>
      [(''id'', JNum (int_number 7))] =
      Inr (\<lparr>columns = [\<lparr>source = ''id'', target = ''id''\<rparr>, \<lparr>source = ''name'', target = ''name''\<rparr>]\<rparr>,
           [''  <record>'' @ [NL] @ ''    <id>7</id>'' @ [NL] @ ''    <name></name>'' @ [NL] @
            ''  </record>'' @ [NL]])\<close>
  using JSON_absent_field_dropped
    [where cols = "[\<lparr>source = ''id'', target = ''id''\<rparr>, \<lparr>source = ''name'', target = ''name''\<rparr>]"
       and col = "\<lparr>source = ''name'', target = ''name''\<rparr>" and chunk = "[(''id'', JNum (int_number 7))]"
       and first = True]
  by (simp add: eval_defs eval_text_defs row_normalizable_def normalizable_def JSON_parse_def
        parse_value.simps parse_members.simps parse_string.simps parse_number_def parse_int_def
        parse_digits_def parse_fraction_def parse_exponent_def)

text \<open>
  C10 (as stated) fails.  A row that lacks one projected field and holds a circular
  structure in another makes the encoder fail: no object is emitted at all.  And when two
  columns share a target name, the later one decides: the key is present although the
  source field of the earlier column is absent.
\<close>

theorem JSON_absent_field_not_dropped:
  \<open>row_get [(''meta'', JObject [(''self'', JCycle)])] ''id'' = Data JUndefined \<and>
    JSON_transform (fst (JSON_new [\<lparr>source = ''id'', target = ''id''\<rparr>, \<lparr>source = ''meta'', target = ''meta''\<rparr>]))
      [(''meta'', JObject [(''self'', JCycle)])] = Inl TypeError \<and>
    row_get [(''b'', JNum (int_number 1))] ''a'' = Data JUndefined \<and>
    JSON_transform (fst (JSON_new [\<lparr>source = ''a'', target = ''x''\<rparr>, \<lparr>source = ''b'', target = ''x''\<rparr>]))
      [(''b'', JNum (int_number 1))] =
      Inr (\<lparr>columns = [\<lparr>source = ''a'', target = ''x''\<rparr>, \<lparr>source = ''b'', target = ''x''\<rparr>],
            isFirst = False\<rparr>, [''{"x":1}''])\<close>
  by (simp add: eval_defs)

section \<open>Parsing the structured-document output\<close>

lemma concat_JSON_frames_rest: "concat (JSON_frames False ts) = concat (map (\<lambda>t. '','' @ t) ts)"
  by (induction ts) simp_all

lemma append_comma: "((@) '','') = ((#) (CHR '',''))"
  by (rule ext) simp

lemma concat_JSON_frames: "concat (JSON_frames True ts) = join_str '','' ts"
proof (cases ts)
  case Nil
  then show ?thesis by simp
next
  case (Cons t ts')
  then show ?thesis
    by (simp add: concat_JSON_frames_rest join_str_concat append_comma del: join_str.simps)
qed

lemma serialize_elements_rows:
  "(\<And>r. r \<in> set rows \<Longrightarrow> \<not> circular (JSON_row_object cols r)) \<Longrightarrow>
     serialize_elements (map (JSON_row_object cols) rows) = Inr (map (JSON_text cols) rows)"
proof (induction rows)
  case Nil
  show ?case by simp
next
  case (Cons a rows)
  have "serialize_property (JSON_row_object cols a) = Inr (Some (JSON_text cols a))"
    using JSON_stringify_row_object [of cols a] Cons.prems by (simp add: JSON_stringify_def)
  moreover have "serialize_elements (map (JSON_row_object cols) rows) = Inr (map (JSON_text cols) rows)"
    using Cons by simp
  ultimately show ?case by simp
qed

lemma JSON_export_text:
  assumes "ordinary_targets cols" "\<And>r. r \<in> set rows \<Longrightarrow> \<not> circular (JSON_row_object cols r)"
  shows "serialize_property (JArray (map (JSON_row_object cols) rows)) =
           Inr (Some (concat (fst (JSON_export cols rows))))"
  using assms
  by (simp add: JSON_export_ok serialize_elements_rows concat_JSON_frames del: JSON_frames.simps)

text \<open>
  C9 (as amended).  When no target is named \<open>__proto__\<close> or \<open>toJSON\<close> and the
  object built for no row is circular, the export completes and the concatenated
  structured-document output parses to an array with one element per input row, the
  element at each position being the JSON value of the object projected from the row at
  that position, which is also what the frame of that row parses to on its own.
\<close>

theorem JSON_export_parses_back:
  "ordinary_targets cols \<and> (\<forall>r\<in>set rows. \<not> circular (JSON_row_object cols r)) \<longrightarrow>
     snd (JSON_export cols rows) = None \<and>
     JSON_parse (concat (fst (JSON_export cols rows))) =
       Some (JsArray (map (\<lambda>r. to_json (JSON_row_object cols r)) rows)) \<and>
     length (map (\<lambda>r. to_json (JSON_row_object cols r)) rows) = length rows \<and>
     (\<forall>i<length rows.
        JSON_parse (JSON_text cols (rows ! i)) = Some (to_json (JSON_row_object cols (rows ! i))))"
proof (intro impI, elim conjE)
  assume o: "ordinary_targets cols" and ok: "\<forall>r\<in>set rows. \<not> circular (JSON_row_object cols r)"
  have a: "snd (JSON_export cols rows) = None"
    using JSON_export_ok [of cols rows] o ok by simp
  have b: "JSON_parse (concat (fst (JSON_export cols rows))) =
       Some (JsArray (map (\<lambda>r. to_json (JSON_row_object cols r)) rows))"
    using JSON_parse_serialized [OF JSON_export_text [of cols rows]] o ok
    by (simp add: to_json_elements_map comp_def)
  have c: "\<forall>i<length rows.
        JSON_parse (JSON_text cols (rows ! i)) = Some (to_json (JSON_row_object cols (rows ! i)))"
  proof (intro allI impI)
    fix i assume "i < length rows"
    then have "\<not> circular (JSON_row_object cols (rows ! i))" using ok by simp
    then have "serialize_property (JSON_row_object cols (rows ! i)) = Inr (Some (JSON_text cols (rows ! i)))"
      using JSON_stringify_row_object [of cols "rows ! i"] by (simp add: JSON_stringify_def)
    then show "JSON_parse (JSON_text cols (rows ! i)) = Some (to_json (JSON_row_object cols (rows ! i)))"
      by (rule JSON_parse_serialized)
  qed
  from a b c show "snd (JSON_export cols rows) = None \<and>
     JSON_parse (concat (fst (JSON_export cols rows))) =
       Some (JsArray (map (\<lambda>r. to_json (JSON_row_object cols r)) rows)) \<and>
     length (map (\<lambda>r. to_json (JSON_row_object cols r)) rows) = length rows \<and>
     (\<forall>i<length rows.
        JSON_parse (JSON_text cols (rows ! i)) = Some (to_json (JSON_row_object cols (rows ! i))))"
    by simp
qed

theorem JSON_export_parses_back_witness:
  \<open>JSON_parse (concat (fst (JSON_export
      [\<lparr>source = ''id'', target = ''id''\<rparr>, \<lparr>source = ''name'', target = ''n''\<rparr>]
      [[(''id'', JNum (Finite True 25 1)), (''name'', JStr ''a,b'')], [(''id'', JNum NaN)]]))) =
    Some (JsArray [JsObject [(''id'', JsNumber ''-2.5''), (''n'', JsString ''a,b'')],
                   JsObject [(''id'', JsNull)]]) \<and>
    concat (fst (JSON_export
      [\<lparr>source = ''id'', target = ''id''\<rparr>, \<lparr>source = ''name'', target = ''n''\<rparr>]
      [[(''id'', JNum (Finite True 25 1)), (''name'', JStr ''a,b'')], [(''id'', JNum NaN)]])) =
      ''[{"id":-2.5,"n":"a,b"},{"id":null}]''\<close>
  using JSON_export_parses_back
    [where cols = "[\<lparr>source = ''id'', target = ''id''\<rparr>, \<lparr>source = ''name'', target = ''n''\<rparr>]"
       and rows = "[[(''id'', JNum (Finite True 25 1)), (''name'', JStr ''a,b'')], [(''id'', JNum NaN)]]"]
  by (simp add: eval_defs)

text \<open>
  C9 (as stated) fails for a row sequence that holds a circular row: the export is
  aborted at that row, the closing token is never written, and what was written does not
  parse.
\<close>

theorem JSON_export_aborted_does_not_parse:
  \<open>JSON_export [\<lparr>source = ''id'', target = ''id''\<rparr>]
      [[(''id'', JNum (int_number 1))], [(''id'', JObject [(''self'', JCycle)])]] =
      ([''['', ''{"id":1}''], Some TypeError) \<and>
    JSON_parse (concat (fst (JSON_export [\<lparr>source = ''id'', target = ''id''\<rparr>]
      [[(''id'', JNum (int_number 1))], [(''id'', JObject [(''self'', JCycle)])]]))) = None\<close>
  by (simp add: eval_defs JSON_parse_def
        parse_value.simps parse_elements.simps parse_members.simps parse_string.simps
        parse_number_def parse_int_def parse_digits_def parse_fraction_def parse_exponent_def)


end
